(* ===== verification/Prelude.thy ===== *)
theory Prelude
  imports Main "HOL-Library.Sublist" "HOL-Library.Multiset"
begin

section \<open>Prelude: exceptions, state passing and shared list facts\<close>

text \<open>
  What every component of the model shares. A coroutine of the program that can raise and that
  changes some state \<open>'s\<close> (a database session, a Redis server, a replica) is a function
  \<open>'s \<Rightarrow> ('e + 'a) \<times> 's\<close>: \<open>Inl\<close> is a raised exception, \<open>Inr\<close> a returned value, and the
  state is the one left behind in either case, because a Python exception undoes nothing by
  itself. The sequencing operators below are Python's own: a statement after another, a
  \<open>try\<close>/\<open>except\<close>, a \<open>try\<close>/\<open>finally\<close>, a \<open>for\<close> loop.

  The collection \<open>proc_simps\<close> unfolds them; every component proof starts from it.
\<close>

named_theorems proc_simps \<open>unfolding of the sequencing operators\<close>

subsection \<open>Coroutines with exceptions over a state\<close>

type_synonym ('e, 'a, 's) proc = "'s \<Rightarrow> ('e + 'a) \<times> 's"

definition ret :: "'a \<Rightarrow> ('e, 'a, 's) proc" where
  "ret x s = (Inr x, s)"

definition throw :: "'e \<Rightarrow> ('e, 'a, 's) proc" where
  "throw e s = (Inl e, s)"

text \<open>A pure computation that may raise (a constructor, a guard of an aggregate).\<close>

definition lift :: "'e + 'a \<Rightarrow> ('e, 'a, 's) proc" where
  "lift r s = (r, s)"

text \<open>\<open>x = await m; f(x)\<close>\<close>

definition bindp :: "('e, 'a, 's) proc \<Rightarrow> ('a \<Rightarrow> ('e, 'b, 's) proc) \<Rightarrow> ('e, 'b, 's) proc" where
  "bindp m f s = (case m s of (Inl e, s') \<Rightarrow> (Inl e, s') | (Inr x, s') \<Rightarrow> f x s')"

text \<open>\<open>await m; k\<close>, the value of \<open>m\<close> dropped.\<close>

definition thenp :: "('e, 'a, 's) proc \<Rightarrow> ('e, 'b, 's) proc \<Rightarrow> ('e, 'b, 's) proc" where
  "thenp m k = bindp m (\<lambda>_. k)"

text \<open>\<open>try: m\<close> followed by an \<open>except\<close> clause, which sees every exception and re-raises those
  the clause does not name.\<close>

definition try_except ::
    "('e, 'a, 's) proc \<Rightarrow> ('e \<Rightarrow> ('e, 'a, 's) proc) \<Rightarrow> ('e, 'a, 's) proc" where
  "try_except m h s = (case m s of (Inl e, s') \<Rightarrow> h e s' | (Inr x, s') \<Rightarrow> (Inr x, s'))"

text \<open>\<open>try: m finally: f\<close>: an exception of the \<open>finally\<close> block replaces the outcome.\<close>

definition try_finally ::
    "('e, 'a, 's) proc \<Rightarrow> ('e, unit, 's) proc \<Rightarrow> ('e, 'a, 's) proc" where
  "try_finally m f s =
     (case m s of (r, s') \<Rightarrow> (case f s' of (Inl e, s'') \<Rightarrow> (Inl e, s'') | (Inr _, s'') \<Rightarrow> (r, s'')))"

text \<open>\<open>for x in xs: await f(x)\<close>; an exception leaves the loop.\<close>

fun for_each :: "'x list \<Rightarrow> ('x \<Rightarrow> ('e, unit, 's) proc) \<Rightarrow> ('e, unit, 's) proc" where
  "for_each [] f = ret ()"
| "for_each (x # xs) f = thenp (f x) (for_each xs f)"

declare ret_def [proc_simps] throw_def [proc_simps] lift_def [proc_simps]
  bindp_def [proc_simps] thenp_def [proc_simps] try_except_def [proc_simps]
  try_finally_def [proc_simps]

text \<open>Pure code that may raise is sequenced in the same way, without a state.\<close>

definition bindr :: "'e + 'a \<Rightarrow> ('a \<Rightarrow> 'e + 'b) \<Rightarrow> 'e + 'b" where
  "bindr r f = (case r of Inl e \<Rightarrow> Inl e | Inr x \<Rightarrow> f x)"

declare bindr_def [proc_simps]

text \<open>\<open>[f(x) for x in xs]\<close> where \<open>f\<close> may raise: the first exception is the result.\<close>

fun map_result :: "('a \<Rightarrow> 'e + 'b) \<Rightarrow> 'a list \<Rightarrow> 'e + 'b list" where
  "map_result f [] = Inr []"
| "map_result f (x # xs) =
     bindr (f x) (\<lambda>y. bindr (map_result f xs) (\<lambda>ys. Inr (y # ys)))"

subsection \<open>Facts about the operators\<close>

lemma bindp_InrI: "m s = (Inr x, s') \<Longrightarrow> bindp m f s = f x s'"
  by (simp add: bindp_def)

lemma bindp_InlI: "m s = (Inl e, s') \<Longrightarrow> bindp m f s = (Inl e, s')"
  by (simp add: bindp_def)

lemma thenp_InrI: "m s = (Inr x, s') \<Longrightarrow> thenp m k s = k s'"
  by (simp add: thenp_def bindp_def)

lemma thenp_InlI: "m s = (Inl e, s') \<Longrightarrow> thenp m k s = (Inl e, s')"
  by (simp add: thenp_def bindp_def)

lemma bindp_assoc: "bindp (bindp m f) g = bindp m (\<lambda>x. bindp (f x) g)"
  by (rule ext) (auto simp: bindp_def split: prod.splits sum.splits)

lemma bindp_ret [simp]: "bindp (ret x) f = f x"
  by (rule ext) (simp add: bindp_def ret_def)

lemma bindp_throw [simp]: "bindp (throw e) f = throw e"
  by (rule ext) (simp add: bindp_def throw_def)

lemma bindp_lift_Inr [simp]: "bindp (lift (Inr x)) f = f x"
  by (rule ext) (simp add: bindp_def lift_def)

lemma bindp_lift_Inl [simp]: "bindp (lift (Inl e)) f = throw e"
  by (rule ext) (simp add: bindp_def lift_def throw_def)

lemma bindp_Inr_elim:
  assumes "bindp m f s = (Inr y, s'')"
  obtains x s' where "m s = (Inr x, s')" and "f x s' = (Inr y, s'')"
  using assms by (auto simp: bindp_def split: prod.splits sum.splits)

lemma map_result_Inr [simp]:
  assumes "\<And>x. x \<in> set xs \<Longrightarrow> f x = Inr (g x)"
  shows "map_result f xs = Inr (map g xs)"
  using assms by (induction xs) (simp_all add: bindr_def)

text \<open>A state predicate a loop body keeps is kept by the whole loop, raised exceptions included.\<close>

lemma for_each_keeps:
  assumes body: "\<And>x s. x \<in> set xs \<Longrightarrow> P s \<Longrightarrow> P (snd (f x s))" and "P s"
  shows "P (snd (for_each xs f s))"
  using assms
proof (induction xs arbitrary: s)
  case Nil
  then show ?case by (simp add: ret_def)
next
  case (Cons x xs)
  have px: "P (snd (f x s))" using Cons.prems by simp
  show ?case
  proof (cases "f x s")
    case (Pair r s')
    with px have "P s'" by simp
    with Cons.IH Cons.prems(1) have "P (snd (for_each xs f s'))" by simp
    with Pair \<open>P s'\<close> show ?thesis
      by (cases r) (simp_all add: thenp_def bindp_def)
  qed
qed

subsection \<open>Partial-correctness triples\<close>

text \<open>
  \<open>hoare P m Q E\<close>: run from a state satisfying \<open>P\<close>, the coroutine \<open>m\<close> ends in a state satisfying \<open>Q\<close>
  of its value, or raises in a state satisfying \<open>E\<close>. The rules of \<open>hoare_rules\<close> follow the statements, so
  that an invariant is carried through a whole use case by applying them.
\<close>

named_theorems hoare_rules \<open>one rule per statement form\<close>

definition hoare ::
    "('s \<Rightarrow> bool) \<Rightarrow> ('e, 'a, 's) proc \<Rightarrow> ('a \<Rightarrow> 's \<Rightarrow> bool) \<Rightarrow> ('s \<Rightarrow> bool) \<Rightarrow> bool" where
  "hoare P m Q E = (\<forall>s. P s \<longrightarrow> (case m s of (Inl e, s') \<Rightarrow> E s' | (Inr x, s') \<Rightarrow> Q x s'))"

lemma hoareI:
  assumes "\<And>s x s'. P s \<Longrightarrow> m s = (Inr x, s') \<Longrightarrow> Q x s'"
    and "\<And>s e s'. P s \<Longrightarrow> m s = (Inl e, s') \<Longrightarrow> E s'"
  shows "hoare P m Q E"
  unfolding hoare_def using assms by (auto split: prod.splits sum.splits)

lemma hoare_InrD: "hoare P m Q E \<Longrightarrow> P s \<Longrightarrow> m s = (Inr x, s') \<Longrightarrow> Q x s'"
  by (force simp: hoare_def)

lemma hoare_InlD: "hoare P m Q E \<Longrightarrow> P s \<Longrightarrow> m s = (Inl e, s') \<Longrightarrow> E s'"
  by (force simp: hoare_def)

lemma hoare_weaken:
  assumes "hoare P' m Q' E'" and "\<And>s. P s \<Longrightarrow> P' s" and "\<And>x s. Q' x s \<Longrightarrow> Q x s"
    and "\<And>s. E' s \<Longrightarrow> E s"
  shows "hoare P m Q E"
  using assms by (intro hoareI) (blast dest: hoare_InrD hoare_InlD)+

lemma hoare_ret [hoare_rules]: "(\<And>s. P s \<Longrightarrow> Q x s) \<Longrightarrow> hoare P (ret x) Q E"
  by (simp add: hoare_def ret_def)

lemma hoare_throw [hoare_rules]: "(\<And>s. P s \<Longrightarrow> E s) \<Longrightarrow> hoare P (throw e) Q E"
  by (simp add: hoare_def throw_def)

lemma hoare_lift [hoare_rules]:
  "(\<And>x s. r = Inr x \<Longrightarrow> P s \<Longrightarrow> Q x s) \<Longrightarrow> (\<And>s. P s \<Longrightarrow> E s) \<Longrightarrow> hoare P (lift r) Q E"
  by (cases r) (simp_all add: hoare_def lift_def)

lemma hoare_bindp [hoare_rules]:
  "hoare P m R E \<Longrightarrow> (\<And>x. hoare (R x) (f x) Q E) \<Longrightarrow> hoare P (bindp m f) Q E"
  unfolding hoare_def bindp_def by (fastforce split: prod.splits sum.splits)

lemma hoare_thenp [hoare_rules]:
  "hoare P m (\<lambda>_. R) E \<Longrightarrow> hoare R k Q E \<Longrightarrow> hoare P (thenp m k) Q E"
  unfolding thenp_def by (rule hoare_bindp)

lemma hoare_try_except:
  "hoare P m Q R \<Longrightarrow> (\<And>e. hoare R (h e) Q E) \<Longrightarrow> hoare P (try_except m h) Q E"
  unfolding hoare_def try_except_def by (fastforce split: prod.splits sum.splits)

subsection \<open>What a coroutine leaves alone\<close>

text \<open>\<open>preserves f m\<close>: whatever \<open>m\<close> returns or raises, the part \<open>f\<close> of the state is as it was.\<close>

named_theorems preserves_rules \<open>one rule per statement form\<close>

definition preserves :: "('s \<Rightarrow> 'b) \<Rightarrow> ('e, 'a, 's) proc \<Rightarrow> bool" where
  "preserves f m = (\<forall>s. f (snd (m s)) = f s)"

lemma preservesD: "preserves f m \<Longrightarrow> m s = (r, s') \<Longrightarrow> f s' = f s"
  unfolding preserves_def by (metis snd_conv)

lemma preserves_ret [preserves_rules]: "preserves f (ret x)"
  by (simp add: preserves_def ret_def)

lemma preserves_throw [preserves_rules]: "preserves f (throw e)"
  by (simp add: preserves_def throw_def)

lemma preserves_lift [preserves_rules]: "preserves f (lift r)"
  by (simp add: preserves_def lift_def)

lemma preserves_bindp [preserves_rules]:
  "preserves f m \<Longrightarrow> (\<And>x. preserves f (k x)) \<Longrightarrow> preserves f (bindp m k)"
  unfolding preserves_def bindp_def by (auto split: prod.splits sum.splits) (metis snd_conv)+

lemma preserves_thenp [preserves_rules]: "preserves f m \<Longrightarrow> preserves f k \<Longrightarrow> preserves f (thenp m k)"
  unfolding thenp_def by (rule preserves_bindp)

lemma preserves_try_except [preserves_rules]:
  "preserves f m \<Longrightarrow> (\<And>e. preserves f (h e)) \<Longrightarrow> preserves f (try_except m h)"
  unfolding preserves_def try_except_def by (auto split: prod.splits sum.splits) (metis snd_conv)+

lemma preserves_if [preserves_rules]: "preserves f a \<Longrightarrow> preserves f b \<Longrightarrow> preserves f (if c then a else b)"
  by simp

lemma preserves_option [preserves_rules]:
  "preserves f a \<Longrightarrow> (\<And>y. preserves f (b y)) \<Longrightarrow> preserves f (case x of None \<Rightarrow> a | Some y \<Rightarrow> b y)"
  by (cases x) simp_all

lemma preserves_sum [preserves_rules]:
  "(\<And>y. preserves f (a y)) \<Longrightarrow> (\<And>z. preserves f (b z)) \<Longrightarrow> preserves f (case x of Inl y \<Rightarrow> a y | Inr z \<Rightarrow> b z)"
  by (cases x) simp_all

lemma preserves_prod [preserves_rules]:
  "(\<And>y z. preserves f (b y z)) \<Longrightarrow> preserves f (case x of (y, z) \<Rightarrow> b y z)"
  by (cases x) simp

subsection \<open>Sorted selections\<close>

text \<open>
  The queries of the program are filters of a table, sorted by a key and cut at a limit. The facts
  below are what pagination and replay need about such lists: a strictly sorted list is determined
  by its elements, and cutting one at a bound is filtering it.
\<close>

lemma sorted_key_filter_eq:
  assumes "sorted_wrt (<) (map k xs)" and "sorted_wrt (<) (map (k :: 'a \<Rightarrow> 'b::linorder) ys)"
    and "set xs = set ys"
  shows "xs = ys"
  using assms
proof (induction xs arbitrary: ys)
  case Nil
  then show ?case by simp
next
  case (Cons x xs)
  then obtain y ys' where ys: "ys = y # ys'" by (cases ys) auto
  have hd: "x = y"
  proof (rule ccontr)
    assume "x \<noteq> y"
    with Cons.prems(3) ys have "x \<in> set ys'" and "y \<in> set xs" by auto
    with Cons.prems(1,2) ys have "k y < k x" and "k x < k y" by auto
    then show False by simp
  qed
  have "x \<notin> set xs" and "y \<notin> set ys'"
    using Cons.prems(1,2) ys by auto
  with Cons.prems(3) ys hd have "set xs = set ys'" by auto
  with Cons.IH [of ys'] Cons.prems(1,2) ys hd show ?case by simp
qed

text \<open>Cutting a list sorted by an asymmetric relation after its first \<open>n\<close> elements is keeping what
  lies beyond the last of them: the step of a keyset cursor, in either direction.\<close>

lemma filter_beyond_take_last:
  assumes sorted: "sorted_wrt R xs" and asym: "\<And>x y. R x y \<Longrightarrow> \<not> R y x"
    and n: "0 < n" "n \<le> length xs"
  shows "filter (R (last (take n xs))) xs = drop n xs"
proof -
  let ?t = "take n xs" and ?d = "drop n xs"
  have ne: "?t \<noteq> []" using n by auto
  have "sorted_wrt R (?t @ ?d)" using sorted by simp
  then have below: "\<And>x y. x \<in> set ?t \<Longrightarrow> y \<in> set ?d \<Longrightarrow> R x y" and tsorted: "sorted_wrt R ?t"
    by (simp_all only: sorted_wrt_append)
  have "\<not> R (last ?t) x" if "x \<in> set ?t" for x
  proof -
    from ne have app: "?t = butlast ?t @ [last ?t]" by simp
    from tsorted have "sorted_wrt R (butlast ?t @ [last ?t])" using app by simp
    then have "\<And>z. z \<in> set (butlast ?t) \<Longrightarrow> R z (last ?t)" by (simp add: sorted_wrt_append)
    moreover from that app have "x \<in> set (butlast ?t) \<or> x = last ?t"
      by (metis Un_iff empty_iff empty_set insert_iff list.simps(15) set_append)
    ultimately show ?thesis using asym by blast
  qed
  then have "filter (R (last ?t)) ?t = []" by (simp add: filter_empty_conv)
  moreover have "filter (R (last ?t)) ?d = ?d" using below ne by (simp add: filter_id_conv)
  ultimately have "filter (R (last ?t)) (?t @ ?d) = ?d"
    by (simp only: filter_append append.left_neutral)
  then show ?thesis by simp
qed

lemma sorted_wrt_less_distinct: "sorted_wrt (<) (map k xs) \<Longrightarrow> distinct (map (k :: 'a \<Rightarrow> 'b::linorder) xs)"
  by (simp add: strict_sorted_iff)

lemma sorted_wrt_map_less:
  "sorted_wrt (<) (map k xs) = sorted_wrt (\<lambda>x y. k x < (k y :: 'b::linorder)) xs"
  by (simp add: sorted_wrt_map)

lemma sorted_wrt_filter_map:
  "sorted_wrt (<) (map k xs) \<Longrightarrow> sorted_wrt (<) (map k (filter P xs))"
  by (induction xs) auto

lemma find_distinct_key:
  assumes "distinct (map k xs)" and "x \<in> set xs"
  shows "find (\<lambda>y. k y = k x) xs = Some x"
  using assms by (induction xs) (auto simp: image_iff)

lemma find_None_key: "(find (\<lambda>y. k y = v) xs = None) = (v \<notin> k ` set xs)"
  by (auto simp: find_None_iff image_iff)

lemma find_Some_D: "find P xs = Some x \<Longrightarrow> x \<in> set xs \<and> P x"
  by (auto simp: find_Some_iff)

lemma find_append: "find P (xs @ ys) = (case find P xs of None \<Rightarrow> find P ys | Some x \<Rightarrow> Some x)"
  by (induction xs) auto

end
