(* ===== verification/PyText.thy ===== *)
theory PyText
  imports Prelude "HOL-Library.Word"
begin

section \<open>Python's text operations the program relies on\<close>

text \<open>
  A HOL \<open>string\<close> is a list of \<open>char\<close>, and a \<open>char\<close> stands for one Python code point of the range
  U+0000 to U+00FF, so \<open>length\<close> counts what \<open>len\<close> counts. On that range the operations below are
  those of the language, not approximations: \<open>str.isspace\<close>, \<open>str.strip\<close>, \<open>str.lower\<close>,
  \<open>str.partition\<close>, the part of \<open>re\<close> that the one pattern of the program needs, and the text form
  of \<open>uuid.UUID\<close>. Code points above U+00FF are outside the model.
\<close>

subsection \<open>Whitespace and strip\<close>

definition code :: "char \<Rightarrow> nat" where
  "code c = of_char c"

text \<open>The white space code points below U+0100: \<open>\t \n \v \f \r\<close>, the four separators 1C-1F, space,
  NEL and NBSP. \<open>str.strip()\<close> and the \<open>\s\<close> of \<open>re\<close> use the same set.\<close>

definition is_space :: "char \<Rightarrow> bool" where
  "is_space c =
     (code c \<in> {9, 10, 11, 12, 13, 28, 29, 30, 31, 32, 133, 160})"

definition lstrip :: "string \<Rightarrow> string" where
  "lstrip s = dropWhile is_space s"

definition rstrip :: "string \<Rightarrow> string" where
  "rstrip s = rev (dropWhile is_space (rev s))"

definition strip :: "string \<Rightarrow> string" where
  "strip s = rstrip (lstrip s)"

text \<open>\<open>str.lower\<close>: A-Z and the capitals C0-DE, without the multiplication sign D7.\<close>

definition lower_char :: "char \<Rightarrow> char" where
  "lower_char c =
     (let n = code c
      in if 65 \<le> n \<and> n \<le> 90 \<or> 192 \<le> n \<and> n \<le> 222 \<and> n \<noteq> 215 then char_of (n + 32) else c)"

definition lower :: "string \<Rightarrow> string" where
  "lower s = map lower_char s"

lemma code_char_of [simp]: "n < 256 \<Longrightarrow> code (char_of n) = n"
  by (simp add: code_def)

lemma code_lt [simp]: "code c < 256"
  by (simp add: code_def)

lemma code_eq_iff [simp]: "code a = code b \<longleftrightarrow> a = b"
  by (simp add: code_def)

lemma lower_char_code:
  "code (lower_char c) =
     (if 65 \<le> code c \<and> code c \<le> 90 \<or> 192 \<le> code c \<and> code c \<le> 222 \<and> code c \<noteq> 215
      then code c + 32 else code c)"
  by (simp add: lower_char_def Let_def)

lemma lower_char_idem [simp]: "lower_char (lower_char c) = lower_char c"
  by (simp add: code_eq_iff [symmetric] lower_char_code del: code_eq_iff)

lemma lower_idem [simp]: "lower (lower s) = lower s"
  by (simp add: lower_def comp_def)

lemma is_space_lower [simp]: "is_space (lower_char c) = is_space c"
  by (auto simp: is_space_def lower_char_code)

lemma length_lower [simp]: "length (lower s) = length s"
  by (simp add: lower_def)

lemma set_rstrip: "set (rstrip s) \<subseteq> set s"
  by (auto simp: rstrip_def dest: set_dropWhileD)

lemma rstrip_decomp: "\<exists>w. s = rstrip s @ w \<and> (\<forall>c \<in> set w. is_space c)"
proof -
  have "rev s = takeWhile is_space (rev s) @ dropWhile is_space (rev s)" by simp
  then have "s = rev (dropWhile is_space (rev s)) @ rev (takeWhile is_space (rev s))"
    by (metis rev_append rev_rev_ident)
  then show ?thesis
    by (intro exI [of _ "rev (takeWhile is_space (rev s))"])
      (auto simp: rstrip_def dest: set_takeWhileD)
qed

lemma rstrip_last: "rstrip s \<noteq> [] \<Longrightarrow> \<not> is_space (last (rstrip s))"
  unfolding rstrip_def
  by (metis hd_dropWhile last_rev rev_is_Nil_conv rev_rev_ident)

lemma lstrip_hd: "lstrip s \<noteq> [] \<Longrightarrow> \<not> is_space (hd (lstrip s))"
  by (simp add: lstrip_def hd_dropWhile)

lemma rstrip_hd:
  assumes "s \<noteq> []" and "\<not> is_space (hd s)"
  shows "rstrip s \<noteq> [] \<and> hd (rstrip s) = hd s"
proof -
  obtain w where w: "s = rstrip s @ w" "\<forall>c \<in> set w. is_space c" using rstrip_decomp by blast
  have "rstrip s \<noteq> []"
  proof
    assume "rstrip s = []"
    with w(1) have "s = w" by simp
    with w(2) assms(1) have "is_space (hd s)" by (metis list.set_sel(1))
    with assms(2) show False by simp
  qed
  with w(1) show ?thesis by (metis hd_append2)
qed

lemma rstrip_fixed: "s = [] \<or> \<not> is_space (last s) \<Longrightarrow> rstrip s = s"
  by (cases s rule: rev_cases) (auto simp: rstrip_def)

lemma lstrip_fixed: "s = [] \<or> \<not> is_space (hd s) \<Longrightarrow> lstrip s = s"
  by (cases s) (auto simp: lstrip_def)

text \<open>What a stripped string is: it neither starts nor ends with white space.\<close>

definition stripped :: "string \<Rightarrow> bool" where
  "stripped s = (s = [] \<or> \<not> is_space (hd s) \<and> \<not> is_space (last s))"

lemma stripped_strip [simp]: "stripped (strip s)"
proof (cases "lstrip s = []")
  case True
  then show ?thesis by (simp add: strip_def stripped_def rstrip_def)
next
  case False
  then have "rstrip (lstrip s) \<noteq> [] \<and> hd (rstrip (lstrip s)) = hd (lstrip s)"
    using lstrip_hd rstrip_hd by blast
  with False show ?thesis
    using lstrip_hd rstrip_last by (simp add: strip_def stripped_def)
qed

lemma strip_fixed: "stripped s \<Longrightarrow> strip s = s"
  by (auto simp: strip_def stripped_def lstrip_fixed rstrip_fixed)

lemma strip_idem [simp]: "strip (strip s) = strip s"
  by (simp add: strip_fixed)

lemma length_strip: "length (strip s) \<le> length s"
  unfolding strip_def rstrip_def lstrip_def
  by (metis length_dropWhile_le length_rev order_trans)

lemma strip_eq_Nil: "strip s = [] \<longleftrightarrow> (\<forall>c \<in> set s. is_space c)"
proof
  assume e: "strip s = []"
  show "\<forall>c \<in> set s. is_space c"
  proof (cases "lstrip s = []")
    case True
    then show ?thesis by (simp add: lstrip_def dropWhile_eq_Nil_conv)
  next
    case False
    with e show ?thesis using lstrip_hd rstrip_hd by (metis strip_def)
  qed
next
  assume "\<forall>c \<in> set s. is_space c"
  then have "lstrip s = []" by (simp add: lstrip_def dropWhile_eq_Nil_conv)
  then show "strip s = []" by (simp add: strip_def rstrip_def)
qed

lemma stripped_lower: "stripped s \<Longrightarrow> stripped (lower s)"
  by (auto simp: stripped_def lower_def last_map hd_map)

subsection \<open>partition\<close>

text \<open>\<open>token.partition(sep)\<close> for a one-character separator: \<open>(before, sep, after)\<close>, or
  \<open>(token, "", "")\<close> when the separator does not occur.\<close>

definition str_partition :: "char \<Rightarrow> string \<Rightarrow> string \<times> string \<times> string" where
  "str_partition sep s =
     (case dropWhile (\<lambda>c. c \<noteq> sep) s of
        [] \<Rightarrow> (s, [], [])
      | c # rest \<Rightarrow> (takeWhile (\<lambda>c. c \<noteq> sep) s, [c], rest))"

lemma str_partition_app:
  assumes "sep \<notin> set a"
  shows "str_partition sep (a @ sep # b) = (a, [sep], b)"
proof -
  have "dropWhile (\<lambda>c. c \<noteq> sep) (a @ sep # b) = sep # b"
    and "takeWhile (\<lambda>c. c \<noteq> sep) (a @ sep # b) = a"
    using assms by (induction a) auto
  then show ?thesis by (simp add: str_partition_def)
qed

lemma str_partition_found:
  assumes "str_partition sep s = (a, m, b)" and "m \<noteq> []"
  shows "s = a @ sep # b \<and> sep \<notin> set a"
proof -
  obtain c where cr: "dropWhile (\<lambda>c. c \<noteq> sep) s = c # b"
    and a: "a = takeWhile (\<lambda>c. c \<noteq> sep) s"
    using assms by (auto simp: str_partition_def split: list.splits)
  have "c = sep" using cr by (simp add: dropWhile_eq_Cons_conv)
  moreover have "s = takeWhile (\<lambda>c. c \<noteq> sep) s @ dropWhile (\<lambda>c. c \<noteq> sep) s" by simp
  ultimately have "s = a @ sep # b" using cr a by simp
  moreover have "sep \<notin> set a" using a by (auto dest: set_takeWhileD)
  ultimately show ?thesis by simp
qed

subsection \<open>The regular expressions the program compiles\<close>

text \<open>
  The one pattern of the program, \<open>^[^@\s]+@[^@\s]+\.[^@\s]+$\<close>, is a sequence of items: a literal
  character, one or more characters of a class, and \<open>$\<close>, which \<open>re\<close> accepts at the end of the text
  and also just before a final newline. The matcher backtracks over how much a \<open>+\<close> takes, as \<open>re\<close>
  does; \<open>re.match\<close> anchors it at the start of the text.
\<close>

datatype re_item = Lit char | Plus "char \<Rightarrow> bool" | Eol

text \<open>\<open>plus_match p k s\<close>: \<open>p\<close> takes one or more characters of \<open>s\<close> and \<open>k\<close> accepts the rest.\<close>

fun plus_match :: "(char \<Rightarrow> bool) \<Rightarrow> (string \<Rightarrow> bool) \<Rightarrow> string \<Rightarrow> bool" where
  "plus_match p k [] = False"
| "plus_match p k (c # s) = (p c \<and> (plus_match p k s \<or> k s))"

fun re_match :: "re_item list \<Rightarrow> string \<Rightarrow> bool" where
  "re_match [] s = True"
| "re_match (Lit c # r) s = (case s of [] \<Rightarrow> False | d # s' \<Rightarrow> d = c \<and> re_match r s')"
| "re_match (Plus p # r) s = plus_match p (re_match r) s"
| "re_match (Eol # r) s = ((s = [] \<or> s = [CHR 0x0A]) \<and> re_match r s)"

lemma plus_match_iff:
  "plus_match p k s \<longleftrightarrow> (\<exists>a b. s = a @ b \<and> a \<noteq> [] \<and> (\<forall>c \<in> set a. p c) \<and> k b)"
proof (induction s)
  case Nil
  then show ?case by simp
next
  case (Cons c s)
  show ?case
  proof
    assume m: "plus_match p k (c # s)"
    then have pc: "p c" by simp
    from m consider "k s" | "plus_match p k s" by auto
    then show "\<exists>a b. c # s = a @ b \<and> a \<noteq> [] \<and> (\<forall>c \<in> set a. p c) \<and> k b"
    proof cases
      case 1
      with pc show ?thesis by (intro exI [of _ "[c]"] exI [of _ s]) simp
    next
      case 2
      with Cons.IH obtain a b where "s = a @ b" "\<forall>c \<in> set a. p c" "k b" by auto
      with pc show ?thesis by (intro exI [of _ "c # a"] exI [of _ b]) simp
    qed
  next
    assume "\<exists>a b. c # s = a @ b \<and> a \<noteq> [] \<and> (\<forall>c \<in> set a. p c) \<and> k b"
    then obtain a b where ab: "c # s = a @ b" "a \<noteq> []" "\<forall>c \<in> set a. p c" "k b" by blast
    then obtain a' where a': "a = c # a'" "s = a' @ b" by (cases a) auto
    show "plus_match p k (c # s)"
    proof (cases "a' = []")
      case True
      with ab a' show ?thesis by simp
    next
      case False
      with ab a' have "plus_match p k s" using Cons.IH by auto
      with ab a' show ?thesis by simp
    qed
  qed
qed

lemma re_match_Lit_iff: "re_match (Lit c # r) s \<longleftrightarrow> (\<exists>s'. s = c # s' \<and> re_match r s')"
  by (cases s) auto

lemma re_match_Plus_iff:
  "re_match (Plus p # r) s \<longleftrightarrow> (\<exists>a b. s = a @ b \<and> a \<noteq> [] \<and> (\<forall>c \<in> set a. p c) \<and> re_match r b)"
  by (simp add: plus_match_iff)

end
