(* ===== verification/Uuid.thy ===== *)
theory Uuid
  imports PyText
begin

section \<open>UUIDs and their text form\<close>

text \<open>
  Every identity of the program (users, conversations, senders, client message ids) wraps a
  \<open>uuid.UUID\<close>, a 128-bit integer: here a \<open>128 word\<close>. The program prints one with \<open>str(...)\<close> (wire
  frames, Redis payloads and keys, the \<open>sub\<close> claim) and with \<open>.hex\<close> (refresh token ids), and reads
  one back with \<open>UUID(text)\<close>. All three are the standard library's: \<open>UUID(text)\<close> drops \<open>urn:\<close> and
  \<open>uuid:\<close>, strips braces, drops the dashes, wants 32 characters and hands them to \<open>int(_, 16)\<close>,
  which accepts more than hexadecimal digits.
\<close>

type_synonym uuid = "128 word"

subsection \<open>Hexadecimal\<close>

definition hex_digit :: "nat \<Rightarrow> char" where
  "hex_digit n = ''0123456789abcdef'' ! n"

text \<open>\<open>'%0wx' % n\<close> for \<open>n\<close> that fits.\<close>

fun hex_digits :: "nat \<Rightarrow> nat \<Rightarrow> string" where
  "hex_digits 0 n = []"
| "hex_digits (Suc w) n = hex_digits w (n div 16) @ [hex_digit (n mod 16)]"

definition hex_value :: "char \<Rightarrow> nat option" where
  "hex_value c =
     (let n = code c
      in if 48 \<le> n \<and> n \<le> 57 then Some (n - 48)
         else if 97 \<le> n \<and> n \<le> 102 then Some (n - 87)
         else if 65 \<le> n \<and> n \<le> 70 then Some (n - 55)
         else None)"

text \<open>The digits of \<open>int(s, 16)\<close>, with single underscores allowed between them. The flag says that
  a digit must come next.\<close>

fun hex_number :: "nat \<Rightarrow> bool \<Rightarrow> string \<Rightarrow> nat option" where
  "hex_number acc want [] = (if want then None else Some acc)"
| "hex_number acc want (c # s) =
     (if c = CHR ''_'' then (if want then None else hex_number acc True s)
      else case hex_value c of None \<Rightarrow> None | Some d \<Rightarrow> hex_number (16 * acc + d) False s)"

text \<open>\<open>int(s, 16)\<close>: white space around, a sign, a \<open>0x\<close> prefix (an underscore may follow it), digits;
  \<open>None\<close> is \<open>ValueError\<close>.\<close>

definition py_int16 :: "string \<Rightarrow> int option" where
  "py_int16 s0 =
     (let s = strip s0;
          (neg, s) = (case s of c # r \<Rightarrow> if c = CHR ''-'' then (True, r)
                                        else if c = CHR ''+'' then (False, r) else (False, s)
                              | [] \<Rightarrow> (False, s));
          s = (case s of a # b # r \<Rightarrow>
                 if a = CHR ''0'' \<and> (b = CHR ''x'' \<or> b = CHR ''X'')
                 then (case r of c # r' \<Rightarrow> if c = CHR ''_'' then r' else r | [] \<Rightarrow> r)
                 else s
               | _ \<Rightarrow> s)
      in map_option (\<lambda>n. if neg then - int n else int n) (hex_number 0 True s))"

subsection \<open>Printing and reading\<close>

text \<open>\<open>u.hex\<close>\<close>

definition uuid_hex :: "uuid \<Rightarrow> string" where
  "uuid_hex u = hex_digits 32 (unat u)"

text \<open>\<open>str(u)\<close>\<close>

definition uuid_str :: "uuid \<Rightarrow> string" where
  "uuid_str u =
     (let h = uuid_hex u
      in take 8 h @ ''-'' @ take 4 (drop 8 h) @ ''-'' @ take 4 (drop 12 h) @ ''-'' @
         take 4 (drop 16 h) @ ''-'' @ drop 20 h)"

text \<open>\<open>s.replace(p, "")\<close>: the occurrences from the left, none overlapping another.\<close>

fun str_remove :: "string \<Rightarrow> string \<Rightarrow> string" where
  "str_remove p [] = []"
| "str_remove p (c # s) =
     (if p \<noteq> [] \<and> prefix p (c # s) then str_remove p (drop (length p - 1) s)
      else c # str_remove p s)"

text \<open>\<open>s.strip("{}")\<close>\<close>

definition strip_braces :: "string \<Rightarrow> string" where
  "strip_braces s =
     (let b = (\<lambda>c. c = CHR ''{'' \<or> c = CHR ''}'')
      in rev (dropWhile b (rev (dropWhile b s))))"

text \<open>\<open>UUID(s)\<close>; \<open>None\<close> is \<open>ValueError\<close>.\<close>

definition uuid_parse :: "string \<Rightarrow> uuid option" where
  "uuid_parse s =
     (let h = str_remove ''uuid:'' (str_remove ''urn:'' s);
          h = str_remove ''-'' (strip_braces h)
      in if length h \<noteq> 32 then None
         else case py_int16 h of
                None \<Rightarrow> None
              | Some n \<Rightarrow> if 0 \<le> n \<and> n < 2 ^ 128 then Some (word_of_int n) else None)"

subsection \<open>Reading what was printed\<close>

lemma length_hex_digits [simp]: "length (hex_digits w n) = w"
  by (induction w arbitrary: n) auto

definition hex_char :: "char \<Rightarrow> bool" where
  "hex_char c = (48 \<le> code c \<and> code c \<le> 57 \<or> 97 \<le> code c \<and> code c \<le> 102)"

text \<open>The sixteen digits, checked one by one.\<close>

lemma hex_digit_table:
  "\<forall>n<16. code (hex_digit n) = (if n < 10 then 48 + n else 87 + n) \<and> hex_char (hex_digit n) \<and>
    hex_value (hex_digit n) = Some n"
  by code_simp

lemma hex_digit_code: "n < 16 \<Longrightarrow> code (hex_digit n) = (if n < 10 then 48 + n else 87 + n)"
  using hex_digit_table by blast

lemma hex_digit_char: "n < 16 \<Longrightarrow> hex_char (hex_digit n)"
  using hex_digit_table by blast

lemma hex_digit_value: "n < 16 \<Longrightarrow> hex_value (hex_digit n) = Some n"
  using hex_digit_table by blast

lemma set_hex_digits: "c \<in> set (hex_digits w n) \<Longrightarrow> hex_char c"
  by (induction w arbitrary: n) (auto simp: hex_digit_char)

lemma code_literals:
  "code CHR ''-'' = 45" "code CHR ''+'' = 43" "code CHR ''_'' = 95" "code CHR ''x'' = 120"
  "code CHR ''X'' = 88" "code CHR ''u'' = 117" "code CHR ''{'' = 123" "code CHR ''}'' = 125"
  "code CHR ''.'' = 46" "code CHR '':'' = 58"
  by (simp_all add: code_def)

lemma hex_char_not:
  assumes "hex_char c"
  shows "c \<noteq> CHR ''-''" "c \<noteq> CHR ''+''" "c \<noteq> CHR ''_''" "c \<noteq> CHR ''x''" "c \<noteq> CHR ''X''"
    "c \<noteq> CHR ''u''" "c \<noteq> CHR ''{''" "c \<noteq> CHR ''}''" "c \<noteq> CHR ''.''" "c \<noteq> CHR '':''" "\<not> is_space c"
  using assms by (auto simp: hex_char_def code_literals is_space_def)

lemma hex_number_append:
  assumes "\<forall>c \<in> set s. hex_char c"
  shows "hex_number acc want (s @ [hex_digit d]) =
    (if d < 16 then map_option (\<lambda>n. 16 * n + d) (hex_number acc (want \<and> s \<noteq> []) s)
     else hex_number acc want (s @ [hex_digit d]))"
  using assms
proof (induction s arbitrary: acc want)
  case Nil
  then show ?case
    using hex_char_not(3) [OF hex_digit_char] by (auto simp: hex_digit_value)
next
  case (Cons c s)
  then have c: "c \<noteq> CHR ''_''" using hex_char_not(3) by auto
  show ?case
  proof (cases "d < 16")
    case True
    then show ?thesis using Cons c
      by (cases "hex_value c") (auto simp: Cons.IH [of _ False])
  qed simp
qed

lemma hex_number_digits:
  "n < 16 ^ w \<Longrightarrow> hex_number 0 (want \<and> 0 < w) (hex_digits w n) = Some n"
proof (induction w arbitrary: n want)
  case 0
  then show ?case by simp
next
  case (Suc w)
  from Suc.prems have "n div 16 < 16 ^ w" by (simp add: less_mult_imp_div_less mult.commute)
  then have ih: "hex_number 0 (want \<and> 0 < w) (hex_digits w (n div 16)) = Some (n div 16)"
    by (rule Suc.IH)
  have ne: "hex_digits w (n div 16) \<noteq> [] \<longleftrightarrow> 0 < w"
    by (metis length_hex_digits length_greater_0_conv)
  have "hex_number 0 want (hex_digits w (n div 16) @ [hex_digit (n mod 16)]) =
      map_option (\<lambda>m. 16 * m + n mod 16)
        (hex_number 0 (want \<and> hex_digits w (n div 16) \<noteq> []) (hex_digits w (n div 16)))"
    by (subst hex_number_append) (auto dest: set_hex_digits)
  then show ?case by (simp add: ih ne)
qed

lemma strip_hex: "\<forall>c \<in> set s. hex_char c \<Longrightarrow> strip s = s"
  by (cases "s = []") (auto intro!: strip_fixed simp: stripped_def hex_char_not(11))

lemma py_int16_hex_digits:
  assumes "n < 16 ^ w" and "0 < w"
  shows "py_int16 (hex_digits w n) = Some (int n)"
proof -
  let ?s = "hex_digits w n"
  have hex: "\<forall>c \<in> set ?s. hex_char c" by (auto dest: set_hex_digits)
  have ne: "?s \<noteq> []" using assms(2) by (metis length_hex_digits length_greater_0_conv)
  then obtain a r where s: "?s = a # r" by (cases ?s) auto
  have a: "a \<noteq> CHR ''-''" "a \<noteq> CHR ''+''" using hex s hex_char_not(1,2) by auto
  have b: "\<And>b r'. r = b # r' \<Longrightarrow> b \<noteq> CHR ''x'' \<and> b \<noteq> CHR ''X''"
    using hex s hex_char_not(4,5) by auto
  have num: "hex_number 0 True ?s = Some n"
    using hex_number_digits [OF assms(1), of True] assms(2) by simp
  have strip: "strip (a # r) = a # r" using strip_hex [OF hex] s by simp
  have "py_int16 ?s = map_option int (hex_number 0 True ?s)"
  proof (cases r)
    case Nil
    with a strip show ?thesis by (simp add: py_int16_def s Let_def)
  next
    case (Cons b' r')
    with a b strip show ?thesis by (simp add: py_int16_def s Let_def)
  qed
  with num show ?thesis by simp
qed

lemma str_remove_absent: "p \<noteq> [] \<Longrightarrow> hd p \<notin> set s \<Longrightarrow> str_remove p s = s"
  by (induction s) (auto simp: prefix_def, metis append_Cons hd_append2 list.sel(1))

lemma str_remove_char: "str_remove [x] s = filter (\<lambda>c. c \<noteq> x) s"
  by (induction s) auto

lemma uuid_hex_chars: "c \<in> set (uuid_hex u) \<Longrightarrow> hex_char c"
  by (auto simp: uuid_hex_def dest: set_hex_digits)

lemma length_uuid_hex [simp]: "length (uuid_hex u) = 32"
  by (simp add: uuid_hex_def)

lemma filter_dash_hex: "\<forall>c \<in> set s. hex_char c \<Longrightarrow> filter (\<lambda>c. c \<noteq> CHR ''-'') s = s"
  by (auto simp: filter_id_conv hex_char_not(1))

lemma uuid_str_dashes: "filter (\<lambda>c. c \<noteq> CHR ''-'') (uuid_str u) = uuid_hex u"
proof -
  let ?h = "uuid_hex u"
  have f: "filter (\<lambda>c. c \<noteq> CHR ''-'') (take n (drop m ?h)) = take n (drop m ?h)"
    "filter (\<lambda>c. c \<noteq> CHR ''-'') (drop m ?h) = drop m ?h"
    "filter (\<lambda>c. c \<noteq> CHR ''-'') (take n ?h) = take n ?h" for n m
    by (rule filter_dash_hex, auto dest!: in_set_takeD in_set_dropD intro: uuid_hex_chars)+
  have "filter (\<lambda>c. c \<noteq> CHR ''-'') (uuid_str u) =
      take 8 ?h @ take 4 (drop 8 ?h) @ take 4 (drop 12 ?h) @ take 4 (drop 16 ?h) @ drop 20 ?h"
    by (simp add: uuid_str_def Let_def f)
  also have "\<dots> = ?h"
  proof -
    have cut: "take 4 (drop m ?h) @ drop (m + 4) ?h = drop m ?h" for m
      by (metis add.commute append_take_drop_id drop_drop)
    from cut [of 16] cut [of 12] cut [of 8] show ?thesis by simp
  qed
  finally show ?thesis .
qed

lemma uuid_str_chars: "c \<in> set (uuid_str u) \<Longrightarrow> hex_char c \<or> c = CHR ''-''"
  by (auto simp: uuid_str_def Let_def dest!: in_set_takeD in_set_dropD intro: uuid_hex_chars)

lemma strip_braces_absent:
  "CHR ''{'' \<notin> set s \<Longrightarrow> CHR ''}'' \<notin> set s \<Longrightarrow> strip_braces s = s"
proof -
  assume a: "CHR ''{'' \<notin> set s" "CHR ''}'' \<notin> set s"
  have "dropWhile (\<lambda>c. c = CHR ''{'' \<or> c = CHR ''}'') t = t" if "set t \<subseteq> set s" for t
    using that a by (cases t) auto
  from this [of s] this [of "rev s"] show ?thesis by (simp add: strip_braces_def Let_def)
qed

lemma uuid_parse_str [simp]: "uuid_parse (uuid_str u) = Some u"
proof -
  have no: "CHR ''u'' \<notin> set (uuid_str u)" "CHR ''{'' \<notin> set (uuid_str u)"
    "CHR ''}'' \<notin> set (uuid_str u)"
    using uuid_str_chars hex_char_not(6,7,8) by force+
  have "str_remove ''-'' (strip_braces (str_remove ''uuid:'' (str_remove ''urn:'' (uuid_str u))))
      = uuid_hex u"
    using no by (simp add: str_remove_absent strip_braces_absent str_remove_char uuid_str_dashes)
  moreover have lt: "unat u < 16 ^ 32" using unsigned_less [of u] by simp
  then have "py_int16 (uuid_hex u) = Some (int (unat u))"
    unfolding uuid_hex_def by (rule py_int16_hex_digits) simp
  moreover have "uint u < 2 ^ 128" using unsigned_less [of u] by simp
  ultimately show ?thesis
    by (simp add: uuid_parse_def Let_def)
qed

lemma uuid_str_inj: "uuid_str a = uuid_str b \<Longrightarrow> a = b"
  by (metis option.inject uuid_parse_str)

lemma uuid_hex_no_dot: "CHR ''.'' \<notin> set (uuid_hex u)"
  using uuid_hex_chars hex_char_not(9) by blast

lemma uuid_hex_inj: "uuid_hex a = uuid_hex b \<Longrightarrow> a = b"
proof -
  assume e: "uuid_hex a = uuid_hex b"
  have "py_int16 (uuid_hex u) = Some (int (unat u))" for u
    unfolding uuid_hex_def using unsigned_less [of u] by (intro py_int16_hex_digits) auto
  with e have "unat a = unat b" by (metis option.inject of_nat_eq_iff)
  then show "a = b" by (simp add: unsigned_word_eqI)
qed

end
