(* ===== verification/Identifiers.thy ===== *)
theory Identifiers
  imports Uuid
begin

section \<open>Identities and time\<close>

text \<open>
  The identity value objects of both contexts. Each is a frozen dataclass around one value, equal by
  value, and the wrappers are different types in the code, so they are different types here:
  \<open>UserId\<close> (identity), \<open>ConversationId\<close>, \<open>OwnerId\<close>, \<open>ParticipantId\<close>, \<open>SenderId\<close>,
  \<open>ClientMessageId\<close> (UUIDs) and \<open>MessageId\<close> (the \<open>bigserial\<close>, a Python \<open>int\<close>).

  A timezone-aware UTC \<open>datetime\<close> is its number of microseconds since the epoch, and a \<open>timedelta\<close>
  its number of microseconds; both are exact in Python, so comparison and addition are those of the
  integers.
\<close>

datatype user_id = UserId (user_id_value: uuid)
datatype conversation_id = ConversationId (conversation_id_value: uuid)
datatype owner_id = OwnerId (owner_id_value: uuid)
datatype participant_id = ParticipantId (participant_id_value: uuid)
datatype sender_id = SenderId (sender_id_value: uuid)
datatype client_message_id = ClientMessageId (client_message_id_value: uuid)
datatype message_id = MessageId (message_id_value: int)

text \<open>A message's id is also its position in the history, so ids are compared by their value.\<close>

instantiation message_id :: linorder
begin

definition less_eq_message_id :: "message_id \<Rightarrow> message_id \<Rightarrow> bool" where
  "less_eq_message_id a b = (message_id_value a \<le> message_id_value b)"

definition less_message_id :: "message_id \<Rightarrow> message_id \<Rightarrow> bool" where
  "less_message_id a b = (message_id_value a < message_id_value b)"

instance
  by standard (auto simp: less_eq_message_id_def less_message_id_def intro: message_id.expand)

end

lemma message_id_less [simp]: "MessageId a < MessageId b \<longleftrightarrow> a < b"
  by (simp add: less_message_id_def)

lemma message_id_less_eq [simp]: "MessageId a \<le> MessageId b \<longleftrightarrow> a \<le> b"
  by (simp add: less_eq_message_id_def)

subsection \<open>Time\<close>

type_synonym datetime = int
type_synonym timedelta = int

text \<open>\<open>timedelta(seconds=n)\<close>\<close>

definition timedelta_seconds :: "int \<Rightarrow> timedelta" where
  "timedelta_seconds n = n * 1000000"

text \<open>\<open>int(dt.timestamp())\<close>: the seconds since the epoch, truncated towards zero.\<close>

definition int_timestamp :: "datetime \<Rightarrow> int" where
  "int_timestamp t = (if 0 \<le> t then t div 1000000 else - ((- t) div 1000000))"

lemma int_timestamp_mono: "s \<le> t \<Longrightarrow> int_timestamp s \<le> int_timestamp t"
proof (cases "0 \<le> s")
  case True
  then show "s \<le> t \<Longrightarrow> ?thesis" by (simp add: int_timestamp_def zdiv_mono1)
next
  case False
  assume le: "s \<le> t"
  show ?thesis
  proof (cases "0 \<le> t")
    case True
    then have "0 \<le> t div 1000000" by simp
    moreover have "0 \<le> (- s) div 1000000" using False by simp
    ultimately show ?thesis using False True by (simp add: int_timestamp_def)
  next
    case F: False
    have "(- t) div 1000000 \<le> (- s) div 1000000" using le by (intro zdiv_mono1) auto
    with False F show ?thesis by (simp add: int_timestamp_def)
  qed
qed

end
