(* ===== verification/Errors.thy ===== *)
theory Errors
  imports Identifiers
begin

section \<open>Exceptions\<close>

text \<open>
  Every exception the modelled code raises, catches or lets pass, as one datatype: the domain errors
  of the two contexts with the arguments their constructors take, the built-in exceptions, and the
  exceptions of the libraries that reach a handler of the program (a violated constraint, an
  unreachable Redis, a rejected token, a closed socket). \<open>OtherError\<close> is any other exception.
  \<open>is_identity_error\<close>, \<open>is_messaging_error\<close> and \<open>is_value_error\<close> are the \<open>isinstance\<close> tests of the
  class hierarchy.
\<close>

datatype exn =
    InvalidEmail string
  | EmailAlreadyRegistered string
  | InvalidCredentials
  | InvalidRefreshToken
  | InvalidAccessToken
  | InvalidConversationTitle string
  | ConversationNotFound conversation_id
  | NotConversationOwner
  | NotConversationParticipant
  | ParticipantUserNotFound string
  | CannotRemoveConversationOwner
  | InvalidMessageContent
  | ValueError
  | JSONDecodeError
  | KeyError
  | TypeError
  | TimeoutError
  | ZeroDivisionError
  | RuntimeError
  | IntegrityError
  | DataError
  | MultipleResultsFound
  | PyJWTError
  | Argon2Error
  | RedisError
  | ValidationError
  | WebSocketDisconnect
  | HTTPException nat string
  | OtherError nat

text \<open>The error type of every coroutine of the model is \<open>exn\<close>.\<close>

type_synonym 'a outcome = "exn + 'a"
type_synonym ('a, 's) op = "(exn, 'a, 's) proc"

fun is_identity_error :: "exn \<Rightarrow> bool" where
  "is_identity_error (InvalidEmail _) = True"
| "is_identity_error (EmailAlreadyRegistered _) = True"
| "is_identity_error InvalidCredentials = True"
| "is_identity_error InvalidRefreshToken = True"
| "is_identity_error InvalidAccessToken = True"
| "is_identity_error _ = False"

fun is_messaging_error :: "exn \<Rightarrow> bool" where
  "is_messaging_error (InvalidConversationTitle _) = True"
| "is_messaging_error (ConversationNotFound _) = True"
| "is_messaging_error NotConversationOwner = True"
| "is_messaging_error NotConversationParticipant = True"
| "is_messaging_error (ParticipantUserNotFound _) = True"
| "is_messaging_error CannotRemoveConversationOwner = True"
| "is_messaging_error InvalidMessageContent = True"
| "is_messaging_error _ = False"

text \<open>\<open>json.JSONDecodeError\<close> and pydantic's \<open>ValidationError\<close> are subclasses of \<open>ValueError\<close>.\<close>

definition is_value_error :: "exn \<Rightarrow> bool" where
  "is_value_error e = (e \<in> {ValueError, JSONDecodeError, ValidationError})"

text \<open>How a call to Redis goes: it is served, it fails before the server has run it, or the server runs it
  and the answer is lost. The last two raise.\<close>

datatype redis_fault = Served | Refused | Unanswered

lemma error_families_disjoint: "\<not> (is_identity_error e \<and> is_messaging_error e)"
  by (cases e) auto

subsection \<open>Messages\<close>

text \<open>\<open>repr\<close> of a text: the quote it is put in, and the escapes.\<close>

definition repr_printable :: "char \<Rightarrow> bool" where
  "repr_printable c = (32 \<le> code c \<and> code c \<le> 126 \<or> 161 \<le> code c \<and> code c \<noteq> 173)"

definition repr_char :: "char \<Rightarrow> char \<Rightarrow> string" where
  "repr_char q c =
     (if c = q \<or> c = CHR 0x5C then [CHR 0x5C, c]
      else if code c = 9 then [CHR 0x5C, CHR ''t'']
      else if code c = 10 then [CHR 0x5C, CHR ''n'']
      else if code c = 13 then [CHR 0x5C, CHR ''r'']
      else if repr_printable c then [c]
      else [CHR 0x5C, CHR ''x''] @ hex_digits 2 (code c))"

definition py_repr :: "string \<Rightarrow> string" where
  "py_repr s =
     (let q = (if CHR 0x27 \<in> set s \<and> CHR 0x22 \<notin> set s then CHR 0x22 else CHR 0x27)
      in [q] @ concat (map (repr_char q) s) @ [q])"

text \<open>\<open>str(exc)\<close>, the \<open>detail\<close> of an error response.\<close>

fun exn_str :: "exn \<Rightarrow> string" where
  "exn_str (InvalidEmail v) = ''invalid email address: '' @ py_repr v"
| "exn_str (EmailAlreadyRegistered v) = ''email already registered: '' @ v"
| "exn_str InvalidCredentials = ''invalid credentials''"
| "exn_str InvalidRefreshToken = ''invalid or expired refresh token''"
| "exn_str InvalidAccessToken = ''invalid or expired access token''"
| "exn_str (InvalidConversationTitle v) = ''invalid conversation title: '' @ py_repr v"
| "exn_str (ConversationNotFound cid) =
     ''conversation not found: '' @ uuid_str (conversation_id_value cid)"
| "exn_str NotConversationOwner = ''conversation is owned by another user''"
| "exn_str NotConversationParticipant = ''caller is not a participant of this conversation''"
| "exn_str (ParticipantUserNotFound v) = ''no registered user for email: '' @ v"
| "exn_str CannotRemoveConversationOwner = ''the conversation owner cannot be removed''"
| "exn_str InvalidMessageContent = ''message content must not be empty''"
| "exn_str (HTTPException _ detail) = detail"
| "exn_str _ = []"

end
