(* ===== verification/ConversationDomain.thy ===== *)
theory ConversationDomain
  imports Errors
begin

section \<open>The conversation aggregate\<close>

text \<open>
  \<open>contexts/messaging/domain/conversation\<close>: the title value object, the aggregate with its lifecycle
  (\<open>start\<close>, \<open>rename\<close>, \<open>delete\<close>, \<open>restore\<close>) and its membership, and the \<open>Participant\<close> projection. A
  method that mutates \<open>self\<close> returns the new aggregate; one that raises leaves it as it was.
\<close>

subsection \<open>ConversationTitle\<close>

datatype conversation_title = ConversationTitle (conversation_title_value: string)

definition MAX_TITLE_LENGTH :: nat where
  "MAX_TITLE_LENGTH = 200"

definition mk_conversation_title :: "string \<Rightarrow> conversation_title outcome" where
  "mk_conversation_title v =
     (let normalized = strip v
      in if normalized = [] \<or> MAX_TITLE_LENGTH < length normalized
         then Inl (InvalidConversationTitle v)
         else Inr (ConversationTitle normalized))"

subsection \<open>Participant\<close>

record participant =
  p_id :: participant_id
  p_joined_at :: datetime

subsection \<open>Conversation\<close>

record conversation =
  c_id :: conversation_id
  c_owner_id :: owner_id
  c_title :: conversation_title
  c_created_at :: datetime
  c_updated_at :: datetime
  c_deleted_at :: "datetime option"
  c_participant_ids :: "participant_id set"

definition conversation_start ::
    "conversation_id \<Rightarrow> owner_id \<Rightarrow> conversation_title \<Rightarrow> datetime \<Rightarrow> conversation" where
  "conversation_start conversation_id owner_id title created_at =
     \<lparr>c_id = conversation_id, c_owner_id = owner_id, c_title = title, c_created_at = created_at,
      c_updated_at = created_at, c_deleted_at = None,
      c_participant_ids = {ParticipantId (owner_id_value owner_id)}\<rparr>"

definition conversation_rename ::
    "conversation \<Rightarrow> conversation_title \<Rightarrow> datetime \<Rightarrow> conversation" where
  "conversation_rename self new_title now = self\<lparr>c_title := new_title, c_updated_at := now\<rparr>"

definition conversation_delete :: "conversation \<Rightarrow> datetime \<Rightarrow> conversation" where
  "conversation_delete self now =
     (if c_deleted_at self = None then self\<lparr>c_deleted_at := Some now, c_updated_at := now\<rparr> else self)"

definition conversation_restore :: "conversation \<Rightarrow> datetime \<Rightarrow> conversation" where
  "conversation_restore self now =
     (if c_deleted_at self \<noteq> None then self\<lparr>c_deleted_at := None, c_updated_at := now\<rparr> else self)"

definition ensure_owned_by :: "conversation \<Rightarrow> owner_id \<Rightarrow> unit outcome" where
  "ensure_owned_by self owner_id =
     (if c_owner_id self \<noteq> owner_id then Inl NotConversationOwner else Inr ())"

definition is_participant :: "conversation \<Rightarrow> participant_id \<Rightarrow> bool" where
  "is_participant self participant_id = (participant_id \<in> c_participant_ids self)"

definition ensure_participant :: "conversation \<Rightarrow> participant_id \<Rightarrow> unit outcome" where
  "ensure_participant self participant_id =
     (if \<not> is_participant self participant_id then Inl NotConversationParticipant else Inr ())"

text \<open>The aggregate after the call and whether the membership is new.\<close>

definition conversation_add_participant ::
    "conversation \<Rightarrow> participant_id \<Rightarrow> conversation \<times> bool" where
  "conversation_add_participant self participant_id =
     (if is_participant self participant_id then (self, False)
      else (self\<lparr>c_participant_ids := c_participant_ids self \<union> {participant_id}\<rparr>, True))"

definition conversation_remove_participant ::
    "conversation \<Rightarrow> participant_id \<Rightarrow> conversation outcome" where
  "conversation_remove_participant self participant_id =
     (if participant_id_value participant_id = owner_id_value (c_owner_id self)
      then Inl CannotRemoveConversationOwner
      else if \<not> is_participant self participant_id then Inl NotConversationParticipant
      else Inr (self\<lparr>c_participant_ids := c_participant_ids self - {participant_id}\<rparr>))"

definition conversation_is_deleted :: "conversation \<Rightarrow> bool" where
  "conversation_is_deleted self = (c_deleted_at self \<noteq> None)"

subsection \<open>Invariant and facts\<close>

definition title_wf :: "conversation_title \<Rightarrow> bool" where
  "title_wf t = (mk_conversation_title (conversation_title_value t) = Inr t)"

lemma mk_conversation_title_wf: "mk_conversation_title v = Inr t \<Longrightarrow> title_wf t"
  by (auto simp: title_wf_def mk_conversation_title_def Let_def split: if_splits)

lemma title_wf_iff:
  "title_wf (ConversationTitle s) \<longleftrightarrow> stripped s \<and> s \<noteq> [] \<and> length s \<le> 200"
  by (auto simp: title_wf_def mk_conversation_title_def Let_def MAX_TITLE_LENGTH_def strip_fixed
      split: if_splits) (metis stripped_strip)

text \<open>The owner of a conversation, as a participant.\<close>

definition owner_participant :: "conversation \<Rightarrow> participant_id" where
  "owner_participant c = ParticipantId (owner_id_value (c_owner_id c))"

text \<open>The aggregate's invariant: a valid title, and the owner among the participants.\<close>

definition conversation_wf :: "conversation \<Rightarrow> bool" where
  "conversation_wf c = (title_wf (c_title c) \<and> owner_participant c \<in> c_participant_ids c)"

lemma start_wf: "title_wf t \<Longrightarrow> conversation_wf (conversation_start cid owner t at)"
  by (simp add: conversation_wf_def conversation_start_def owner_participant_def)

lemma rename_wf: "conversation_wf c \<Longrightarrow> title_wf t \<Longrightarrow> conversation_wf (conversation_rename c t now)"
  by (simp add: conversation_wf_def conversation_rename_def owner_participant_def)

lemma delete_wf: "conversation_wf c \<Longrightarrow> conversation_wf (conversation_delete c now)"
  by (simp add: conversation_wf_def conversation_delete_def owner_participant_def)

lemma restore_wf: "conversation_wf c \<Longrightarrow> conversation_wf (conversation_restore c now)"
  by (simp add: conversation_wf_def conversation_restore_def owner_participant_def)

lemma add_participant_wf:
  "conversation_wf c \<Longrightarrow> conversation_wf (fst (conversation_add_participant c p))"
  by (simp add: conversation_wf_def conversation_add_participant_def owner_participant_def)

lemma remove_participant_wf:
  "conversation_wf c \<Longrightarrow> conversation_remove_participant c p = Inr c' \<Longrightarrow> conversation_wf c'"
  by (cases p) (auto simp: conversation_wf_def conversation_remove_participant_def
      owner_participant_def split: if_splits)

lemma ensure_owned_by_Inr [simp]:
  "ensure_owned_by c o' = Inr () \<longleftrightarrow> c_owner_id c = o'"
  by (simp add: ensure_owned_by_def)

lemma ensure_participant_Inr [simp]:
  "ensure_participant c p = Inr () \<longleftrightarrow> p \<in> c_participant_ids c"
  by (simp add: ensure_participant_def is_participant_def)

lemmas conversation_defs = conversation_rename_def conversation_delete_def
  conversation_restore_def conversation_add_participant_def conversation_remove_participant_def
  is_participant_def conversation_is_deleted_def

end
