(* ===== verification/MessageDomain.thy ===== *)
theory MessageDomain
  imports Errors
begin

section \<open>The message aggregate\<close>

text \<open>
  \<open>contexts/messaging/domain/message\<close>: roles, the content value object and the immutable \<open>Message\<close>,
  whose id is the store-assigned sequence number.
\<close>

datatype message_role = USER | ASSISTANT

text \<open>A \<open>StrEnum\<close> with \<open>auto()\<close>: the value is the lower-cased member name.\<close>

fun message_role_value :: "message_role \<Rightarrow> string" where
  "message_role_value USER = ''user''"
| "message_role_value ASSISTANT = ''assistant''"

text \<open>\<open>MessageRole(v)\<close>: looks a member up by value.\<close>

definition mk_message_role :: "string \<Rightarrow> message_role outcome" where
  "mk_message_role v =
     (if v = ''user'' then Inr USER else if v = ''assistant'' then Inr ASSISTANT else Inl ValueError)"

datatype message_content = MessageContent (message_content_value: string)

definition mk_message_content :: "string \<Rightarrow> message_content outcome" where
  "mk_message_content v =
     (if strip v = [] then Inl InvalidMessageContent else Inr (MessageContent v))"

record message =
  m_id :: message_id
  m_conversation_id :: conversation_id
  m_sender_id :: "sender_id option"
  m_role :: message_role
  m_content :: message_content
  m_created_at :: datetime
  m_client_message_id :: "client_message_id option"

definition content_wf :: "message_content \<Rightarrow> bool" where
  "content_wf c = (mk_message_content (message_content_value c) = Inr c)"

lemma mk_message_content_wf: "mk_message_content v = Inr c \<Longrightarrow> content_wf c"
  by (auto simp: content_wf_def mk_message_content_def split: if_splits)

lemma mk_message_content_value: "mk_message_content v = Inr c \<Longrightarrow> message_content_value c = v"
  by (auto simp: mk_message_content_def split: if_splits)

lemma content_wf_iff: "content_wf (MessageContent s) \<longleftrightarrow> (\<exists>c \<in> set s. \<not> is_space c)"
  by (auto simp: content_wf_def mk_message_content_def strip_eq_Nil)

lemma mk_message_role_value [simp]: "mk_message_role (message_role_value r) = Inr r"
  by (cases r) (simp_all add: mk_message_role_def)

end
