(* ===== verification/MessagingPorts.thy ===== *)
theory MessagingPorts
  imports ConversationDomain MessageDomain
begin

section \<open>The ports of the messaging context and their contracts\<close>

text \<open>
  \<open>contexts/messaging/application/ports.py\<close>, the two repository protocols of the domain and the
  \<open>MessagePage\<close> DTO. A \<open>Protocol\<close> with several methods is a record of them; one with a single method
  is the type of that method. The contracts the use cases rely on are the locales
  \<open>conversation_store\<close> and \<open>message_store\<close>.
\<close>

subsection \<open>Repositories\<close>

record 's conversation_repository =
  cr_create :: "conversation_id \<Rightarrow> owner_id \<Rightarrow> conversation_title \<Rightarrow> datetime \<Rightarrow> datetime \<Rightarrow>
    participant_id set \<Rightarrow> (unit, 's) op"
  cr_update :: "conversation_id \<Rightarrow> conversation_title \<Rightarrow> datetime \<Rightarrow> datetime option \<Rightarrow> (unit, 's) op"
  cr_get :: "conversation_id \<Rightarrow> (conversation option, 's) op"
  cr_get_including_deleted :: "conversation_id \<Rightarrow> (conversation option, 's) op"
  cr_list_for_participant :: "participant_id \<Rightarrow> (conversation list, 's) op"
  cr_add_participant :: "conversation_id \<Rightarrow> participant_id \<Rightarrow> datetime \<Rightarrow> (unit, 's) op"
  cr_remove_participant :: "conversation_id \<Rightarrow> participant_id \<Rightarrow> (unit, 's) op"
  cr_list_participants :: "conversation_id \<Rightarrow> (participant list, 's) op"

record 's message_repository =
  mr_create :: "conversation_id \<Rightarrow> sender_id option \<Rightarrow> message_role \<Rightarrow> message_content \<Rightarrow> datetime \<Rightarrow>
    client_message_id option \<Rightarrow> (message, 's) op"
  mr_find_by_client_message_id :: "conversation_id \<Rightarrow> client_message_id \<Rightarrow> (message option, 's) op"
  mr_list_history :: "conversation_id \<Rightarrow> message_id option \<Rightarrow> nat \<Rightarrow> (message list, 's) op"
  mr_list_since :: "conversation_id \<Rightarrow> message_id option \<Rightarrow> nat \<Rightarrow> (message list, 's) op"

record message_page =
  mp_items :: "message list"
  mp_next_cursor :: "message_id option"
  mp_has_more :: bool

subsection \<open>Technical ports\<close>

type_synonym 'w conversation_access = "conversation_id \<Rightarrow> participant_id \<Rightarrow> (unit, 'w) op"
type_synonym 'w user_directory = "string \<Rightarrow> (uuid option, 'w) op"
type_synonym 'w assistant_responder = "message_content \<Rightarrow> (message_content, 'w) op"
type_synonym 'w message_broadcaster = "conversation_id \<Rightarrow> message \<Rightarrow> (unit, 'w) op"
type_synonym 'w message_replayer = "conversation_id \<Rightarrow> message_id option \<Rightarrow> (message list, 'w) op"

record 'w message_writer =
  mw_from_user :: "conversation_id \<Rightarrow> sender_id \<Rightarrow> message_content \<Rightarrow> client_message_id option \<Rightarrow>
    (message \<times> bool, 'w) op"
  mw_from_assistant :: "conversation_id \<Rightarrow> message_content \<Rightarrow> (message, 'w) op"

subsection \<open>The contract of ConversationRepository\<close>

text \<open>
  \<open>conversations s\<close> is the stored conversations by id, deleted ones included; soft-deleted
  conversations are treated as absent, which is what \<open>visible\<close> keeps. Reading is pure in a
  \<open>clean\<close> state; a write is specified by what is stored after it, and leaves a state that is \<open>ready\<close> to
  be committed.
\<close>

definition visible :: "conversation option \<Rightarrow> conversation option" where
  "visible found =
     (case found of None \<Rightarrow> None | Some c \<Rightarrow> if c_deleted_at c = None then Some c else None)"

lemma visible_SomeD: "visible found = Some c \<Longrightarrow> found = Some c \<and> c_deleted_at c = None"
  by (auto simp: visible_def split: option.splits if_splits)

lemma visible_Some [simp]: "c_deleted_at c = None \<Longrightarrow> visible (Some c) = Some c"
  by (simp add: visible_def)

lemma visible_None [simp]: "visible None = None"
  by (simp add: visible_def)

locale conversation_store =
  fixes repo :: "'s conversation_repository"
    and clean :: "'s \<Rightarrow> bool"
    and ready :: "'s \<Rightarrow> bool"
    and conversations :: "'s \<Rightarrow> conversation_id \<Rightarrow> conversation option"
  assumes get_including_deleted_law:
      "clean s \<Longrightarrow> cr_get_including_deleted repo cid s = (Inr (conversations s cid), s)"
    and get_law:
      "clean s \<Longrightarrow> cr_get repo cid s =
        (Inr (visible (conversations s cid)), s)"
    and stored_id: "clean s \<Longrightarrow> conversations s cid = Some c \<Longrightarrow> c_id c = cid \<and> title_wf (c_title c)"
    and create_law:
      "clean s \<Longrightarrow> conversations s cid = None \<Longrightarrow> title_wf t \<Longrightarrow> finite ps \<Longrightarrow>
        \<exists>s'. cr_create repo cid owner t created updated ps s = (Inr (), s') \<and> ready s' \<and>
          conversations s' = (conversations s)
            (cid \<mapsto> \<lparr>c_id = cid, c_owner_id = owner, c_title = t, c_created_at = created,
              c_updated_at = updated, c_deleted_at = None, c_participant_ids = ps\<rparr>)"
    and update_law:
      "clean s \<Longrightarrow> conversations s cid = Some c \<Longrightarrow> title_wf t \<Longrightarrow>
        \<exists>s'. cr_update repo cid t updated deleted s = (Inr (), s') \<and> ready s' \<and>
          conversations s' = (conversations s)
            (cid \<mapsto> c\<lparr>c_title := t, c_updated_at := updated, c_deleted_at := deleted\<rparr>)"
    and add_participant_law:
      "clean s \<Longrightarrow> conversations s cid = Some c \<Longrightarrow> p \<notin> c_participant_ids c \<Longrightarrow>
        \<exists>s'. cr_add_participant repo cid p joined s = (Inr (), s') \<and> ready s' \<and>
          conversations s' = (conversations s)
            (cid \<mapsto> c\<lparr>c_participant_ids := c_participant_ids c \<union> {p}\<rparr>)"
    and remove_participant_law:
      "clean s \<Longrightarrow> conversations s cid = Some c \<Longrightarrow>
        \<exists>s'. cr_remove_participant repo cid p s = (Inr (), s') \<and> ready s' \<and>
          conversations s' = (conversations s)
            (cid \<mapsto> c\<lparr>c_participant_ids := c_participant_ids c - {p}\<rparr>)"

subsection \<open>The contract of MessageRepository\<close>

text \<open>
  \<open>history s c\<close> is the messages of a conversation, oldest first; their ids increase strictly. \<open>known s
  c\<close>: the conversation a message may refer to exists.
\<close>

definition id_above :: "message_id option \<Rightarrow> message \<Rightarrow> bool" where
  "id_above after m = (case after of None \<Rightarrow> True | Some a \<Rightarrow> a < m_id m)"

definition id_below :: "message_id option \<Rightarrow> message \<Rightarrow> bool" where
  "id_below before m = (case before of None \<Rightarrow> True | Some b \<Rightarrow> m_id m < b)"

lemma id_above_simps:
  "id_above None = (\<lambda>_. True)" "id_above (Some a) = (\<lambda>m. a < m_id m)"
  by (simp_all add: id_above_def fun_eq_iff)

lemma id_below_simps:
  "id_below None = (\<lambda>_. True)" "id_below (Some b) = (\<lambda>m. m_id m < b)"
  by (simp_all add: id_below_def fun_eq_iff)

definition has_client_id :: "client_message_id \<Rightarrow> message \<Rightarrow> bool" where
  "has_client_id k m = (m_client_message_id m = Some k)"

locale message_store =
  fixes repo :: "'s message_repository"
    and clean :: "'s \<Rightarrow> bool"
    and history :: "'s \<Rightarrow> conversation_id \<Rightarrow> message list"
    and known :: "'s \<Rightarrow> conversation_id \<Rightarrow> bool"
  assumes history_sorted: "clean s \<Longrightarrow> sorted_wrt (<) (map m_id (history s cid))"
    and list_since_law:
      "clean s \<Longrightarrow> mr_list_since repo cid after n s =
        (Inr (take n (filter (id_above after) (history s cid))), s)"
    and list_history_law:
      "clean s \<Longrightarrow> mr_list_history repo cid before n s =
        (Inr (take n (rev (filter (id_below before) (history s cid)))), s)"
    and find_law:
      "clean s \<Longrightarrow> mr_find_by_client_message_id repo cid k s =
        (Inr (find (has_client_id k) (history s cid)), s)"
    and create_law:
      "clean s \<Longrightarrow> known s cid \<Longrightarrow> content_wf content \<Longrightarrow>
        (\<forall>k. ck = Some k \<longrightarrow> find (has_client_id k) (history s cid) = None) \<Longrightarrow>
        \<exists>s' i. mr_create repo cid sender role content at ck s =
            (Inr \<lparr>m_id = i, m_conversation_id = cid, m_sender_id = sender, m_role = role,
               m_content = content, m_created_at = at, m_client_message_id = ck\<rparr>, s') \<and>
          clean s' \<and> known s' = known s \<and>
          history s' = (history s)(cid := history s cid @
            [\<lparr>m_id = i, m_conversation_id = cid, m_sender_id = sender, m_role = role,
              m_content = content, m_created_at = at, m_client_message_id = ck\<rparr>])"
    and create_duplicate_law:
      "clean s \<Longrightarrow> known s cid \<Longrightarrow> content_wf content \<Longrightarrow>
        find (has_client_id k) (history s cid) \<noteq> None \<Longrightarrow>
        fst (mr_create repo cid sender role content at (Some k) s) = Inl IntegrityError"

end
