(* ===== verification/IsoTime.thy ===== *)
theory IsoTime
  imports Identifiers
begin

section \<open>ISO 8601 text of a UTC datetime\<close>

text \<open>
  \<open>datetime.isoformat()\<close> and \<open>datetime.fromisoformat()\<close> on the aware UTC datetimes of the program, which
  the wire frames and the Redis payloads carry. A datetime is its microseconds since the epoch; its
  date is found the way the standard library does it, by peeling off 400-, 100-, 4- and 1-year
  cycles of days from the year 1. The reader accepts the layout \<open>isoformat\<close> writes with the offset
  \<open>+00:00\<close>; the other layouts \<open>fromisoformat\<close> accepts are not modelled.
\<close>

subsection \<open>Decimal fields\<close>

fun dec_digits :: "nat \<Rightarrow> nat \<Rightarrow> string" where
  "dec_digits 0 n = []"
| "dec_digits (Suc w) n = dec_digits w (n div 10) @ [char_of (48 + n mod 10)]"

fun dec_value :: "nat \<Rightarrow> string \<Rightarrow> nat option" where
  "dec_value acc [] = Some acc"
| "dec_value acc (c # s) =
     (if 48 \<le> code c \<and> code c \<le> 57 then dec_value (10 * acc + (code c - 48)) s else None)"

definition read_dec :: "nat \<Rightarrow> string \<Rightarrow> (nat \<times> string) option" where
  "read_dec w s =
     (if length s < w then None
      else case dec_value 0 (take w s) of None \<Rightarrow> None | Some n \<Rightarrow> Some (n, drop w s))"

fun read_char :: "char \<Rightarrow> string \<Rightarrow> string option" where
  "read_char c [] = None"
| "read_char c (x # s) = (if x = c then Some s else None)"

lemma length_dec_digits [simp]: "length (dec_digits w n) = w"
  by (induction w arbitrary: n) auto

lemma dec_value_append:
  "dec_value acc (a @ b) = (case dec_value acc a of None \<Rightarrow> None | Some n \<Rightarrow> dec_value n b)"
  by (induction a arbitrary: acc) auto

lemma dec_value_digits: "n < 10 ^ w \<Longrightarrow> dec_value acc (dec_digits w n) = Some (acc * 10 ^ w + n)"
proof (induction w arbitrary: n)
  case (Suc w)
  have "n mod 10 < 10" by simp
  then have c: "code (char_of (48 + n mod 10)) = 48 + n mod 10" by simp
  have "n div 10 < 10 ^ w" using Suc.prems by (simp add: less_mult_imp_div_less mult.commute)
  from Suc.IH [OF this] c show ?case by (simp add: dec_value_append algebra_simps)
qed simp

lemma read_dec_digits [simp]: "n < 10 ^ w \<Longrightarrow> read_dec w (dec_digits w n @ s) = Some (n, s)"
  by (simp add: read_dec_def dec_value_digits)

subsection \<open>The calendar\<close>

definition leap_year :: "int \<Rightarrow> bool" where
  "leap_year y = (y mod 4 = 0 \<and> (y mod 100 \<noteq> 0 \<or> y mod 400 = 0))"

definition days_before_year :: "int \<Rightarrow> int" where
  "days_before_year y = (y - 1) * 365 + (y - 1) div 4 - (y - 1) div 100 + (y - 1) div 400"

text \<open>The year and the day within it, from the days since 0001-01-01.\<close>

definition year_day :: "int \<Rightarrow> int \<times> int" where
  "year_day n =
     (let n400 = n div 146097; n = n mod 146097;
          n100 = n div 36524; n = n mod 36524;
          n4 = n div 1461; n = n mod 1461;
          n1 = n div 365; n = n mod 365;
          year = n400 * 400 + n100 * 100 + n4 * 4 + n1 + 1
      in if n1 = 4 \<or> n100 = 4 then (year - 1, 365) else (year, n))"

definition month_lengths :: "int \<Rightarrow> int list" where
  "month_lengths y = [31, if leap_year y then 29 else 28, 31, 30, 31, 30, 31, 31, 30, 31, 30, 31]"

fun month_day :: "int list \<Rightarrow> nat \<Rightarrow> int \<Rightarrow> nat \<times> int" where
  "month_day [] month n = (month, n + 1)"
| "month_day (l # ls) month n = (if n < l then (month, n + 1) else month_day ls (Suc month) (n - l))"

lemma div_shift: "0 \<le> r \<Longrightarrow> r < m \<Longrightarrow> (r + q * m) div m = (q :: int)"
  by (simp add: div_pos_pos_trivial)

lemma days_before_cycles:
  fixes a b c e :: int
  assumes "0 \<le> b" "b \<le> 3" "0 \<le> c" "c \<le> 24" "0 \<le> e" "e \<le> 3"
  shows "days_before_year (400 * a + 100 * b + 4 * c + e + 1) = 146097 * a + 36524 * b + 1461 * c + 365 * e"
proof -
  let ?k = "400 * a + 100 * b + 4 * c + e"
  have "?k div 4 = 100 * a + 25 * b + c"
    using div_shift [of e 4 "100 * a + 25 * b + c"] assms by (simp add: algebra_simps)
  moreover have "?k div 100 = 4 * a + b"
    using div_shift [of "4 * c + e" 100 "4 * a + b"] assms by (simp add: algebra_simps)
  moreover have "?k div 400 = a"
    using div_shift [of "100 * b + 4 * c + e" 400 a] assms by (simp add: algebra_simps)
  ultimately show ?thesis by (simp add: days_before_year_def)
qed

text \<open>The last day of a cycle is the last of a leap year.\<close>

lemma leap_cycles:
  fixes a b c :: int
  shows "leap_year (400 * a + 400)"
    and "0 \<le> b \<Longrightarrow> b \<le> 3 \<Longrightarrow> 0 \<le> c \<Longrightarrow> c \<le> 23 \<Longrightarrow> leap_year (400 * a + 100 * b + 4 * c + 4)"
proof -
  show "leap_year (400 * a + 400)" by (simp add: leap_year_def)
  assume bc: "0 \<le> b" "b \<le> 3" "0 \<le> c" "c \<le> 23"
  have "(400 * a + 100 * b + 4 * c + 4) mod 100 = (4 * c + 4) mod 100"
    using mod_mult_self3 [of "4 * a + b" 100 "4 * c + 4"] by (simp add: algebra_simps)
  also have "\<dots> = 4 * c + 4" using bc by simp
  finally have "(400 * a + 100 * b + 4 * c + 4) mod 100 \<noteq> 0" using bc by simp
  moreover have "(400 * a + 100 * b + 4 * c + 4) mod 4 = 0" by presburger
  ultimately show "leap_year (400 * a + 100 * b + 4 * c + 4)" by (simp add: leap_year_def)
qed

text \<open>The quotients and remainders of the cycles, as numbers related by linear facts.\<close>

lemma year_day_cycles:
  obtains a b c e r r2 r3 r4 where
    "year_day n = (if e = 4 \<or> b = 4 then (a * 400 + b * 100 + c * 4 + e, 365)
       else (a * 400 + b * 100 + c * 4 + e + 1, r4))"
    "n = 146097 * a + r" "r = 36524 * b + r2" "r2 = 1461 * c + r3" "r3 = 365 * e + r4"
    "0 \<le> r" "r < 146097" "0 \<le> r2" "r2 < 36524" "0 \<le> r3" "r3 < 1461" "0 \<le> r4" "r4 < 365"
proof -
  define r r2 r3 r4 where "r = n mod 146097" and "r2 = r mod 36524" and "r3 = r2 mod 1461" and "r4 = r3 mod 365"
  show ?thesis
  proof (rule that [of "r3 div 365" "r div 36524" "n div 146097" "r2 div 1461" r4 r r2 r3])
    show "year_day n = (if r3 div 365 = 4 \<or> r div 36524 = 4
        then (n div 146097 * 400 + r div 36524 * 100 + r2 div 1461 * 4 + r3 div 365, 365)
        else (n div 146097 * 400 + r div 36524 * 100 + r2 div 1461 * 4 + r3 div 365 + 1, r4))"
      by (simp add: year_day_def Let_def r_def r2_def r3_def r4_def)
  qed (simp_all add: r_def r2_def r3_def r4_def)
qed

lemma year_day_spec:
  assumes "year_day n = (y, d)"
  shows "days_before_year y + d = n \<and> 0 \<le> d \<and> d < 365 + (if leap_year y then 1 else 0)"
proof -
  obtain a b c e r r2 r3 r4 where
    yd: "year_day n = (if e = 4 \<or> b = 4 then (a * 400 + b * 100 + c * 4 + e, 365)
       else (a * 400 + b * 100 + c * 4 + e + 1, r4))" and
    n: "n = 146097 * a + r" "r = 36524 * b + r2" "r2 = 1461 * c + r3" "r3 = 365 * e + r4" and
    r: "0 \<le> r" "r < 146097" "0 \<le> r2" "r2 < 36524" "0 \<le> r3" "r3 < 1461" "0 \<le> r4" "r4 < 365"
    by (rule year_day_cycles)
  have b: "0 \<le> b" "b \<le> 4" and c: "0 \<le> c" "c \<le> 24" and e: "0 \<le> e" "e \<le> 4"
    using n r by linarith+
  consider "b = 4" | "b \<le> 3" "e = 4" | "b \<le> 3" "e \<le> 3" using b e by linarith
  then show ?thesis
  proof cases
    case 1
    then have "r2 = 0" using n r by linarith
    then have "c = 0" "e = 0" using n r c e by linarith+
    then have y: "y = 400 * a + 400" "d = 365" using 1 assms yd by auto
    have "days_before_year (400 * a + 100 * 3 + 4 * 24 + 3 + 1) = 146097 * a + 36524 * 3 + 1461 * 24 + 365 * 3"
      by (rule days_before_cycles) auto
    moreover have "n = 146097 * a + 36524 * 4" using n 1 \<open>r2 = 0\<close> by linarith
    ultimately show ?thesis using y leap_cycles(1) [of a] by (simp add: add.commute)
  next
    case 2
    have r3: "r3 = 1460" using 2(2) n(4) r by linarith
    then have "c \<le> 23" using c r n(3) by linarith
    moreover have y: "y = 400 * a + 100 * b + 4 * c + 4" "d = 365" using 2 assms yd by auto
    moreover have "days_before_year (400 * a + 100 * b + 4 * c + 3 + 1) = 146097 * a + 36524 * b + 1461 * c + 365 * 3"
      using 2 b c by (intro days_before_cycles) auto
    moreover have "n = 146097 * a + 36524 * b + 1461 * c + 1460" using n(1-3) r3 by linarith
    ultimately show ?thesis using 2 b c leap_cycles(2) [of b c a] by (simp add: ac_simps)
  next
    case 3
    then have "y = 400 * a + 100 * b + 4 * c + e + 1" "d = r4" using assms yd by auto
    moreover have "days_before_year (400 * a + 100 * b + 4 * c + e + 1) = 146097 * a + 36524 * b + 1461 * c + 365 * e"
      using 3 b c e by (intro days_before_cycles) auto
    moreover have "n = 146097 * a + 36524 * b + 1461 * c + 365 * e + r4" using n by linarith
    ultimately show ?thesis using r by auto
  qed
qed

lemma month_day_spec:
  assumes "month_day ls month n = (m, d)" and "0 \<le> n" and "n < sum_list ls"
  shows "month \<le> m \<and> m < month + length ls \<and> 1 \<le> d \<and> d \<le> ls ! (m - month) \<and>
    sum_list (take (m - month) ls) + d - 1 = n"
  using assms
proof (induction ls arbitrary: month n)
  case Nil
  then show ?case by simp
next
  case (Cons l ls)
  show ?case
  proof (cases "n < l")
    case True
    with Cons.prems show ?thesis by auto
  next
    case False
    with Cons.prems Cons.IH [of "Suc month" "n - l"] have
      ih: "Suc month \<le> m" "m < Suc month + length ls" "1 \<le> d" "d \<le> ls ! (m - Suc month)"
        "sum_list (take (m - Suc month) ls) + d - 1 = n - l" by auto
    then have "m - month = Suc (m - Suc month)" by simp
    with ih show ?thesis by simp
  qed
qed

subsection \<open>Printing\<close>

definition date_text :: "int \<Rightarrow> string" where
  "date_text n =
     (case year_day n of (y, d) \<Rightarrow>
      case month_day (month_lengths y) 1 d of (m, day) \<Rightarrow>
        dec_digits 4 (nat y) @ ''-'' @ dec_digits 2 m @ ''-'' @ dec_digits 2 (nat day))"

text \<open>The microseconds since the epoch split into days since 0001-01-01 and microseconds of the day.\<close>

definition epoch_days :: int where
  "epoch_days = 719162"

definition day_microseconds :: int where
  "day_microseconds = 86400000000"

definition isoformat :: "datetime \<Rightarrow> string" where
  "isoformat t =
     (let day = t div day_microseconds + epoch_days;
          us = nat (t mod day_microseconds);
          seconds = us div 1000000
      in date_text day @ ''T'' @ dec_digits 2 (seconds div 3600) @ '':'' @
         dec_digits 2 (seconds div 60 mod 60) @ '':'' @ dec_digits 2 (seconds mod 60) @
         (if us mod 1000000 = 0 then [] else ''.'' @ dec_digits 6 (us mod 1000000)) @ ''+00:00'')"

subsection \<open>Reading\<close>

definition read_date :: "string \<Rightarrow> (int \<times> string) option" where
  "read_date s =
     Option.bind (read_dec 4 s) (\<lambda>(y, s). Option.bind (read_char CHR ''-'' s) (\<lambda>s.
     Option.bind (read_dec 2 s) (\<lambda>(m, s). Option.bind (read_char CHR ''-'' s) (\<lambda>s.
     Option.bind (read_dec 2 s) (\<lambda>(d, s).
       let lengths = month_lengths (int y)
       in if y < 1 \<or> m < 1 \<or> 12 < m \<or> d < 1 \<or> lengths ! (m - 1) < int d then None
          else Some (days_before_year (int y) + sum_list (take (m - 1) lengths) + int d - 1, s))))))"

definition read_fraction :: "string \<Rightarrow> (nat \<times> string) option" where
  "read_fraction s =
     (case read_char CHR ''.'' s of None \<Rightarrow> Some (0, s) | Some s \<Rightarrow> read_dec 6 s)"

definition fromisoformat :: "string \<Rightarrow> datetime option" where
  "fromisoformat s =
     Option.bind (read_date s) (\<lambda>(day, s). Option.bind (read_char CHR ''T'' s) (\<lambda>s.
     Option.bind (read_dec 2 s) (\<lambda>(hh, s). Option.bind (read_char CHR '':'' s) (\<lambda>s.
     Option.bind (read_dec 2 s) (\<lambda>(mm, s). Option.bind (read_char CHR '':'' s) (\<lambda>s.
     Option.bind (read_dec 2 s) (\<lambda>(ss, s). Option.bind (read_fraction s) (\<lambda>(us, s).
       if s \<noteq> ''+00:00'' \<or> 23 < hh \<or> 59 < mm \<or> 59 < ss then None
       else Some ((day - epoch_days) * day_microseconds +
                  int (((hh * 60 + mm) * 60 + ss) * 1000000 + us))))))))))"

subsection \<open>Round trip\<close>

text \<open>The datetimes a \<open>datetime\<close> can hold: from the year 1 to the year 9999.\<close>

definition datetime_range :: "datetime \<Rightarrow> bool" where
  "datetime_range t =
     (0 \<le> t div day_microseconds + epoch_days \<and> t div day_microseconds + epoch_days < 3652059)"

lemma year_range:
  assumes "year_day n = (y, d)" and "0 \<le> n" and "n < 3652059"
  shows "1 \<le> y \<and> y \<le> 9999"
proof -
  have s: "days_before_year y + d = n" "0 \<le> d" "d < 366"
    using year_day_spec [OF assms(1)] by (auto split: if_splits)
  obtain a b c e r r2 r3 r4 where
    yd: "year_day n = (if e = 4 \<or> b = 4 then (a * 400 + b * 100 + c * 4 + e, 365)
       else (a * 400 + b * 100 + c * 4 + e + 1, r4))" and
    n: "n = 146097 * a + r" "r = 36524 * b + r2" "r2 = 1461 * c + r3" "r3 = 365 * e + r4" and
    r: "0 \<le> r" "r < 146097" "0 \<le> r2" "r2 < 36524" "0 \<le> r3" "r3 < 1461" "0 \<le> r4" "r4 < 365"
    by (rule year_day_cycles)
  have "0 \<le> a" "0 \<le> b" "0 \<le> c" "0 \<le> e" using n r assms(2) by linarith+
  then have "1 \<le> y" using assms(1) yd by (auto split: if_splits)
  moreover have "y \<le> 9999"
  proof (rule ccontr)
    assume "\<not> y \<le> 9999"
    then consider "y = 10000" | "10001 \<le> y" by linarith
    then have "3652059 \<le> days_before_year y"
    proof cases
      case 1
      then show ?thesis by (simp add: days_before_year_def)
    next
      case 2
      define k q4 m4 q100 m100 q400 m400 where defs: "k = y - 1" "q4 = k div 4" "m4 = k mod 4"
        "q100 = k div 100" "m100 = k mod 100" "q400 = k div 400" "m400 = k mod 400"
      have "k = 4 * q4 + m4" "m4 < 4" "k = 100 * q100 + m100" "0 \<le> m100" "k = 400 * q400 + m400" "m400 < 400"
        "10000 \<le> k" using 2 by (simp_all add: defs)
      moreover have "days_before_year y = k * 365 + q4 - q100 + q400"
        by (simp add: days_before_year_def defs)
      ultimately show ?thesis by linarith
    qed
    with s assms(3) show False by linarith
  qed
  ultimately show ?thesis by simp
qed

lemma sum_month_lengths: "sum_list (month_lengths y) = 365 + (if leap_year y then 1 else 0)"
  by (simp add: month_lengths_def)

lemma month_lengths_bound: "i < 12 \<Longrightarrow> month_lengths y ! i \<le> 31"
  by (auto simp: month_lengths_def less_Suc_eq numeral_eq_Suc)

lemma read_date_text:
  assumes "0 \<le> n" and "n < 3652059"
  shows "read_date (date_text n @ s) = Some (n, s)"
proof -
  obtain y d where yd: "year_day n = (y, d)" by (cases "year_day n")
  obtain m day where md: "month_day (month_lengths y) 1 d = (m, day)" by (cases "month_day (month_lengths y) 1 d")
  note y = year_range [OF yd assms] and spec = year_day_spec [OF yd]
  have m: "1 \<le> m" "m < 13" "1 \<le> day" "day \<le> month_lengths y ! (m - 1)"
    "sum_list (take (m - 1) (month_lengths y)) + day - 1 = d"
    using month_day_spec [OF md] spec by (auto simp: sum_month_lengths) (simp add: month_lengths_def)
  have "m - 1 < 12" using m(2) by linarith
  with month_lengths_bound [of "m - 1" y] m(4) have "day \<le> 31" by linarith
  then have "nat day < 10 ^ 2" "m < 10 ^ 2" "nat y < 10 ^ 4" using m y by auto
  moreover have "date_text n = dec_digits 4 (nat y) @ ''-'' @ dec_digits 2 m @ ''-'' @ dec_digits 2 (nat day)"
    by (simp only: date_text_def yd md prod.case)
  ultimately show ?thesis
    using y m spec by (simp add: read_date_def Let_def)
qed

lemma hours_minutes_seconds: "(x div 3600 * 60 + x div 60 mod 60) * 60 + x mod 60 = (x :: nat)"
proof -
  have "x div 3600 = x div 60 div 60" by (simp add: div_mult2_eq [symmetric])
  then show ?thesis by (simp only: div_mult_mod_eq)
qed

lemma read_fraction_text:
  assumes "us < 1000000"
  shows "read_fraction ((if us = 0 then [] else ''.'' @ dec_digits 6 us) @ ''+00:00'') = Some (us, ''+00:00'')"
  using assms by (simp add: read_fraction_def)

lemma fromisoformat_fields:
  assumes "0 \<le> day" and "day < 3652059" and "hh < 24" and "mm < 60" and "ss < 60" and "us < 1000000"
  shows "fromisoformat (date_text day @ ''T'' @ dec_digits 2 hh @ '':'' @ dec_digits 2 mm @ '':'' @
      dec_digits 2 ss @ (if us = 0 then [] else ''.'' @ dec_digits 6 us) @ ''+00:00'') =
    Some ((day - epoch_days) * day_microseconds + int (((hh * 60 + mm) * 60 + ss) * 1000000 + us))"
proof -
  have two: "hh < 10 ^ 2" "mm < 10 ^ 2" "ss < 10 ^ 2" using assms by simp_all
  show ?thesis
    unfolding fromisoformat_def read_date_text [OF assms(1,2)]
    using assms(3-5) two by (simp add: read_fraction_text [OF assms(6), simplified])
qed

theorem fromisoformat_isoformat:
  assumes "datetime_range t"
  shows "fromisoformat (isoformat t) = Some t"
proof -
  define day us s where defs: "day = t div day_microseconds + epoch_days" "us = nat (t mod day_microseconds)"
    "s = us div 1000000"
  have us: "int us = t mod day_microseconds" "us < 86400000000"
    by (simp_all add: defs day_microseconds_def nat_less_iff)
  then have s: "s < 86400" by (simp add: defs(3))
  have fields: "s div 3600 < 24" "s div 60 mod 60 < 60" "s mod 60 < 60" "us mod 1000000 < 1000000"
    using s by simp_all
  have total: "((s div 3600 * 60 + s div 60 mod 60) * 60 + s mod 60) * 1000000 + us mod 1000000 = us"
    unfolding hours_minutes_seconds defs(3) by (rule div_mult_mod_eq)
  have "0 \<le> day" "day < 3652059" using assms by (simp_all add: datetime_range_def defs(1))
  note fromisoformat_fields [OF this fields, unfolded total]
  moreover have "isoformat t = date_text day @ ''T'' @ dec_digits 2 (s div 3600) @ '':'' @
      dec_digits 2 (s div 60 mod 60) @ '':'' @ dec_digits 2 (s mod 60) @
      (if us mod 1000000 = 0 then [] else ''.'' @ dec_digits 6 (us mod 1000000)) @ ''+00:00''"
    by (simp only: isoformat_def Let_def defs)
  moreover have "(day - epoch_days) * day_microseconds + int us = t"
    unfolding us(1) defs(1) by simp
  ultimately show ?thesis by simp
qed

end
