(* ===== verification/Protocol.thy ===== *)
theory Protocol
  imports MessagingPorts IsoTime
begin

section \<open>The wire protocol and the Redis message codec\<close>

text \<open>
  \<open>realtime/protocol.py\<close> and \<open>outbound/redis/message_codec.py\<close>: the inbound frame models, the outbound
  frame builders, and the payload a message travels as between replicas. A JSON text is its value
  (\<open>json\<close>); an object is the list of its members, looked up by name. Turning values into text and back
  (\<open>json.dumps\<close>, \<open>json.loads\<close>, \<open>receive_json\<close>, \<open>send_json\<close>) is not modelled.

  What a pydantic field accepts beyond its own JSON type (\<open>"5"\<close> or \<open>5.0\<close> for an \<open>int\<close>, the spellings of
  a UUID) is the library's, so the conversions are parameters (\<open>field_readers\<close>).
\<close>

datatype json =
    JNull
  | JBool bool
  | JInt int
  | JFloat string
  | JText string
  | JList "json list"
  | JObject "(string \<times> json) list"

fun field :: "string \<Rightarrow> json \<Rightarrow> json option" where
  "field k (JObject members) = map_of members k"
| "field k _ = None"

subsection \<open>Outbound frames\<close>

definition auth_ok :: json where
  "auth_ok = JObject [(''type'', JText ''auth.ok'')]"

fun json_of_uuid :: "uuid option \<Rightarrow> json" where
  "json_of_uuid None = JNull"
| "json_of_uuid (Some u) = JText (uuid_str u)"

definition client_message_id_json :: "message \<Rightarrow> json" where
  "client_message_id_json message =
     json_of_uuid (map_option client_message_id_value (m_client_message_id message))"

definition message_payload :: "message \<Rightarrow> json" where
  "message_payload message = JObject
     [(''id'', JInt (message_id_value (m_id message))),
      (''conversation_id'', JText (uuid_str (conversation_id_value (m_conversation_id message)))),
      (''sender_id'', json_of_uuid (map_option sender_id_value (m_sender_id message))),
      (''role'', JText (message_role_value (m_role message))),
      (''content'', JText (message_content_value (m_content message))),
      (''created_at'', JText (isoformat (m_created_at message))),
      (''client_message_id'', client_message_id_json message)]"

definition message_new :: "message \<Rightarrow> json" where
  "message_new message = JObject [(''type'', JText ''message.new''), (''payload'', message_payload message)]"

definition message_ack :: "message \<Rightarrow> json" where
  "message_ack message = JObject
     [(''type'', JText ''message.ack''),
      (''payload'', JObject
         [(''id'', JInt (message_id_value (m_id message))),
          (''client_message_id'', client_message_id_json message),
          (''created_at'', JText (isoformat (m_created_at message)))])]"

definition error_frame :: "string \<Rightarrow> json" where
  "error_frame detail = JObject [(''type'', JText ''error''), (''error'', JText detail)]"

subsection \<open>Inbound frames\<close>

record field_readers =
  read_int :: "json \<Rightarrow> int option"
  read_uuid :: "json \<Rightarrow> uuid option"

record auth_frame =
  af_token :: string
  af_last_seen_seq :: "int option"

record send_frame =
  sf_content :: string
  sf_client_message_id :: "uuid option"

text \<open>A field with a default: absent takes the default, \<open>null\<close> is \<open>None\<close>, anything else is read.\<close>

definition optional_field :: "(json \<Rightarrow> 'a option) \<Rightarrow> string \<Rightarrow> json \<Rightarrow> 'a option option" where
  "optional_field read k obj =
     (case field k obj of
        None \<Rightarrow> Some None
      | Some JNull \<Rightarrow> Some None
      | Some v \<Rightarrow> map_option Some (read v))"

fun read_text :: "json \<Rightarrow> string option" where
  "read_text (JText s) = Some s"
| "read_text _ = None"

text \<open>A model is read from an object; \<open>None\<close> is \<open>ValidationError\<close>.\<close>

fun is_object :: "json \<Rightarrow> bool" where
  "is_object (JObject _) = True"
| "is_object _ = False"

definition read_frame :: "string \<Rightarrow> (json \<Rightarrow> 'a option) \<Rightarrow> json \<Rightarrow> 'a outcome" where
  "read_frame tag read_payload raw =
     (case (field ''type'' raw, field ''payload'' raw) of
        (Some (JText t), Some payload) \<Rightarrow>
          (if t = tag \<and> is_object payload
           then (case read_payload payload of None \<Rightarrow> Inl ValidationError | Some x \<Rightarrow> Inr x)
           else Inl ValidationError)
      | _ \<Rightarrow> Inl ValidationError)"

definition validate_auth_frame :: "field_readers \<Rightarrow> json \<Rightarrow> auth_frame outcome" where
  "validate_auth_frame v = read_frame ''auth'' (\<lambda>payload.
     Option.bind (Option.bind (field ''token'' payload) read_text) (\<lambda>token.
     Option.bind (optional_field (read_int v) ''last_seen_seq'' payload) (\<lambda>seq.
       Some \<lparr>af_token = token, af_last_seen_seq = seq\<rparr>)))"

definition validate_send_frame :: "field_readers \<Rightarrow> json \<Rightarrow> send_frame outcome" where
  "validate_send_frame v = read_frame ''message.send'' (\<lambda>payload.
     Option.bind (Option.bind (field ''content'' payload) read_text) (\<lambda>content.
     Option.bind (optional_field (read_uuid v) ''client_message_id'' payload) (\<lambda>key.
       Some \<lparr>sf_content = content, sf_client_message_id = key\<rparr>)))"

lemma validate_Inl:
  "validate_auth_frame v raw = Inl e \<Longrightarrow> e = ValidationError"
  "validate_send_frame v raw = Inl e \<Longrightarrow> e = ValidationError"
  by (auto simp: validate_auth_frame_def validate_send_frame_def read_frame_def
      split: option.splits json.splits if_splits)

subsection \<open>The codec\<close>

definition encode :: "message \<Rightarrow> json" where
  "encode message = JObject
     [(''id'', JInt (message_id_value (m_id message))),
      (''conversation_id'', JText (uuid_str (conversation_id_value (m_conversation_id message)))),
      (''sender_id'',
        case m_sender_id message of None \<Rightarrow> JNull | Some s \<Rightarrow> JText (uuid_str (sender_id_value s))),
      (''role'', JText (message_role_value (m_role message))),
      (''content'', JText (message_content_value (m_content message))),
      (''created_at'', JText (isoformat (m_created_at message))),
      (''client_message_id'',
        case m_client_message_id message of
          None \<Rightarrow> JNull | Some k \<Rightarrow> JText (uuid_str (client_message_id_value k)))]"

text \<open>\<open>raw[k]\<close>, \<open>UUID(v)\<close>, \<open>datetime.fromisoformat(v)\<close> on a JSON value.\<close>

definition subscript :: "json \<Rightarrow> string \<Rightarrow> json outcome" where
  "subscript raw k =
     (if \<not> is_object raw then Inl TypeError
      else case field k raw of None \<Rightarrow> Inl KeyError | Some v \<Rightarrow> Inr v)"

definition uuid_of_json :: "json \<Rightarrow> uuid outcome" where
  "uuid_of_json v =
     (case v of
        JText s \<Rightarrow> (case uuid_parse s of None \<Rightarrow> Inl ValueError | Some u \<Rightarrow> Inr u)
      | _ \<Rightarrow> Inl TypeError)"

definition optional_uuid_of_json :: "json \<Rightarrow> uuid option outcome" where
  "optional_uuid_of_json v = (if v = JNull then Inr None else bindr (uuid_of_json v) (\<lambda>u. Inr (Some u)))"

text \<open>A field of another JSON type is not converted: \<open>MessageRole\<close> and \<open>MessageContent\<close> raise on it; an
  \<open>id\<close> that is not a number would be kept as it is, which the model refuses.\<close>

definition text_of_json :: "json \<Rightarrow> string outcome" where
  "text_of_json v = (case read_text v of None \<Rightarrow> Inl TypeError | Some s \<Rightarrow> Inr s)"

definition int_of_json :: "json \<Rightarrow> int outcome" where
  "int_of_json v = (case v of JInt n \<Rightarrow> Inr n | _ \<Rightarrow> Inl TypeError)"

definition datetime_of_json :: "json \<Rightarrow> datetime outcome" where
  "datetime_of_json v =
     bindr (text_of_json v) (\<lambda>s. case fromisoformat s of None \<Rightarrow> Inl ValueError | Some t \<Rightarrow> Inr t)"

definition decode :: "json \<Rightarrow> message outcome" where
  "decode raw =
     bindr (subscript raw ''sender_id'') (\<lambda>sender_id.
     bindr (subscript raw ''client_message_id'') (\<lambda>client_message_id.
     bindr (bindr (subscript raw ''id'') int_of_json) (\<lambda>i.
     bindr (bindr (subscript raw ''conversation_id'') uuid_of_json) (\<lambda>cid.
     bindr (optional_uuid_of_json sender_id) (\<lambda>sender.
     bindr (bindr (bindr (subscript raw ''role'') text_of_json) mk_message_role) (\<lambda>role.
     bindr (bindr (bindr (subscript raw ''content'') text_of_json) mk_message_content) (\<lambda>content.
     bindr (bindr (subscript raw ''created_at'') datetime_of_json) (\<lambda>created.
     bindr (optional_uuid_of_json client_message_id) (\<lambda>key.
       Inr \<lparr>m_id = MessageId i, m_conversation_id = ConversationId cid,
            m_sender_id = map_option SenderId sender, m_role = role, m_content = content,
            m_created_at = created, m_client_message_id = map_option ClientMessageId key\<rparr>)))))))))"

lemma encode_payload: "encode message = message_payload message"
  by (simp add: encode_def message_payload_def client_message_id_json_def split: option.split)

definition message_wf :: "message \<Rightarrow> bool" where
  "message_wf m = (content_wf (m_content m) \<and> datetime_range (m_created_at m))"

lemma decode_encode:
  assumes "message_wf m"
  shows "decode (encode m) = Inr m"
proof -
  have u: "uuid_of_json (JText (uuid_str i)) = Inr i" for i by (simp add: uuid_of_json_def)
  have o: "optional_uuid_of_json (json_of_uuid k) = Inr k" for k
    by (cases k) (simp_all add: optional_uuid_of_json_def u bindr_def)
  have t: "datetime_of_json (JText (isoformat (m_created_at m))) = Inr (m_created_at m)"
    using assms fromisoformat_isoformat
    by (simp add: datetime_of_json_def text_of_json_def message_wf_def bindr_def)
  have c: "mk_message_content (message_content_value (m_content m)) = Inr (m_content m)"
    using assms by (simp add: message_wf_def content_wf_def)
  show ?thesis
    unfolding encode_payload
    by (simp add: decode_def message_payload_def subscript_def client_message_id_json_def bindr_def
        u o t c text_of_json_def int_of_json_def option.map_comp comp_def option.map_ident)
qed

end
