(* ===== verification/Replica.thy ===== *)
theory Replica
  imports Protocol
begin

section \<open>One replica: its sockets, its connection manager, its Redis subscriber\<close>

text \<open>
  \<open>realtime/connection_manager.py\<close>, \<open>outbound/redis/redis_conversation_subscriber.py\<close> and \<open>channels.py\<close>.
  A replica's state holds its live sockets, the manager's map from conversations to connections, and
  the subscriber: the channels it wants, the channels its pub/sub connection is subscribed to on the
  server, whether its reader task is alive, and the exception that ended it if one did. A set of
  connections is a list without repetition, in the order the connections were added.

  Redis and the sockets can fail. \<open>rp_faults\<close> says of each coming call to Redis how it goes (none left:
  it is served); a socket that is dead raises on every send. The pub/sub connection can be lost at any
  time, and with it everything subscribed on it: \<open>rp_link\<close> is \<open>Up\<close> while it is what the reader reads,
  \<open>Lost\<close> from its loss until a read raises, and \<open>Rebuilding\<close> from the read that raised until \<open>_reconnect\<close>
  has subscribed the wanted channels on a new one. \<open>rp_registry\<close> says which call of the registry holds the
  registry's lock in the middle, awaiting the subscriber.

  What a coroutine does under the subscriber's lock, and what it does between two awaits, is one
  operation here. The operations of different coroutines are interleaved by \<open>replica_step\<close> (Delivery).
\<close>

subsection \<open>State\<close>

type_synonym connection = nat

record socket =
  so_dead :: bool
  so_sent :: "json list"
  so_closed :: "int option"

datatype pubsub_link = Up | Lost | Rebuilding

datatype registry_lock = Unlocked | Joining conversation_id connection | Unsubscribing conversation_id

record replica =
  rp_sockets :: "connection \<Rightarrow> socket"
  rp_connections :: "(conversation_id, connection list) map"
  rp_channels :: "string set"
  rp_pubsub :: "string set"
  rp_running :: bool
  rp_reader :: bool
  rp_failure :: "exn option"
  rp_faults :: "redis_fault list"
  rp_link :: pubsub_link
  rp_registry :: registry_lock

definition new_socket :: socket where
  "new_socket = \<lparr>so_dead = False, so_sent = [], so_closed = None\<rparr>"

definition new_replica :: replica where
  "new_replica =
     \<lparr>rp_sockets = (\<lambda>_. new_socket), rp_connections = Map.empty, rp_channels = {}, rp_pubsub = {},
      rp_running = False, rp_reader = False, rp_failure = None, rp_faults = [], rp_link = Up, rp_registry = Unlocked\<rparr>"

subsection \<open>Connection\<close>

text \<open>\<open>Connection.send\<close> and \<open>Connection.close\<close>. Writing to a socket that was closed here raises
  \<open>RuntimeError\<close>, writing to one whose client is gone \<open>WebSocketDisconnect\<close>.\<close>

definition write_error :: "socket \<Rightarrow> exn" where
  "write_error s = (if so_closed s \<noteq> None then RuntimeError else WebSocketDisconnect)"

definition connection_send :: "connection \<Rightarrow> json \<Rightarrow> (unit, replica) op" where
  "connection_send c frame r =
     (let s = rp_sockets r c
      in if so_dead s \<or> so_closed s \<noteq> None then (Inl (write_error s), r)
         else (Inr (), r\<lparr>rp_sockets := (rp_sockets r)(c := s\<lparr>so_sent := so_sent s @ [frame]\<rparr>)\<rparr>))"

definition connection_close :: "int \<Rightarrow> connection \<Rightarrow> (unit, replica) op" where
  "connection_close status c r =
     (let s = rp_sockets r c
      in if so_dead s \<or> so_closed s \<noteq> None then (Inl (write_error s), r)
         else (Inr (), r\<lparr>rp_sockets := (rp_sockets r)(c := s\<lparr>so_closed := Some status\<rparr>)\<rparr>))"

subsection \<open>ConnectionManager\<close>

definition register :: "conversation_id \<Rightarrow> connection \<Rightarrow> (bool, replica) op" where
  "register cid c r =
     (let connections = (case rp_connections r cid of None \<Rightarrow> [] | Some cs \<Rightarrow> cs);
          first = (connections = []);
          connections = (if c \<in> set connections then connections else connections @ [c])
      in (Inr first, r\<lparr>rp_connections := (rp_connections r)(cid \<mapsto> connections)\<rparr>))"

definition unregister :: "conversation_id \<Rightarrow> connection \<Rightarrow> (bool, replica) op" where
  "unregister cid c r =
     (case rp_connections r cid of
        None \<Rightarrow> (Inr False, r)
      | Some connections \<Rightarrow>
          (let connections = remove1 c connections
           in if connections \<noteq> []
              then (Inr False, r\<lparr>rp_connections := (rp_connections r)(cid \<mapsto> connections)\<rparr>)
              else (Inr True, r\<lparr>rp_connections := (rp_connections r)(cid := None)\<rparr>)))"

text \<open>The loop of \<open>broadcast\<close> over a snapshot of the connections: which of them failed.\<close>

fun send_all :: "connection list \<Rightarrow> json \<Rightarrow> replica \<Rightarrow> connection list \<times> replica" where
  "send_all [] frame r = ([], r)"
| "send_all (c # cs) frame r =
     (case connection_send c frame r of
        (Inl _, r') \<Rightarrow> (case send_all cs frame r' of (dead, r'') \<Rightarrow> (c # dead, r''))
      | (Inr _, r') \<Rightarrow> send_all cs frame r')"

fun drop_all :: "conversation_id \<Rightarrow> connection list \<Rightarrow> replica \<Rightarrow> replica" where
  "drop_all cid [] r = r"
| "drop_all cid (c # cs) r = drop_all cid cs (snd (unregister cid c r))"

definition local_broadcast :: "conversation_id \<Rightarrow> message \<Rightarrow> (unit, replica) op" where
  "local_broadcast cid message r =
     (case rp_connections r cid of
        None \<Rightarrow> (Inr (), r)
      | Some connections \<Rightarrow>
          (if connections = [] then (Inr (), r)
           else case send_all connections (message_new message) r of
                  (dead, r') \<Rightarrow> (Inr (), drop_all cid dead r')))"

text \<open>\<open>close_all\<close> closes every socket, whatever closing one of them raises, and forgets them.\<close>

fun close_each :: "int \<Rightarrow> connection list \<Rightarrow> replica \<Rightarrow> replica" where
  "close_each status [] r = r"
| "close_each status (c # cs) r = close_each status cs (snd (connection_close status c r))"

definition close_all :: "int \<Rightarrow> conversation_id list \<Rightarrow> replica \<Rightarrow> replica" where
  "close_all status cids r =
     (close_each status (concat (map (\<lambda>cid. case rp_connections r cid of None \<Rightarrow> [] | Some cs \<Rightarrow> cs) cids)) r)
       \<lparr>rp_connections := Map.empty\<rparr>"

subsection \<open>The pub/sub connection\<close>

definition conversation_channel :: "conversation_id \<Rightarrow> string" where
  "conversation_channel cid = ''conv:'' @ uuid_str (conversation_id_value cid)"

lemma conversation_channel_inj [simp]: "conversation_channel a = conversation_channel b \<longleftrightarrow> a = b"
  by (cases a; cases b) (auto simp: conversation_channel_def dest: uuid_str_inj)

text \<open>One call to Redis that has \<open>f\<close> as its effect when it does not raise.\<close>

definition redis_call :: "(replica \<Rightarrow> replica) \<Rightarrow> (unit, replica) op" where
  "redis_call f r =
     (case rp_faults r of
        [] \<Rightarrow> (Inr (), f r)
      | fault # rest \<Rightarrow>
          (let r = r\<lparr>rp_faults := rest\<rparr>
           in case fault of
                Served \<Rightarrow> (Inr (), f r)
              | Refused \<Rightarrow> (Inl RedisError, r)
              | Unanswered \<Rightarrow> (Inl RedisError, f r)))"

definition pubsub_subscribe :: "string \<Rightarrow> (unit, replica) op" where
  "pubsub_subscribe channel = redis_call (\<lambda>r. r\<lparr>rp_pubsub := insert channel (rp_pubsub r)\<rparr>)"

definition pubsub_unsubscribe :: "string \<Rightarrow> (unit, replica) op" where
  "pubsub_unsubscribe channel = redis_call (\<lambda>r. r\<lparr>rp_pubsub := rp_pubsub r - {channel}\<rparr>)"

definition pubsub_aclose :: "(unit, replica) op" where
  "pubsub_aclose = redis_call (\<lambda>r. r\<lparr>rp_pubsub := {}\<rparr>)"

subsection \<open>RedisConversationSubscriber\<close>

definition subscriber_start :: "replica \<Rightarrow> replica" where
  "subscriber_start r = r\<lparr>rp_running := True, rp_reader := True, rp_failure := None, rp_link := Up\<rparr>"

text \<open>Awaiting a task that has ended by an exception raises it again, before \<open>aclose\<close> is reached.\<close>

definition subscriber_stop :: "(unit, replica) op" where
  "subscriber_stop r =
     (case rp_failure r of
        Some e \<Rightarrow> (Inl e, r\<lparr>rp_running := False\<rparr>)
      | None \<Rightarrow> pubsub_aclose (r\<lparr>rp_running := False, rp_reader := False\<rparr>))"

definition subscribe :: "conversation_id \<Rightarrow> (unit, replica) op" where
  "subscribe cid =
     thenp (pubsub_subscribe (conversation_channel cid))
       (\<lambda>r. (Inr (), r\<lparr>rp_channels := insert (conversation_channel cid) (rp_channels r)\<rparr>))"

definition unsubscribe :: "conversation_id \<Rightarrow> (unit, replica) op" where
  "unsubscribe cid r =
     pubsub_unsubscribe (conversation_channel cid)
       (r\<lparr>rp_channels := rp_channels r - {conversation_channel cid}\<rparr>)"

text \<open>\<open>_reconnect\<close>: a new pub/sub connection, then every wanted channel subscribed on it, in some order;
  a subscribe that raises leaves the loop.\<close>

definition reconnect :: "string list \<Rightarrow> (unit, replica) op" where
  "reconnect order =
     thenp (try_except pubsub_aclose (\<lambda>_. ret ()))
       (thenp (\<lambda>r. (Inr (), r\<lparr>rp_pubsub := {}\<rparr>)) (for_each order pubsub_subscribe))"

text \<open>What a read returned: it raised, nothing or a message of another type, or a fanned-out payload.\<close>

datatype read_result = ReadRaised | NothingRead | Payload json

definition deliver :: "json \<Rightarrow> (unit, replica) op" where
  "deliver data =
     (case decode data of
        Inl _ \<Rightarrow> ret ()
      | Inr message \<Rightarrow> local_broadcast (m_conversation_id message) message)"

text \<open>Whether the reader task is at a read: it runs, it is not in \<open>_reconnect\<close>, and there is a channel to read.\<close>

definition at_read :: "replica \<Rightarrow> bool" where
  "at_read r = (rp_running r \<and> rp_reader r \<and> rp_link r \<noteq> Rebuilding \<and> rp_channels r \<noteq> {})"

text \<open>A turn of \<open>_run\<close> up to the call of \<open>_reconnect\<close>, whose back-off other coroutines run in; an exception
  that leaves the turn ends the task.\<close>

definition read_turn :: "read_result \<Rightarrow> replica \<Rightarrow> replica" where
  "read_turn read r =
     (if \<not> at_read r then r
      else case read of
          ReadRaised \<Rightarrow> r\<lparr>rp_link := Rebuilding\<rparr>
        | NothingRead \<Rightarrow> r
        | Payload data \<Rightarrow>
            (case deliver data r of (Inl e, r') \<Rightarrow> r'\<lparr>rp_reader := False, rp_failure := Some e\<rparr> | (Inr _, r') \<Rightarrow> r'))"

text \<open>The rest of the turn, after the back-off. The order in which \<open>_reconnect\<close> walks the set of channels is an
  argument.\<close>

definition reconnect_turn :: "string list \<Rightarrow> replica \<Rightarrow> replica" where
  "reconnect_turn order r =
     (if \<not> rp_running r \<or> \<not> rp_reader r \<or> rp_link r \<noteq> Rebuilding then r
      else case reconnect order r of
          (Inl e, r') \<Rightarrow> r'\<lparr>rp_reader := False, rp_failure := Some e\<rparr>
        | (Inr _, r') \<Rightarrow> r'\<lparr>rp_link := Up\<rparr>)"

text \<open>The whole turn, with nothing in between.\<close>

definition run_turn :: "string list \<Rightarrow> read_result \<Rightarrow> replica \<Rightarrow> replica" where
  "run_turn order read r = reconnect_turn order (read_turn read r)"

end
