(* ===== verification/Registry.thy ===== *)
theory Registry
  imports Replica
begin

section \<open>The conversation registry\<close>

text \<open>
  \<open>realtime/conversation_registry.py\<close>: joining and leaving a conversation, over the manager and the
  subscriber it is constructed with. Each call holds the registry's lock from its first to its last
  statement, so no two of them interleave; but while it awaits the subscriber everything else runs on,
  so the part of a join from that await on is a definition of its own (\<open>join_subscribe\<close>). Its contract with
  the two is the locale \<open>conversation_fanout\<close>, over which it is shown that at the end of each call a
  conversation with a local socket is wanted from Redis, whatever fails; the replica of the program is
  an instance, and Delivery interleaves the parts.
\<close>

record 's connection_manager =
  man_register :: "conversation_id \<Rightarrow> connection \<Rightarrow> (bool, 's) op"
  man_unregister :: "conversation_id \<Rightarrow> connection \<Rightarrow> (bool, 's) op"

record 's conversation_subscriber =
  sub_subscribe :: "conversation_id \<Rightarrow> (unit, 's) op"
  sub_unsubscribe :: "conversation_id \<Rightarrow> (unit, 's) op"

definition join_subscribe ::
    "'s connection_manager \<Rightarrow> 's conversation_subscriber \<Rightarrow> conversation_id \<Rightarrow> connection \<Rightarrow> (unit, 's) op" where
  "join_subscribe manager subscriber conversation_id connection =
     try_except (sub_subscribe subscriber conversation_id) (\<lambda>e.
       bindp (man_unregister manager conversation_id connection) (\<lambda>_. throw e))"

definition registry_join ::
    "'s connection_manager \<Rightarrow> 's conversation_subscriber \<Rightarrow> conversation_id \<Rightarrow> connection \<Rightarrow> (unit, 's) op" where
  "registry_join manager subscriber conversation_id connection =
     bindp (man_register manager conversation_id connection) (\<lambda>first.
     if \<not> first then ret () else join_subscribe manager subscriber conversation_id connection)"

definition registry_leave ::
    "'s connection_manager \<Rightarrow> 's conversation_subscriber \<Rightarrow> conversation_id \<Rightarrow> connection \<Rightarrow> (unit, 's) op" where
  "registry_leave manager subscriber conversation_id connection =
     bindp (man_unregister manager conversation_id connection) (\<lambda>last.
     if last then sub_unsubscribe subscriber conversation_id else ret ())"

subsection \<open>The contract\<close>

text \<open>
  \<open>members s cid\<close>: the sockets of a conversation; \<open>wanted s\<close>: the conversations the subscriber is to
  receive. The manager reports the first and the last socket of a conversation; the subscriber adds a
  conversation only when subscribing succeeded, and forgets it whether or not unsubscribing did.
\<close>

locale conversation_fanout =
  fixes manager :: "'s connection_manager" and subscriber :: "'s conversation_subscriber"
    and ok :: "'s \<Rightarrow> bool" and members :: "'s \<Rightarrow> conversation_id \<Rightarrow> connection set"
    and wanted :: "'s \<Rightarrow> conversation_id set"
  assumes register_law:
      "ok s \<Longrightarrow> \<exists>s'. man_register manager cid c s = (Inr (members s cid = {}), s') \<and> ok s' \<and>
        members s' = (members s)(cid := insert c (members s cid)) \<and> wanted s' = wanted s"
    and unregister_law:
      "ok s \<Longrightarrow> \<exists>s'. man_unregister manager cid c s =
          (Inr (members s cid \<noteq> {} \<and> members s cid \<subseteq> {c}), s') \<and> ok s' \<and>
        members s' = (members s)(cid := members s cid - {c}) \<and> wanted s' = wanted s"
    and subscribe_law:
      "ok s \<Longrightarrow> sub_subscribe subscriber cid s = (r, s') \<Longrightarrow> ok s' \<and> members s' = members s \<and>
        wanted s' = (case r of Inl _ \<Rightarrow> wanted s | Inr _ \<Rightarrow> insert cid (wanted s))"
    and unsubscribe_law:
      "ok s \<Longrightarrow> sub_unsubscribe subscriber cid s = (r, s') \<Longrightarrow> ok s' \<and> members s' = members s \<and>
        wanted s' = wanted s - {cid}"
begin

definition live :: "'s \<Rightarrow> conversation_id set" where
  "live s = {cid. members s cid \<noteq> {}}"

lemma join_subscribe_step:
  assumes "ok s" and "join_subscribe manager subscriber cid c s = (r, s')"
  shows "ok s' \<and> (case r of
      Inr _ \<Rightarrow> members s' = members s \<and> wanted s' = insert cid (wanted s)
    | Inl _ \<Rightarrow> members s' = (members s)(cid := members s cid - {c}) \<and> wanted s' = wanted s)"
proof -
  obtain q s2 where sub: "sub_subscribe subscriber cid s = (q, s2)" by (cases "sub_subscribe subscriber cid s")
  note s2 = subscribe_law [OF assms(1) sub]
  show ?thesis
  proof (cases q)
    case (Inr x)
    with assms(2) s2 sub show ?thesis by (auto simp: join_subscribe_def proc_simps)
  next
    case (Inl e)
    obtain s3 where s3: "man_unregister manager cid c s2 = (Inr (members s2 cid \<noteq> {} \<and> members s2 cid \<subseteq> {c}), s3)"
      "ok s3" "members s3 = (members s2)(cid := members s2 cid - {c})" "wanted s3 = wanted s2"
      using unregister_law [of s2 cid c] s2 by blast
    have "r = Inl e" "s' = s3" using assms(2) sub s3(1) Inl by (auto simp: join_subscribe_def proc_simps)
    with s3 s2 Inl show ?thesis by simp
  qed
qed

lemma join_step:
  assumes "ok s" and "registry_join manager subscriber cid c s = (r, s')"
  shows "ok s' \<and> (case r of
      Inr _ \<Rightarrow> members s' = (members s)(cid := insert c (members s cid)) \<and>
        wanted s' = (if members s cid = {} then insert cid (wanted s) else wanted s)
    | Inl _ \<Rightarrow> members s cid = {} \<and> members s' = members s \<and> wanted s' = wanted s)"
proof -
  obtain s1 where s1: "man_register manager cid c s = (Inr (members s cid = {}), s1)" "ok s1"
    "members s1 = (members s)(cid := insert c (members s cid))" "wanted s1 = wanted s"
    using register_law [OF assms(1)] by blast
  show ?thesis
  proof (cases "members s cid = {}")
    case False
    with assms(2) s1 show ?thesis by (auto simp: registry_join_def proc_simps)
  next
    case True
    with assms(2) s1(1) have "join_subscribe manager subscriber cid c s1 = (r, s')"
      by (simp add: registry_join_def bindp_def)
    from join_subscribe_step [OF s1(2) this] s1 True show ?thesis
      by (cases r) (auto simp: fun_eq_iff)
  qed
qed

lemma leave_step:
  assumes "ok s" and "registry_leave manager subscriber cid c s = (r, s')"
  shows "ok s' \<and> members s' = (members s)(cid := members s cid - {c}) \<and>
    wanted s' = (if members s cid \<noteq> {} \<and> members s cid \<subseteq> {c} then wanted s - {cid} else wanted s)"
proof -
  obtain s1 where s1: "man_unregister manager cid c s = (Inr (members s cid \<noteq> {} \<and> members s cid \<subseteq> {c}), s1)"
    "ok s1" "members s1 = (members s)(cid := members s cid - {c})" "wanted s1 = wanted s"
    using unregister_law [OF assms(1)] by blast
  obtain q s2 where sub: "sub_unsubscribe subscriber cid s1 = (q, s2)" by (cases "sub_unsubscribe subscriber cid s1")
  note s2 = unsubscribe_law [OF s1(2) sub]
  have leave: "registry_leave manager subscriber cid c s =
      (if members s cid \<noteq> {} \<and> members s cid \<subseteq> {c} then (q, s2) else (Inr (), s1))"
    by (simp only: registry_leave_def bindp_def s1(1) prod.case sum.case) (simp add: ret_def sub)
  show ?thesis
  proof (cases "members s cid \<noteq> {} \<and> members s cid \<subseteq> {c}")
    case True
    with leave assms(2) have "s' = s2" by simp
    with True s1(3,4) s2 show ?thesis by simp
  next
    case False
    with leave assms(2) have "s' = s1" by (simp only: if_False prod.inject)
    with False s1(2-4) show ?thesis by (simp only: if_False simp_thms)
  qed
qed

text \<open>Every conversation with a local socket is wanted; as long as sockets leave only by \<open>leave\<close>, no
  other one is.\<close>

lemma join_covers: "ok s \<Longrightarrow> live s \<subseteq> wanted s \<Longrightarrow> registry_join manager subscriber cid c s = (r, s') \<Longrightarrow>
    live s' \<subseteq> wanted s'"
  using join_step [of s cid c r s'] by (cases r) (auto simp: live_def split: if_splits)

lemma leave_covers: "ok s \<Longrightarrow> live s \<subseteq> wanted s \<Longrightarrow> registry_leave manager subscriber cid c s = (r, s') \<Longrightarrow>
    live s' \<subseteq> wanted s'"
  using leave_step [of s cid c r s'] by (auto simp: live_def split: if_splits)

lemma join_exact: "ok s \<Longrightarrow> live s = wanted s \<Longrightarrow> registry_join manager subscriber cid c s = (r, s') \<Longrightarrow>
    live s' = wanted s'"
  using join_step [of s cid c r s'] by (cases r) (auto simp: live_def split: if_splits)

lemma leave_exact: "ok s \<Longrightarrow> live s = wanted s \<Longrightarrow> registry_leave manager subscriber cid c s = (r, s') \<Longrightarrow>
    live s' = wanted s'"
  using leave_step [of s cid c r s'] by (auto simp: live_def split: if_splits)

end

subsection \<open>The replica\<close>

definition replica_manager :: "replica connection_manager" where
  "replica_manager = \<lparr>man_register = register, man_unregister = unregister\<rparr>"

definition replica_subscriber :: "replica conversation_subscriber" where
  "replica_subscriber = \<lparr>sub_subscribe = subscribe, sub_unsubscribe = unsubscribe\<rparr>"

definition join :: "conversation_id \<Rightarrow> connection \<Rightarrow> (unit, replica) op" where
  "join = registry_join replica_manager replica_subscriber"

definition leave :: "conversation_id \<Rightarrow> connection \<Rightarrow> (unit, replica) op" where
  "leave = registry_leave replica_manager replica_subscriber"

text \<open>No conversation is kept with an empty set of connections.\<close>

definition replica_ok :: "replica \<Rightarrow> bool" where
  "replica_ok r = (\<forall>cs \<in> ran (rp_connections r). cs \<noteq> [] \<and> distinct cs)"

definition sockets_of :: "replica \<Rightarrow> conversation_id \<Rightarrow> connection list" where
  "sockets_of r cid = (case rp_connections r cid of None \<Rightarrow> [] | Some cs \<Rightarrow> cs)"

definition members :: "replica \<Rightarrow> conversation_id \<Rightarrow> connection set" where
  "members r cid = set (sockets_of r cid)"

definition wanted :: "replica \<Rightarrow> conversation_id set" where
  "wanted r = {cid. conversation_channel cid \<in> rp_channels r}"

lemma members_eqI: "rp_connections r' = rp_connections r \<Longrightarrow> members r' = members r"
  by (rule ext) (simp add: members_def sockets_of_def)

lemma members_channels [simp]: "members (r\<lparr>rp_channels := X\<rparr>) = members r"
  by (rule members_eqI) simp

lemma replica_okD:
  "replica_ok r \<Longrightarrow> rp_connections r cid = Some cs \<Longrightarrow> cs \<noteq> [] \<and> distinct cs"
  by (auto simp: replica_ok_def ran_def)

lemma replica_ok_upd:
  "replica_ok r \<Longrightarrow> cs \<noteq> [] \<Longrightarrow> distinct cs \<Longrightarrow> replica_ok (r\<lparr>rp_connections := (rp_connections r)(cid \<mapsto> cs)\<rparr>)"
  by (auto simp: replica_ok_def ran_def)

lemma replica_ok_del: "replica_ok r \<Longrightarrow> replica_ok (r\<lparr>rp_connections := (rp_connections r)(cid := None)\<rparr>)"
  by (auto simp: replica_ok_def ran_def)

lemma redis_call_frame:
  assumes "\<And>r. rp_connections (f r) = rp_connections r \<and> rp_channels (f r) = rp_channels r \<and>
      rp_sockets (f r) = rp_sockets r \<and> rp_reader (f r) = rp_reader r \<and> rp_running (f r) = rp_running r"
    and "redis_call f r = (x, r')"
  shows "rp_connections r' = rp_connections r \<and> rp_channels r' = rp_channels r \<and> rp_sockets r' = rp_sockets r \<and>
    rp_reader r' = rp_reader r \<and> rp_running r' = rp_running r"
  using assms by (auto simp: redis_call_def Let_def split: list.splits redis_fault.splits)

lemma register_facts:
  assumes "replica_ok r" and "register cid c r = (x, r')"
  shows "x = Inr (members r cid = {}) \<and> replica_ok r' \<and>
    members r' = (members r)(cid := insert c (members r cid)) \<and> wanted r' = wanted r"
proof -
  let ?cs = "if c \<in> set (sockets_of r cid) then sockets_of r cid else sockets_of r cid @ [c]"
  have r': "x = Inr (sockets_of r cid = [])" "r' = r\<lparr>rp_connections := (rp_connections r)(cid \<mapsto> ?cs)\<rparr>"
    using assms(2) by (auto simp: register_def sockets_of_def Let_def split: option.splits)
  have "distinct (sockets_of r cid)" using replica_okD [OF assms(1)] by (auto simp: sockets_of_def split: option.split)
  then have "replica_ok r'" unfolding r' by (intro replica_ok_upd assms(1)) auto
  moreover have "sockets_of r' = (sockets_of r)(cid := ?cs)" by (auto simp: r' sockets_of_def)
  ultimately show ?thesis by (auto simp: members_def wanted_def r' fun_eq_iff)
qed

lemma unregister_facts:
  assumes "replica_ok r" and "unregister cid c r = (x, r')"
  shows "x = Inr (members r cid \<noteq> {} \<and> members r cid \<subseteq> {c}) \<and> replica_ok r' \<and>
    members r' = (members r)(cid := members r cid - {c}) \<and> wanted r' = wanted r \<and>
    r' = r\<lparr>rp_connections := rp_connections r'\<rparr>"
proof (cases "rp_connections r cid")
  case None
  with assms show ?thesis by (auto simp: unregister_def members_def sockets_of_def fun_eq_iff)
next
  case (Some cs)
  note cs = replica_okD [OF assms(1) Some]
  have rm: "set (remove1 c cs) = set cs - {c}" using cs by simp
  then have "(remove1 c cs = []) = (set cs \<subseteq> {c})" by (metis Diff_eq_empty_iff set_empty)
  with assms Some cs rm replica_ok_upd [OF assms(1), of "remove1 c cs" cid] replica_ok_del [OF assms(1), of cid]
  show ?thesis
    by (auto simp: unregister_def members_def sockets_of_def wanted_def fun_eq_iff Let_def split: if_splits)
qed

interpretation rg: conversation_fanout replica_manager replica_subscriber replica_ok members wanted
proof
  fix r cid c
  assume "replica_ok r"
  then show "\<exists>r'. man_register replica_manager cid c r = (Inr (members r cid = {}), r') \<and> replica_ok r' \<and>
      members r' = (members r)(cid := insert c (members r cid)) \<and> wanted r' = wanted r"
    using register_facts [of r cid c] by (cases "register cid c r") (auto simp: replica_manager_def)
next
  fix r cid c
  assume "replica_ok r"
  then show "\<exists>r'. man_unregister replica_manager cid c r =
        (Inr (members r cid \<noteq> {} \<and> members r cid \<subseteq> {c}), r') \<and> replica_ok r' \<and>
      members r' = (members r)(cid := members r cid - {c}) \<and> wanted r' = wanted r"
    using unregister_facts [of r cid c] by (cases "unregister cid c r") (auto simp: replica_manager_def)
next
  fix r r' cid x
  assume ok: "replica_ok r" and run: "sub_subscribe replica_subscriber cid r = (x, r')"
  obtain y r1 where call: "pubsub_subscribe (conversation_channel cid) r = (y, r1)"
    by (cases "pubsub_subscribe (conversation_channel cid) r")
  have frame: "rp_connections r1 = rp_connections r" "rp_channels r1 = rp_channels r"
    using redis_call_frame [OF _ call [unfolded pubsub_subscribe_def]] by auto
  have sub: "(x, r') = (case y of Inl e \<Rightarrow> (Inl e, r1)
      | Inr _ \<Rightarrow> (Inr (), r1\<lparr>rp_channels := insert (conversation_channel cid) (rp_channels r1)\<rparr>))"
    using run call by (simp add: replica_subscriber_def subscribe_def thenp_def bindp_def split: sum.splits)
  show "replica_ok r' \<and> members r' = members r \<and>
      wanted r' = (case x of Inl _ \<Rightarrow> wanted r | Inr _ \<Rightarrow> insert cid (wanted r))"
  proof (cases y)
    case (Inl e)
    with sub have "x = Inl e" "r' = r1" by simp_all
    with ok frame show ?thesis by (simp add: replica_ok_def wanted_def members_eqI [OF frame(1)])
  next
    case (Inr u)
    with sub have "x = Inr ()" "r' = r1\<lparr>rp_channels := insert (conversation_channel cid) (rp_channels r1)\<rparr>" by simp_all
    with ok show ?thesis
      by (auto simp: replica_ok_def wanted_def frame members_eqI [OF frame(1)])
  qed
next
  fix r r' cid x
  assume ok: "replica_ok r" and run: "sub_unsubscribe replica_subscriber cid r = (x, r')"
  let ?r = "r\<lparr>rp_channels := rp_channels r - {conversation_channel cid}\<rparr>"
  from run have call: "redis_call (\<lambda>r. r\<lparr>rp_pubsub := rp_pubsub r - {conversation_channel cid}\<rparr>) ?r = (x, r')"
    by (simp add: replica_subscriber_def unsubscribe_def pubsub_unsubscribe_def)
  have frame: "rp_connections r' = rp_connections r" "rp_channels r' = rp_channels r - {conversation_channel cid}"
    using redis_call_frame [OF _ call] by auto
  with ok show "replica_ok r' \<and> members r' = members r \<and> wanted r' = wanted r - {cid}"
    by (auto simp: replica_ok_def wanted_def frame members_eqI [OF frame(1)])
qed

end
