(* ===== verification/Delivery.thy ===== *)
theory Delivery
  imports Registry
begin

section \<open>Delivery on one replica\<close>

text \<open>
  What a broadcast does to the sockets and the registrations of a replica, what a turn of the reader
  task does with a payload, and the invariant of a replica under every operation, whatever runs between
  the awaits of another and whenever the pub/sub connection is lost: a conversation with a socket is
  wanted, but for the one whose first socket is being joined, and while the reader lives and the
  connection is up, what is wanted is subscribed.
\<close>

definition writable :: "socket \<Rightarrow> bool" where
  "writable s = (\<not> so_dead s \<and> so_closed s = None)"

definition push_frame :: "json \<Rightarrow> socket \<Rightarrow> socket" where
  "push_frame frame s = (if writable s then s\<lparr>so_sent := so_sent s @ [frame]\<rparr> else s)"

lemma writable_push [simp]: "writable (push_frame frame s) = writable s"
  by (simp add: push_frame_def writable_def)

lemma connection_send_eq:
  "connection_send c frame r =
     (if writable (rp_sockets r c) then Inr () else Inl (write_error (rp_sockets r c)),
      r\<lparr>rp_sockets := (rp_sockets r)(c := push_frame frame (rp_sockets r c))\<rparr>)"
  by (simp add: connection_send_def push_frame_def writable_def Let_def)

lemma send_all_eq:
  "distinct cs \<Longrightarrow> send_all cs frame r =
     (filter (\<lambda>c. \<not> writable (rp_sockets r c)) cs,
      r\<lparr>rp_sockets := \<lambda>c. if c \<in> set cs then push_frame frame (rp_sockets r c) else rp_sockets r c\<rparr>)"
proof (induction cs arbitrary: r)
  case Nil
  then show ?case by simp
next
  case (Cons c cs)
  let ?r = "r\<lparr>rp_sockets := (rp_sockets r)(c := push_frame frame (rp_sockets r c))\<rparr>"
  have filt: "filter (\<lambda>x. \<not> writable (rp_sockets ?r x)) cs = filter (\<lambda>x. \<not> writable (rp_sockets r x)) cs"
    by (rule filter_cong) auto
  have upd: "?r\<lparr>rp_sockets := \<lambda>x. if x \<in> set cs then push_frame frame (rp_sockets ?r x) else rp_sockets ?r x\<rparr> =
      r\<lparr>rp_sockets := \<lambda>x. if x \<in> set (c # cs) then push_frame frame (rp_sockets r x) else rp_sockets r x\<rparr>"
    using Cons.prems by (auto simp: fun_eq_iff)
  show ?case
    using Cons.IH [of ?r] Cons.prems filt upd by (simp add: connection_send_eq split: sum.split)
qed

lemma drop_all_facts:
  assumes "replica_ok r"
  shows "replica_ok (drop_all cid dead r) \<and>
    members (drop_all cid dead r) = (members r)(cid := members r cid - set dead) \<and>
    drop_all cid dead r = r\<lparr>rp_connections := rp_connections (drop_all cid dead r)\<rparr>"
  using assms
proof (induction dead arbitrary: r)
  case Nil
  then show ?case by simp
next
  case (Cons c dead)
  obtain x r1 where u: "unregister cid c r = (x, r1)" by (cases "unregister cid c r")
  note f = unregister_facts [OF Cons.prems u]
  then have r1: "replica_ok r1" "members r1 = (members r)(cid := members r cid - {c})"
    "r1 = r\<lparr>rp_connections := rp_connections r1\<rparr>" by blast+
  note ih = Cons.IH [OF r1(1)]
  have "drop_all cid (c # dead) r = drop_all cid dead r1" by (simp add: u)
  moreover have "members (drop_all cid dead r1) = (members r)(cid := members r cid - set (c # dead))"
    using ih by (simp only: r1(2)) (auto simp: fun_eq_iff)
  moreover have "drop_all cid dead r1 = r\<lparr>rp_connections := rp_connections (drop_all cid dead r1)\<rparr>"
  proof -
    have "drop_all cid dead r1 = r1\<lparr>rp_connections := rp_connections (drop_all cid dead r1)\<rparr>" using ih by blast
    also have "\<dots> = r\<lparr>rp_connections := rp_connections (drop_all cid dead r1)\<rparr>"
      by (subst r1(3)) simp
    finally show ?thesis .
  qed
  ultimately show ?case using ih by simp
qed

lemma broadcast_facts:
  assumes "replica_ok r"
  shows "\<exists>r'. local_broadcast cid m r = (Inr (), r') \<and> replica_ok r' \<and>
    members r' = (members r)(cid := {c \<in> members r cid. writable (rp_sockets r c)}) \<and>
    r' = r\<lparr>rp_sockets := \<lambda>c. if c \<in> members r cid then push_frame (message_new m) (rp_sockets r c) else rp_sockets r c,
           rp_connections := rp_connections r'\<rparr>"
proof (cases "rp_connections r cid")
  case None
  then show ?thesis using assms
    by (simp add: local_broadcast_def members_def sockets_of_def fun_eq_iff)
next
  case (Some cs)
  note cs = replica_okD [OF assms Some]
  have mem: "members r cid = set cs" by (simp add: members_def sockets_of_def Some)
  let ?dead = "filter (\<lambda>c. \<not> writable (rp_sockets r c)) cs"
  let ?r = "r\<lparr>rp_sockets := \<lambda>c. if c \<in> set cs then push_frame (message_new m) (rp_sockets r c) else rp_sockets r c\<rparr>"
  have ok: "replica_ok ?r" using assms by (simp add: replica_ok_def)
  have same: "members ?r = members r" by (rule members_eqI) simp
  note f = drop_all_facts [OF ok, of cid ?dead]
  have left: "set cs - set ?dead = {c \<in> set cs. writable (rp_sockets r c)}" by auto
  have "local_broadcast cid m r = (Inr (), drop_all cid ?dead ?r)"
    using cs by (simp add: local_broadcast_def Some send_all_eq)
  moreover have "members (drop_all cid ?dead ?r) = (members r)(cid := {c \<in> members r cid. writable (rp_sockets r c)})"
    using f unfolding same mem left by blast
  moreover have "drop_all cid ?dead ?r = ?r\<lparr>rp_connections := rp_connections (drop_all cid ?dead ?r)\<rparr>" using f by blast
  ultimately show ?thesis using f unfolding mem by blast
qed

subsection \<open>Reconnecting\<close>

definition pubsub_only :: "replica \<Rightarrow> replica \<Rightarrow> bool" where
  "pubsub_only r r' =
     (rp_sockets r' = rp_sockets r \<and> rp_connections r' = rp_connections r \<and> rp_channels r' = rp_channels r \<and>
      rp_running r' = rp_running r \<and> rp_reader r' = rp_reader r \<and> rp_link r' = rp_link r \<and> rp_registry r' = rp_registry r)"

lemma subscribe_each_facts:
  assumes "for_each order pubsub_subscribe r = (x, r')"
  shows "pubsub_only r r' \<and> (x = Inr () \<longrightarrow> rp_pubsub r' = rp_pubsub r \<union> set order)"
  using assms
proof (induction order arbitrary: r)
  case Nil
  then show ?case by (simp add: ret_def pubsub_only_def)
next
  case (Cons c order)
  obtain y r1 where y: "pubsub_subscribe c r = (y, r1)" by (cases "pubsub_subscribe c r")
  have r1: "pubsub_only r r1 \<and> (y = Inr () \<longrightarrow> rp_pubsub r1 = insert c (rp_pubsub r))"
    using y by (auto simp: pubsub_only_def pubsub_subscribe_def redis_call_def Let_def split: list.splits redis_fault.splits)
  show ?case
  proof (cases y)
    case (Inl e)
    with Cons.prems y have "x = Inl e" "r' = r1" by (simp_all add: thenp_def bindp_def)
    with r1 show ?thesis by simp
  next
    case (Inr u)
    with Cons.prems y have "for_each order pubsub_subscribe r1 = (x, r')" by (simp add: thenp_def bindp_def)
    from Cons.IH [OF this] r1 Inr show ?thesis by (auto simp: pubsub_only_def)
  qed
qed

lemma reconnect_facts:
  assumes "reconnect order r = (x, r')"
  shows "pubsub_only r r' \<and> (x = Inr () \<longrightarrow> rp_pubsub r' = set order)"
proof -
  obtain y r1 where y: "pubsub_aclose r = (y, r1)" by (cases "pubsub_aclose r")
  have r1: "pubsub_only r r1"
    using y by (auto simp: pubsub_only_def pubsub_aclose_def redis_call_def Let_def split: list.splits redis_fault.splits)
  have "for_each order pubsub_subscribe (r1\<lparr>rp_pubsub := {}\<rparr>) = (x, r')"
    using assms y by (auto simp: reconnect_def thenp_def bindp_def try_except_def ret_def split: sum.splits)
  from subscribe_each_facts [OF this] r1 show ?thesis by (simp add: pubsub_only_def)
qed

subsection \<open>The steps of a replica\<close>

text \<open>
  Every operation of the manager, the subscriber and the registry, cut where it awaits something that
  lets others run: a join registers the socket and takes the registry's lock, and awaits the subscriber
  with it; a leave likewise; a failing read and the re-subscription are two steps, with the back-off
  between them. Beside them the sockets die, calls to Redis fail, and the pub/sub connection is lost, with
  all that was subscribed on it. redis-py re-subscribes by itself what a connection had when a call makes
  it reconnect, so a lost connection may also come back without \<open>_reconnect\<close>.
\<close>

definition lose_connection :: "replica \<Rightarrow> replica" where
  "lose_connection r = r\<lparr>rp_link := (if rp_link r = Up then Lost else rp_link r), rp_pubsub := {}\<rparr>"

inductive replica_step :: "replica \<Rightarrow> replica \<Rightarrow> bool" where
  join_registers: "rp_registry r = Unlocked \<Longrightarrow> register cid c r = (Inr first, r') \<Longrightarrow>
    replica_step r (if first then r'\<lparr>rp_registry := Joining cid c\<rparr> else r')"
| join_subscribes: "rp_registry r = Joining cid c \<Longrightarrow>
    join_subscribe replica_manager replica_subscriber cid c r = (x, r') \<Longrightarrow> replica_step r (r'\<lparr>rp_registry := Unlocked\<rparr>)"
| leave_unregisters: "rp_registry r = Unlocked \<Longrightarrow> unregister cid c r = (Inr final, r') \<Longrightarrow>
    replica_step r (if final then r'\<lparr>rp_registry := Unsubscribing cid\<rparr> else r')"
| leave_unsubscribes: "rp_registry r = Unsubscribing cid \<Longrightarrow> unsubscribe cid r = (x, r') \<Longrightarrow>
    replica_step r (r'\<lparr>rp_registry := Unlocked\<rparr>)"
| reads: "replica_step r (read_turn read r)"
| reconnects: "distinct order \<Longrightarrow> set order = rp_channels r \<Longrightarrow> replica_step r (reconnect_turn order r)"
| loses: "replica_step r (lose_connection r)"
| restores: "rp_link r = Lost \<Longrightarrow> rp_reader r \<Longrightarrow> rp_channels r \<subseteq> subscribed \<Longrightarrow>
    replica_step r (r\<lparr>rp_link := Up, rp_pubsub := subscribed\<rparr>)"
| send: "connection_send c frame r = (x, r') \<Longrightarrow> replica_step r r'"
| closes: "connection_close status c r = (x, r') \<Longrightarrow> replica_step r r'"
| dies: "replica_step r (r\<lparr>rp_sockets := (rp_sockets r)(c := (rp_sockets r c)\<lparr>so_dead := True\<rparr>)\<rparr>)"
| drains: "replica_step r (close_all status cids r)"
| stops: "subscriber_stop r = (x, r') \<Longrightarrow> replica_step r r'"
| faults: "replica_step r (r\<lparr>rp_faults := fs\<rparr>)"

inductive_cases replica_stepE: "replica_step r r'"

text \<open>The conversation whose first socket waits for its subscription, and what the lock says of the sockets.\<close>

fun joining :: "registry_lock \<Rightarrow> conversation_id set" where
  "joining (Joining cid c) = {cid}"
| "joining _ = {}"

fun lock_ok :: "registry_lock \<Rightarrow> (conversation_id \<Rightarrow> connection set) \<Rightarrow> bool" where
  "lock_ok (Joining cid c) sockets = (sockets cid \<subseteq> {c})"
| "lock_ok (Unsubscribing cid) sockets = (sockets cid = {})"
| "lock_ok Unlocked sockets = True"

definition replica_inv :: "replica \<Rightarrow> bool" where
  "replica_inv r =
     (replica_ok r \<and> rg.live r \<subseteq> wanted r \<union> joining (rp_registry r) \<and> lock_ok (rp_registry r) (members r) \<and>
      (rp_reader r \<longrightarrow> rp_link r = Up \<longrightarrow> rp_channels r \<subseteq> rp_pubsub r))"

lemma live_eq: "rg.live r = {cid. members r cid \<noteq> {}}"
  by (simp add: rg.live_def)

lemma started_inv: "replica_inv (subscriber_start new_replica)"
  by (simp add: replica_inv_def subscriber_start_def replica_ok_def new_replica_def live_eq members_def sockets_of_def)

lemma invD:
  assumes "replica_inv r"
  shows "replica_ok r" "members r cid \<noteq> {} \<Longrightarrow> cid \<in> wanted r \<or> cid \<in> joining (rp_registry r)"
    "lock_ok (rp_registry r) (members r)" "rp_reader r \<Longrightarrow> rp_link r = Up \<Longrightarrow> rp_channels r \<subseteq> rp_pubsub r"
  using assms by (auto simp: replica_inv_def live_eq)

lemma inv_frame:
  assumes "replica_inv r" and "rp_connections r' = rp_connections r" and "rp_channels r' = rp_channels r"
    and "rp_registry r' = rp_registry r"
    and "rp_reader r' \<longrightarrow> rp_link r' = Up \<longrightarrow> rp_channels r \<subseteq> rp_pubsub r'"
  shows "replica_inv r'"
  using assms members_eqI [OF assms(2)]
  by (simp add: replica_inv_def replica_ok_def live_eq wanted_def)

text \<open>What registering and subscribing leave alone.\<close>

definition reader_frame :: "replica \<Rightarrow> replica \<Rightarrow> bool" where
  "reader_frame r r' =
     (rp_reader r' = rp_reader r \<and> rp_running r' = rp_running r \<and> rp_link r' = rp_link r \<and> rp_registry r' = rp_registry r \<and>
      rp_failure r' = rp_failure r \<and> rp_sockets r' = rp_sockets r)"

lemma register_frame:
  "register cid c r = (x, r') \<Longrightarrow> reader_frame r r' \<and> rp_channels r' = rp_channels r \<and> rp_pubsub r' = rp_pubsub r"
  "unregister cid c r = (x, r') \<Longrightarrow> reader_frame r r' \<and> rp_channels r' = rp_channels r \<and> rp_pubsub r' = rp_pubsub r"
  by (auto simp: reader_frame_def register_def unregister_def Let_def split: option.splits if_splits)

lemma subscription_frame:
  assumes "join_subscribe replica_manager replica_subscriber cid c r = (x, r') \<or> unsubscribe cid r = (x, r')"
  shows "reader_frame r r' \<and> (rp_channels r \<subseteq> rp_pubsub r \<longrightarrow> rp_channels r' \<subseteq> rp_pubsub r')"
  using assms
  by (auto simp: reader_frame_def join_subscribe_def replica_manager_def replica_subscriber_def
      unregister_def subscribe_def unsubscribe_def pubsub_subscribe_def pubsub_unsubscribe_def
      redis_call_def proc_simps Let_def split: option.splits if_splits list.splits redis_fault.splits)

lemma join_leave_frame:
  "join cid c r = (x, r') \<Longrightarrow> reader_frame r r'" "leave cid c r = (x, r') \<Longrightarrow> reader_frame r r'"
  by (auto simp: reader_frame_def join_def leave_def registry_join_def registry_leave_def join_subscribe_def
      replica_manager_def replica_subscriber_def register_def unregister_def subscribe_def unsubscribe_def
      pubsub_subscribe_def pubsub_unsubscribe_def redis_call_def proc_simps Let_def
      split: option.splits if_splits list.splits redis_fault.splits)

lemma deliver_facts:
  assumes "replica_ok r"
  shows "\<exists>r'. deliver data r = (Inr (), r') \<and> replica_ok r' \<and> (\<forall>cid. members r' cid \<subseteq> members r cid) \<and>
    rp_channels r' = rp_channels r \<and> rp_pubsub r' = rp_pubsub r \<and> rp_running r' = rp_running r \<and>
    rp_reader r' = rp_reader r \<and> rp_link r' = rp_link r \<and> rp_registry r' = rp_registry r"
proof (cases "decode data")
  case (Inl e)
  with assms show ?thesis by (simp add: deliver_def ret_def)
next
  case (Inr m)
  from broadcast_facts [OF assms, of "m_conversation_id m" m] obtain r' where
    r': "local_broadcast (m_conversation_id m) m r = (Inr (), r')" "replica_ok r'"
      "members r' = (members r)(m_conversation_id m := {c \<in> members r (m_conversation_id m). writable (rp_sockets r c)})"
    and frame: "r' = r\<lparr>rp_sockets := \<lambda>c. if c \<in> members r (m_conversation_id m) then push_frame (message_new m) (rp_sockets r c)
        else rp_sockets r c, rp_connections := rp_connections r'\<rparr>" by blast
  have "rp_channels r' = rp_channels r \<and> rp_pubsub r' = rp_pubsub r \<and> rp_running r' = rp_running r \<and>
      rp_reader r' = rp_reader r \<and> rp_link r' = rp_link r \<and> rp_registry r' = rp_registry r"
    by (subst (1 2 3 4 5 6) frame) simp
  with r' Inr show ?thesis by (auto simp: deliver_def)
qed

lemma lock_shrinks: "lock_ok l sockets \<Longrightarrow> (\<And>cid. sockets' cid \<subseteq> sockets cid) \<Longrightarrow> lock_ok l sockets'"
  by (cases l) fastforce+

lemma broadcast_inv:
  assumes "replica_inv r" and "local_broadcast cid m r = (x, r')"
  shows "x = Inr () \<and> replica_inv r'"
proof -
  note inv = invD [OF assms(1)]
  from broadcast_facts [OF inv(1), of cid m] assms(2) have r': "x = Inr ()" "replica_ok r'"
      "members r' = (members r)(cid := {c \<in> members r cid. writable (rp_sockets r c)})"
    and frame: "r' = r\<lparr>rp_sockets := \<lambda>c. if c \<in> members r cid then push_frame (message_new m) (rp_sockets r c)
        else rp_sockets r c, rp_connections := rp_connections r'\<rparr>" by auto
  have same: "rp_channels r' = rp_channels r" "rp_pubsub r' = rp_pubsub r" "rp_reader r' = rp_reader r"
    "rp_link r' = rp_link r" "rp_registry r' = rp_registry r"
    by (subst frame, simp)+
  have fewer: "members r' cid' \<subseteq> members r cid'" for cid' using r'(3) by auto
  have "lock_ok (rp_registry r) (members r')" using fewer by (intro lock_shrinks [OF inv(3)]) simp
  moreover have "rg.live r' \<subseteq> rg.live r" using fewer by (auto simp: live_eq)
  moreover have "rg.live r \<subseteq> wanted r \<union> joining (rp_registry r)" using assms(1) by (simp add: replica_inv_def)
  moreover have "wanted r' = wanted r" using same(1) by (simp add: wanted_def)
  ultimately show ?thesis using r'(1,2) same inv(4) by (simp add: replica_inv_def)
qed

lemma read_inv:
  assumes "replica_inv r"
  shows "replica_inv (read_turn read r)"
proof (cases "\<exists>data. at_read r \<and> read = Payload data")
  case False
  then have "read_turn read r = r \<or> read_turn read r = r\<lparr>rp_link := Rebuilding\<rparr>"
    by (cases read) (auto simp: read_turn_def)
  then show ?thesis
  proof
    assume "read_turn read r = r\<lparr>rp_link := Rebuilding\<rparr>"
    then show ?thesis by (intro inv_frame [OF assms]) simp_all
  qed (use assms in simp)
next
  case True
  then obtain data where read: "at_read r" "read = Payload data" by blast
  show ?thesis
  proof (cases "decode data")
    case (Inl e)
    with read assms show ?thesis by (simp add: read_turn_def deliver_def ret_def)
  next
    case (Inr m)
    obtain x r' where x: "local_broadcast (m_conversation_id m) m r = (x, r')"
      by (cases "local_broadcast (m_conversation_id m) m r")
    from broadcast_inv [OF assms x] x read Inr show ?thesis by (simp add: read_turn_def deliver_def)
  qed
qed

lemma reconnect_inv:
  assumes "replica_inv r" and "set order = rp_channels r"
  shows "replica_inv (reconnect_turn order r)"
proof (cases "\<not> rp_running r \<or> \<not> rp_reader r \<or> rp_link r \<noteq> Rebuilding")
  case True
  with assms(1) show ?thesis by (simp add: reconnect_turn_def)
next
  case False
  obtain x r' where x: "reconnect order r = (x, r')" by (cases "reconnect order r")
  with False have "reconnect_turn order r =
      (case x of Inl e \<Rightarrow> r'\<lparr>rp_reader := False, rp_failure := Some e\<rparr> | Inr _ \<Rightarrow> r'\<lparr>rp_link := Up\<rparr>)"
    by (simp add: reconnect_turn_def split: sum.split)
  with reconnect_facts [OF x] assms(2) show ?thesis
    by (intro inv_frame [OF assms(1)]) (cases x; simp add: pubsub_only_def)+
qed

lemma lock_update [simp]:
  "replica_ok (r\<lparr>rp_registry := l\<rparr>) = replica_ok r" "members (r\<lparr>rp_registry := l\<rparr>) = members r"
  "wanted (r\<lparr>rp_registry := l\<rparr>) = wanted r"
  by (simp_all add: replica_ok_def wanted_def members_def sockets_of_def fun_eq_iff)

lemma inv_lock:
  assumes "replica_ok r" and "\<And>cid. members r cid \<noteq> {} \<Longrightarrow> cid \<in> wanted r \<or> cid \<in> joining l" and "lock_ok l (members r)"
    and "rp_reader r \<Longrightarrow> rp_link r = Up \<Longrightarrow> rp_channels r \<subseteq> rp_pubsub r"
  shows "replica_inv (r\<lparr>rp_registry := l\<rparr>)"
  using assms by (auto simp: replica_inv_def live_eq)

lemma inv_unchanged: "replica_inv (r\<lparr>rp_registry := rp_registry r\<rparr>) = replica_inv r"
  by (cases r) simp

lemma register_inv:
  assumes "replica_inv r" and "rp_registry r = Unlocked" and "register cid c r = (Inr first, r')"
  shows "replica_inv (if first then r'\<lparr>rp_registry := Joining cid c\<rparr> else r')"
proof -
  note inv = invD [OF assms(1)] and f = register_facts [OF invD(1) [OF assms(1)] assms(3)]
  have frame: "reader_frame r r'" "rp_channels r' = rp_channels r" "rp_pubsub r' = rp_pubsub r"
    using register_frame(1) [OF assms(3)] by blast+
  from frame(1) have same: "rp_reader r' = rp_reader r" "rp_link r' = rp_link r" "rp_registry r' = Unlocked"
    using assms(2) by (simp_all add: reader_frame_def)
  have "replica_inv (r'\<lparr>rp_registry := if first then Joining cid c else Unlocked\<rparr>)"
  proof (rule inv_lock)
    fix cid' assume "members r' cid' \<noteq> {}"
    with f inv(2) [of cid'] assms(2) show "cid' \<in> wanted r' \<or> cid' \<in> joining (if first then Joining cid c else Unlocked)"
      by (cases "cid' = cid") auto
  qed (use f inv(4) frame(2,3) same in simp_all)
  then show ?thesis using same inv_unchanged [of r'] by (cases first) simp_all
qed

lemma join_subscribe_inv:
  assumes "replica_inv r" and "rp_registry r = Joining cid c"
    and "join_subscribe replica_manager replica_subscriber cid c r = (x, r')"
  shows "replica_inv (r'\<lparr>rp_registry := Unlocked\<rparr>)"
proof (rule inv_lock)
  note inv = invD [OF assms(1)] and f = rg.join_subscribe_step [OF invD(1) [OF assms(1)] assms(3)]
  note frame = subscription_frame [OF disjI1, OF assms(3)]
  show "replica_ok r'" using f by simp
  show "lock_ok Unlocked (members r')" by simp
  show "rp_channels r' \<subseteq> rp_pubsub r'" if "rp_reader r'" "rp_link r' = Up"
    using frame inv(4) that by (simp add: reader_frame_def)
  fix cid' assume live: "members r' cid' \<noteq> {}"
  have "members r cid \<subseteq> {c}" using inv(3) assms(2) by simp
  with live f inv(2) [of cid'] assms(2) show "cid' \<in> wanted r' \<or> cid' \<in> joining Unlocked"
    by (cases x; cases "cid' = cid") auto
qed

lemma unregister_inv:
  assumes "replica_inv r" and "rp_registry r = Unlocked" and "unregister cid c r = (Inr final, r')"
  shows "replica_inv (if final then r'\<lparr>rp_registry := Unsubscribing cid\<rparr> else r')"
proof -
  note inv = invD [OF assms(1)] and f = unregister_facts [OF invD(1) [OF assms(1)] assms(3)]
  have frame: "reader_frame r r'" "rp_channels r' = rp_channels r" "rp_pubsub r' = rp_pubsub r"
    using register_frame(2) [OF assms(3)] by blast+
  from frame(1) have same: "rp_reader r' = rp_reader r" "rp_link r' = rp_link r" "rp_registry r' = Unlocked"
    using assms(2) by (simp_all add: reader_frame_def)
  have "replica_inv (r'\<lparr>rp_registry := if final then Unsubscribing cid else Unlocked\<rparr>)"
  proof (rule inv_lock)
    fix cid' assume "members r' cid' \<noteq> {}"
    with f inv(2) [of cid'] assms(2) show "cid' \<in> wanted r' \<or> cid' \<in> joining (if final then Unsubscribing cid else Unlocked)"
      by (cases "cid' = cid") auto
  qed (use f inv(4) frame(2,3) same in auto)
  then show ?thesis using same inv_unchanged [of r'] by (cases final) simp_all
qed

lemma unsubscribe_inv:
  assumes "replica_inv r" and "rp_registry r = Unsubscribing cid" and "unsubscribe cid r = (x, r')"
  shows "replica_inv (r'\<lparr>rp_registry := Unlocked\<rparr>)"
proof (rule inv_lock)
  have "sub_unsubscribe replica_subscriber cid r = (x, r')" using assms(3) by (simp add: replica_subscriber_def)
  note inv = invD [OF assms(1)] and f = rg.unsubscribe_law [OF invD(1) [OF assms(1)] this]
  note frame = subscription_frame [OF disjI2, OF assms(3)]
  show "replica_ok r'" using f by simp
  show "lock_ok Unlocked (members r')" by simp
  show "rp_channels r' \<subseteq> rp_pubsub r'" if "rp_reader r'" "rp_link r' = Up"
    using frame inv(4) that by (simp add: reader_frame_def)
  fix cid' assume live: "members r' cid' \<noteq> {}"
  have "members r cid = {}" using inv(3) assms(2) by simp
  with live f inv(2) [of cid'] assms(2) show "cid' \<in> wanted r' \<or> cid' \<in> joining Unlocked"
    by (cases "cid' = cid") auto
qed

lemma close_each_same:
  "rp_channels (close_each status cs r) = rp_channels r" "rp_pubsub (close_each status cs r) = rp_pubsub r"
  "rp_reader (close_each status cs r) = rp_reader r" "rp_link (close_each status cs r) = rp_link r"
  "rp_registry (close_each status cs r) = rp_registry r" "rp_connections (close_each status cs r) = rp_connections r"
  "rp_failure (close_each status cs r) = rp_failure r" "rp_faults (close_each status cs r) = rp_faults r"
  by (induction cs arbitrary: r) (auto simp: connection_close_def Let_def)

lemma drain_inv:
  assumes "replica_inv r"
  shows "replica_inv (close_all status cids r)"
proof -
  have "members (close_all status cids r) = (\<lambda>_. {})" by (simp add: close_all_def members_def sockets_of_def fun_eq_iff)
  moreover have "lock_ok (rp_registry r) (\<lambda>_. {})"
    by (intro lock_shrinks [OF invD(3) [OF assms]]) simp
  ultimately show ?thesis
    using assms by (simp add: replica_inv_def live_eq replica_ok_def wanted_def close_all_def close_each_same)
qed

lemma sockets_inv:
  assumes "replica_inv r"
  shows "replica_inv (r\<lparr>rp_sockets := ss\<rparr>)"
  using invD(4) [OF assms] by (intro inv_frame [OF assms]) simp_all

lemma step_inv:
  assumes "replica_step r r'" and "replica_inv r"
  shows "replica_inv r'"
  using assms(1)
proof cases
  case (send c frame x)
  then have "r' = r\<lparr>rp_sockets := rp_sockets r'\<rparr>" by (auto simp: connection_send_eq)
  then show ?thesis by (metis sockets_inv [OF assms(2)])
next
  case (closes status c x)
  then have "r' = r\<lparr>rp_sockets := rp_sockets r'\<rparr>" by (auto simp: connection_close_def Let_def split: if_splits)
  then show ?thesis by (metis sockets_inv [OF assms(2)])
next
  case (stops x)
  have "rp_connections r' = rp_connections r \<and> rp_channels r' = rp_channels r \<and> rp_registry r' = rp_registry r \<and>
      (rp_reader r' \<longrightarrow> rp_reader r \<and> rp_link r' = rp_link r \<and> rp_pubsub r' = rp_pubsub r)"
    using stops by (auto simp: subscriber_stop_def pubsub_aclose_def redis_call_def Let_def
        split: option.splits list.splits redis_fault.splits)
  then show ?thesis using invD(4) [OF assms(2)] by (intro inv_frame [OF assms(2)]) auto
next
  case loses
  then show ?thesis by (intro inv_frame [OF assms(2)]) (simp_all add: lose_connection_def)
next
  case (restores subscribed)
  then show ?thesis by (intro inv_frame [OF assms(2)]) simp_all
next
  case (dies c)
  then show ?thesis by (simp add: sockets_inv [OF assms(2)])
next
  case (faults fs)
  then show ?thesis using invD(4) [OF assms(2)] by (intro inv_frame [OF assms(2)]) simp_all
qed (use register_inv [OF assms(2)] join_subscribe_inv [OF assms(2)] unregister_inv [OF assms(2)]
    unsubscribe_inv [OF assms(2)] read_inv [OF assms(2)] reconnect_inv [OF assms(2)]
    drain_inv [OF assms(2)] in simp_all)

text \<open>A conversation that is wanted stays so, whatever happens, as long as no socket joins it.\<close>

lemma leave_nobody:
  assumes "replica_ok r" and "members r cid = {}"
  shows "unregister cid c r = (Inr False, r)" and "leave cid c r = (Inr (), r)"
proof -
  have "rp_connections r cid = None"
    using assms(2) replica_okD [OF assms(1), of cid]
    by (cases "rp_connections r cid") (auto simp: members_def sockets_of_def)
  then show "unregister cid c r = (Inr False, r)" by (simp add: unregister_def)
  then show "leave cid c r = (Inr (), r)"
    by (simp add: leave_def registry_leave_def replica_manager_def bindp_def ret_def)
qed

lemma join_subscribe_wanted:
  assumes "replica_ok r" and "join_subscribe replica_manager replica_subscriber cid c r = (x, r')" and "cid' \<in> wanted r"
  shows "cid' \<in> wanted r'"
  using rg.join_subscribe_step [OF assms(1,2)] assms(3) by (cases x) auto

lemma stays_wanted:
  assumes "replica_step r r'" and "replica_inv r" and "members r cid = {}" and "members r' cid = {}"
    and "cid \<in> wanted r \<and> rp_registry r \<noteq> Unsubscribing cid"
  shows "cid \<in> wanted r' \<and> rp_registry r' \<noteq> Unsubscribing cid"
  using assms(1)
proof cases
  case (join_registers cid' c first r1)
  with register_frame(1) [OF join_registers(3)] assms(5) show ?thesis by (auto simp: reader_frame_def wanted_def)
next
  case (join_subscribes cid' c x r1)
  with join_subscribe_wanted [OF invD(1) [OF assms(2)] join_subscribes(3)] assms(5) show ?thesis by simp
next
  case (leave_unregisters cid' c final r1)
  note frame = register_frame(2) [OF leave_unregisters(3)]
  have "final \<Longrightarrow> cid' \<noteq> cid" using leave_nobody(1) [OF invD(1) [OF assms(2)] assms(3), of c] leave_unregisters(3) by auto
  with leave_unregisters frame assms(5) show ?thesis by (auto simp: reader_frame_def wanted_def)
next
  case (leave_unsubscribes cid' x r1)
  have "sub_unsubscribe replica_subscriber cid' r = (x, r1)" using leave_unsubscribes(3) by (simp add: replica_subscriber_def)
  from rg.unsubscribe_law [OF invD(1) [OF assms(2)] this] leave_unsubscribes assms(5) show ?thesis by auto
next
  case (reads read)
  have "\<exists>r'. deliver data r = (Inr (), r') \<and> rp_channels r' = rp_channels r \<and> rp_registry r' = rp_registry r" for data
    using deliver_facts [OF invD(1) [OF assms(2)], of data] by blast
  then have "rp_channels (read_turn read r) = rp_channels r \<and> rp_registry (read_turn read r) = rp_registry r"
    by (cases read) (auto simp: read_turn_def split: prod.split sum.split, (metis prod.inject sum.inject(2) sum.distinct(1))+)
  with reads assms(5) show ?thesis by (simp add: wanted_def)
next
  case (reconnects order)
  obtain x r1 where x: "reconnect order r = (x, r1)" by (cases "reconnect order r")
  with reconnect_facts [OF x] have "rp_channels (reconnect_turn order r) = rp_channels r \<and>
      rp_registry (reconnect_turn order r) = rp_registry r"
    by (auto simp: reconnect_turn_def pubsub_only_def split: sum.split)
  with reconnects assms(5) show ?thesis by (simp add: wanted_def)
next
  case (drains status cids)
  with assms(5) show ?thesis by (simp add: close_all_def close_each_same wanted_def)
next
  case (stops x)
  then have "rp_channels r' = rp_channels r \<and> rp_registry r' = rp_registry r"
    by (auto simp: subscriber_stop_def pubsub_aclose_def redis_call_def Let_def split: option.splits list.splits redis_fault.splits)
  with assms(5) show ?thesis by (simp add: wanted_def)
next
  case (closes status c x)
  with assms(5) show ?thesis by (auto simp: connection_close_def wanted_def Let_def split: if_splits)
qed (use assms(5) in \<open>auto simp: wanted_def lose_connection_def connection_send_eq\<close>)

definition replica_reachable :: "replica \<Rightarrow> bool" where
  "replica_reachable = replica_step\<^sup>*\<^sup>* (subscriber_start new_replica)"

lemma reachable_inv: "replica_reachable r \<Longrightarrow> replica_inv r"
  unfolding replica_reachable_def
  by (induction rule: rtranclp_induct) (auto intro: started_inv step_inv)

lemma reachable_step: "replica_reachable r \<Longrightarrow> replica_step r r' \<Longrightarrow> replica_reachable r'"
  unfolding replica_reachable_def by (rule rtranclp.rtrancl_into_rtrancl)

text \<open>A join, a leave and a whole turn of the reader are steps in a row, with nothing in between.\<close>

lemma join_is_steps:
  assumes "rp_registry r = Unlocked" and "join cid c r = (x, r')"
  shows "replica_step\<^sup>*\<^sup>* r r'"
proof -
  obtain first r1 where r1: "register cid c r = (Inr first, r1)" by (cases "register cid c r") (auto simp: register_def Let_def)
  note step1 = replica_step.join_registers [OF assms(1) r1]
  have lock1: "rp_registry r1 = Unlocked" using register_frame(1) [OF r1] assms(1) by (simp add: reader_frame_def)
  have run: "bindp (\<lambda>r. (Inr first, r1)) (\<lambda>first. if \<not> first then ret ()
      else join_subscribe replica_manager replica_subscriber cid c) r = (x, r')"
    using assms(2) r1 by (auto simp: join_def registry_join_def bindp_def replica_manager_def)
  show ?thesis
  proof (cases first)
    case False
    with run have "r' = r1" by (simp add: bindp_def ret_def)
    with step1 False show ?thesis by (simp add: r_into_rtranclp)
  next
    case True
    with run have j: "join_subscribe replica_manager replica_subscriber cid c r1 = (x, r')" by (simp add: bindp_def)
    let ?s = "r1\<lparr>rp_registry := Joining cid c\<rparr>"
    have "join_subscribe replica_manager replica_subscriber cid c ?s = (x, r'\<lparr>rp_registry := Joining cid c\<rparr>)"
      using j by (auto simp: join_subscribe_def replica_manager_def replica_subscriber_def unregister_def subscribe_def
          pubsub_subscribe_def redis_call_def proc_simps Let_def split: option.splits if_splits list.splits redis_fault.splits)
    note step2 = replica_step.join_subscribes [OF _ this]
    have "rp_registry r' = Unlocked" using subscription_frame [OF disjI1, OF j] lock1 by (simp add: reader_frame_def)
    then have "r'\<lparr>rp_registry := Unlocked\<rparr> = r'" by (cases r') simp
    with step1 step2 True show ?thesis by (simp add: converse_rtranclp_into_rtranclp r_into_rtranclp)
  qed
qed

lemma leave_is_steps:
  assumes "rp_registry r = Unlocked" and "leave cid c r = (x, r')"
  shows "replica_step\<^sup>*\<^sup>* r r'"
proof -
  obtain final r1 where r1: "unregister cid c r = (Inr final, r1)"
    by (cases "unregister cid c r") (auto simp: unregister_def Let_def split: option.splits if_splits)
  note step1 = replica_step.leave_unregisters [OF assms(1) r1]
  have lock1: "rp_registry r1 = Unlocked" using register_frame(2) [OF r1] assms(1) by (simp add: reader_frame_def)
  have run: "(if final then unsubscribe cid else ret ()) r1 = (x, r')"
    using assms(2) r1 by (auto simp: leave_def registry_leave_def bindp_def replica_manager_def replica_subscriber_def)
  show ?thesis
  proof (cases final)
    case False
    with run have "r' = r1" by (simp add: ret_def)
    with step1 False show ?thesis by (simp add: r_into_rtranclp)
  next
    case True
    with run have u: "unsubscribe cid r1 = (x, r')" by simp
    let ?s = "r1\<lparr>rp_registry := Unsubscribing cid\<rparr>"
    have "unsubscribe cid ?s = (x, r'\<lparr>rp_registry := Unsubscribing cid\<rparr>)"
      using u by (auto simp: unsubscribe_def pubsub_unsubscribe_def redis_call_def Let_def
          split: list.splits redis_fault.splits)
    note step2 = replica_step.leave_unsubscribes [OF _ this]
    have "rp_registry r' = Unlocked" using subscription_frame [OF disjI2, OF u] lock1 by (simp add: reader_frame_def)
    then have "r'\<lparr>rp_registry := Unlocked\<rparr> = r'" by (cases r') simp
    with step1 step2 True show ?thesis by (simp add: converse_rtranclp_into_rtranclp r_into_rtranclp)
  qed
qed

lemma turn_is_steps:
  assumes "distinct order" and "set order = rp_channels (read_turn read r)"
  shows "replica_step\<^sup>*\<^sup>* r (run_turn order read r)"
  using replica_step.reads [of r read] replica_step.reconnects [OF assms]
  by (simp add: run_turn_def converse_rtranclp_into_rtranclp r_into_rtranclp)

text \<open>No step but the start brings a reader back.\<close>

lemma turn_reader: "\<not> rp_reader r \<Longrightarrow> run_turn order read r = r"
  by (simp add: run_turn_def read_turn_def reconnect_turn_def at_read_def)

lemma step_reader: "replica_step r r' \<Longrightarrow> \<not> rp_reader r \<Longrightarrow> \<not> rp_reader r' \<and> (rp_failure r = Some e \<longrightarrow> rp_failure r' = Some e)"
proof (induction rule: replica_step.induct)
  case (join_registers r cid c first r')
  with register_frame(1) [OF join_registers(2)] show ?case by (simp add: reader_frame_def)
next
  case (join_subscribes r cid c x r')
  with subscription_frame [OF disjI1, OF join_subscribes(2)] show ?case by (simp add: reader_frame_def)
next
  case (leave_unregisters r cid c final r')
  with register_frame(2) [OF leave_unregisters(2)] show ?case by (simp add: reader_frame_def)
next
  case (leave_unsubscribes r cid x r')
  with subscription_frame [OF disjI2, OF leave_unsubscribes(2)] show ?case by (simp add: reader_frame_def)
next
  case (drains r status cids)
  then show ?case by (simp add: close_all_def close_each_same)
next
  case (stops r x r')
  then show ?case
    by (auto simp: subscriber_stop_def pubsub_aclose_def redis_call_def Let_def split: option.splits list.splits redis_fault.splits)
qed (auto simp: lose_connection_def read_turn_def at_read_def reconnect_turn_def connection_send_def connection_close_def Let_def split: if_splits)

lemma steps_reader:
  "replica_step\<^sup>*\<^sup>* r r' \<Longrightarrow> \<not> rp_reader r \<Longrightarrow> \<not> rp_reader r' \<and> (rp_failure r = Some e \<longrightarrow> rp_failure r' = Some e)"
  by (induction rule: rtranclp_induct) (auto dest: step_reader)

text \<open>A read that raises, and the reconnection right after it.\<close>

lemma subscribe_each_link:
  "for_each order pubsub_subscribe r = (x, r') \<Longrightarrow> for_each order pubsub_subscribe (r\<lparr>rp_link := l\<rparr>) = (x, r'\<lparr>rp_link := l\<rparr>)"
proof (induction order arbitrary: r)
  case (Cons c order)
  obtain y r1 where y: "pubsub_subscribe c r = (y, r1)" by (cases "pubsub_subscribe c r")
  then have "pubsub_subscribe c (r\<lparr>rp_link := l\<rparr>) = (y, r1\<lparr>rp_link := l\<rparr>)"
    by (auto simp: pubsub_subscribe_def redis_call_def Let_def split: list.splits redis_fault.splits)
  with y Cons show ?case by (auto simp: thenp_def bindp_def split: sum.splits)
qed (auto simp: ret_def)

lemma reconnect_link:
  assumes "reconnect order r = (x, r')"
  shows "reconnect order (r\<lparr>rp_link := l\<rparr>) = (x, r'\<lparr>rp_link := l\<rparr>)"
proof -
  obtain y r1 where y: "pubsub_aclose r = (y, r1)" by (cases "pubsub_aclose r")
  then have "pubsub_aclose (r\<lparr>rp_link := l\<rparr>) = (y, r1\<lparr>rp_link := l\<rparr>)"
    by (auto simp: pubsub_aclose_def redis_call_def Let_def split: list.splits redis_fault.splits)
  moreover have "for_each order pubsub_subscribe (r1\<lparr>rp_pubsub := {}\<rparr>) = (x, r')"
    using assms y by (auto simp: reconnect_def thenp_def bindp_def try_except_def ret_def split: sum.splits)
  then have "for_each order pubsub_subscribe (r1\<lparr>rp_link := l, rp_pubsub := {}\<rparr>) = (x, r'\<lparr>rp_link := l\<rparr>)"
    using subscribe_each_link [of order "r1\<lparr>rp_pubsub := {}\<rparr>" x r' l] by (cases r1) simp
  ultimately show ?thesis
    by (auto simp: reconnect_def thenp_def bindp_def try_except_def ret_def split: sum.splits)
qed

lemma raised_turn:
  assumes "rp_running r" and "rp_reader r" and "rp_channels r \<noteq> {}" and "reconnect order r = (x, r1)"
  shows "run_turn order ReadRaised r =
    (case x of Inl e \<Rightarrow> r1\<lparr>rp_link := Rebuilding, rp_reader := False, rp_failure := Some e\<rparr> | Inr _ \<Rightarrow> r1\<lparr>rp_link := Up\<rparr>)"
proof -
  have "read_turn ReadRaised r = r\<lparr>rp_link := Rebuilding\<rparr>"
    using assms(1-3) by (cases r) (simp add: read_turn_def at_read_def)
  with assms(1,2) reconnect_link [OF assms(4), of Rebuilding] show ?thesis
    by (simp add: run_turn_def reconnect_turn_def split: sum.split)
qed

text \<open>Draining a backlog of fanned-out messages.\<close>

fun read_all :: "json list \<Rightarrow> replica \<Rightarrow> replica" where
  "read_all [] r = r"
| "read_all (data # inbox) r = read_all inbox (read_turn (Payload data) r)"

definition reading :: "replica \<Rightarrow> bool" where
  "reading r = (rp_running r \<and> rp_reader r)"

definition one_conversation :: "replica \<Rightarrow> bool" where
  "one_conversation r = (\<forall>cid cid' c. c \<in> members r cid \<longrightarrow> c \<in> members r cid' \<longrightarrow> cid = cid')"

fun push_frames :: "json list \<Rightarrow> socket \<Rightarrow> socket" where
  "push_frames [] s = s"
| "push_frames (f # fs) s = push_frames fs (push_frame f s)"

lemma push_frames_writable: "writable s \<Longrightarrow> push_frames fs s = s\<lparr>so_sent := so_sent s @ fs\<rparr>"
  by (induction fs arbitrary: s) (simp_all add: push_frame_def writable_def)

lemma read_all_facts:
  assumes "replica_ok r" and "one_conversation r" and "reading r \<and> rp_link r \<noteq> Rebuilding" and "\<forall>m \<in> set ms. message_wf m"
    and "\<forall>m \<in> set ms. m_conversation_id m \<in> wanted r" and "c \<in> members r cid" and "writable (rp_sockets r c)"
  shows "rp_sockets (read_all (map encode ms) r) c =
    push_frames (map message_new (filter (\<lambda>m. m_conversation_id m = cid) ms)) (rp_sockets r c)"
  using assms
proof (induction ms arbitrary: r)
  case Nil
  then show ?case by simp
next
  case (Cons m ms)
  let ?mc = "m_conversation_id m"
  from broadcast_facts [OF Cons.prems(1), of ?mc m] obtain r' where
    r': "local_broadcast ?mc m r = (Inr (), r')" "replica_ok r'"
      "members r' = (members r)(?mc := {c \<in> members r ?mc. writable (rp_sockets r c)})"
    and frame: "r' = r\<lparr>rp_sockets := \<lambda>c. if c \<in> members r ?mc then push_frame (message_new m) (rp_sockets r c)
        else rp_sockets r c, rp_connections := rp_connections r'\<rparr>" by blast
  have sockets: "rp_sockets r' c = (if c \<in> members r ?mc then push_frame (message_new m) (rp_sockets r c) else rp_sockets r c)"
    by (subst frame) simp
  have same: "rp_running r' = rp_running r" "rp_reader r' = rp_reader r" "rp_channels r' = rp_channels r" "rp_link r' = rp_link r"
    by (subst frame, simp)+
  have "rp_channels r \<noteq> {}" using Cons.prems(5) by (auto simp: wanted_def)
  then have step: "read_turn (Payload (encode m)) r = r'"
    using Cons.prems(3,4) r'(1) by (simp add: read_turn_def at_read_def reading_def deliver_def decode_encode)
  have sub: "members r' x \<subseteq> members r x" for x using r'(3) by auto
  have "one_conversation r'" using Cons.prems(2) sub unfolding one_conversation_def by blast
  moreover have "reading r' \<and> rp_link r' \<noteq> Rebuilding" "\<forall>m \<in> set ms. m_conversation_id m \<in> wanted r'"
    using Cons.prems(3,5) same by (simp_all add: reading_def wanted_def)
  moreover have "c \<in> members r' cid" "writable (rp_sockets r' c)" using Cons.prems(6,7) r'(3) sockets by auto
  ultimately have "rp_sockets (read_all (map encode ms) r') c =
      push_frames (map message_new (filter (\<lambda>m. m_conversation_id m = cid) ms)) (rp_sockets r' c)"
    using Cons.prems(4) by (intro Cons.IH r'(2)) simp_all
  moreover have "c \<in> members r ?mc \<longleftrightarrow> ?mc = cid"
    using Cons.prems(2,6) unfolding one_conversation_def by blast
  ultimately show ?case by (simp add: step sockets)
qed

end
