(* ===== verification/RateLimiter.thy ===== *)
theory RateLimiter
  imports Errors
begin

section \<open>The rate limiter\<close>

text \<open>
  \<open>realtime/rate_limit.py\<close> and \<open>outbound/redis/redis_rate_limiter.py\<close>: a counter per user and window in
  the Redis all replicas share. Of Redis the model has its string keys that hold a number and expire,
  and the two commands of the pipeline, which run as one transaction. \<open>rc_faults\<close> says of each coming
  call how it goes.
\<close>

subsection \<open>Redis\<close>

record redis_counters =
  rc_counts :: "(string, int \<times> datetime) map"
  rc_faults :: "redis_fault list"

definition count_of :: "redis_counters \<Rightarrow> datetime \<Rightarrow> string \<Rightarrow> int" where
  "count_of c now key =
     (case rc_counts c key of None \<Rightarrow> 0 | Some (n, expiry) \<Rightarrow> if now < expiry then n else 0)"

text \<open>\<open>INCR key; EXPIRE key ttl\<close>; a time to live that is not positive deletes the key.\<close>

definition incr_expire :: "string \<Rightarrow> int \<Rightarrow> datetime \<Rightarrow> redis_counters \<Rightarrow> int \<times> redis_counters" where
  "incr_expire key ttl now c =
     (let n = count_of c now key + 1
      in (n, c\<lparr>rc_counts := (rc_counts c)
           (key := if 0 < ttl then Some (n, now + timedelta_seconds ttl) else None)\<rparr>))"

definition pipeline_execute :: "string \<Rightarrow> int \<Rightarrow> datetime \<Rightarrow> (int, redis_counters) op" where
  "pipeline_execute key ttl now c =
     (case rc_faults c of
        [] \<Rightarrow> map_prod Inr id (incr_expire key ttl now c)
      | fault # rest \<Rightarrow>
          (let c = c\<lparr>rc_faults := rest\<rparr>
           in case fault of
                Served \<Rightarrow> map_prod Inr id (incr_expire key ttl now c)
              | Refused \<Rightarrow> (Inl RedisError, c)
              | Unanswered \<Rightarrow> (Inl RedisError, snd (incr_expire key ttl now c))))"

subsection \<open>RedisRateLimiter\<close>

record redis_rate_limiter =
  rl_limit :: int
  rl_window_seconds :: int

text \<open>An integer in an f-string.\<close>

fun nat_str :: "nat \<Rightarrow> string" where
  "nat_str n = (if n < 10 then [hex_digit n] else nat_str (n div 10) @ [hex_digit (n mod 10)])"

declare nat_str.simps [simp del]

definition int_str :: "int \<Rightarrow> string" where
  "int_str i = (if i < 0 then CHR ''-'' # nat_str (nat (- i)) else nat_str (nat i))"

definition rate_limit_key :: "redis_rate_limiter \<Rightarrow> uuid \<Rightarrow> datetime \<Rightarrow> string outcome" where
  "rate_limit_key rl user_id now =
     (if rl_window_seconds rl = 0 then Inl ZeroDivisionError
      else let window = int_timestamp now div rl_window_seconds rl
           in Inr (''ratelimit:ws:'' @ uuid_str user_id @ '':'' @ int_str window))"

definition rate_limit_increment :: "redis_rate_limiter \<Rightarrow> datetime \<Rightarrow> string \<Rightarrow> (int, redis_counters) op" where
  "rate_limit_increment rl now key = pipeline_execute key (rl_window_seconds rl) now"

definition rate_limit_allow :: "redis_rate_limiter \<Rightarrow> datetime \<Rightarrow> uuid \<Rightarrow> (bool, redis_counters) op" where
  "rate_limit_allow rl now user_id =
     (if rl_limit rl \<le> 0 then ret True
      else try_except
        (bindp (bindp (lift (rate_limit_key rl user_id now)) (rate_limit_increment rl now)) (\<lambda>count.
           ret (count \<le> rl_limit rl)))
        (\<lambda>_. ret True))"

subsection \<open>Keys\<close>

lemma nat_str_not_Nil [simp]: "nat_str n \<noteq> []"
  by (metis append_is_Nil_conv list.distinct(1) nat_str.simps)

lemma length_uuid_str [simp]: "length (uuid_str u) = 36"
  by (simp add: uuid_str_def Let_def)

lemma hex_digit_inj: "m < 16 \<Longrightarrow> n < 16 \<Longrightarrow> hex_digit m = hex_digit n \<Longrightarrow> m = n"
  by (metis hex_digit_value option.inject)

lemma nat_str_inj: "nat_str m = nat_str n \<Longrightarrow> m = n"
proof (induction m arbitrary: n rule: nat_str.induct)
  case (1 m)
  show ?case
  proof (cases "m < 10")
    case True
    show ?thesis
    proof (cases "n < 10")
      case T: True
      from 1(2) True T have "hex_digit m = hex_digit n" by (simp add: nat_str.simps [of m] nat_str.simps [of n])
      with True T show ?thesis by (intro hex_digit_inj) auto
    next
      case F: False
      from 1(2) True F show ?thesis
        using nat_str_not_Nil [of "n div 10"] by (simp add: nat_str.simps [of m] nat_str.simps [of n])
    qed
  next
    case False
    show ?thesis
    proof (cases "n < 10")
      case True
      from 1(2) True False show ?thesis by (simp add: nat_str.simps [of m] nat_str.simps [of n])
    next
      case F: False
      from 1(2) False F have "nat_str (m div 10) = nat_str (n div 10)" "hex_digit (m mod 10) = hex_digit (n mod 10)"
        by (simp_all add: nat_str.simps [of m] nat_str.simps [of n])
      with 1(1) False have "m div 10 = n div 10" "m mod 10 = n mod 10"
        by (auto intro!: hex_digit_inj)
      then show ?thesis by (metis div_mult_mod_eq)
    qed
  qed
qed

lemma nat_str_no_sign: "CHR ''-'' \<notin> set (nat_str n)"
proof (induction n rule: nat_str.induct)
  case (1 n)
  have "code (hex_digit k) \<noteq> code CHR ''-''" if "k < 10" for k
    using hex_digit_code [of k] that by (simp add: code_def)
  then have "hex_digit k \<noteq> CHR ''-''" if "k < 10" for k using that by metis
  then have "CHR ''-'' \<noteq> hex_digit k" if "k < 10" for k using that by metis
  with 1 show ?case by (cases "n < 10") (simp_all add: nat_str.simps [of n])
qed

lemma int_str_inj: "int_str i = int_str j \<Longrightarrow> i = j"
  using nat_str_no_sign [of "nat i"] nat_str_no_sign [of "nat j"]
  by (auto simp: int_str_def split: if_splits dest!: nat_str_inj) (metis list.set_intros(1))+

text \<open>Users and windows do not share a key.\<close>

lemma rate_limit_key_inj:
  assumes "rate_limit_key rl u s = Inr k" and "rate_limit_key rl v t = Inr k"
  shows "u = v \<and> int_timestamp s div rl_window_seconds rl = int_timestamp t div rl_window_seconds rl"
proof -
  have "uuid_str u @ '':'' @ int_str (int_timestamp s div rl_window_seconds rl) =
      uuid_str v @ '':'' @ int_str (int_timestamp t div rl_window_seconds rl)"
    using assms by (auto simp: rate_limit_key_def Let_def split: if_splits)
  then have "uuid_str u = uuid_str v" and
    "int_str (int_timestamp s div rl_window_seconds rl) = int_str (int_timestamp t div rl_window_seconds rl)"
    by simp_all
  then show ?thesis by (blast dest: uuid_str_inj int_str_inj)
qed

subsection \<open>What it counts\<close>

text \<open>A run of attempts, each at a time; which of them were let through. Redis keeps the same time as the
  replicas and answers.\<close>

fun rate_limit_run :: "redis_rate_limiter \<Rightarrow> (uuid \<times> datetime) list \<Rightarrow> redis_counters \<Rightarrow> (exn + bool) list" where
  "rate_limit_run rl [] c = []"
| "rate_limit_run rl ((u, now) # attempts) c =
     (case rate_limit_allow rl now u c of (r, c') \<Rightarrow> r # rate_limit_run rl attempts c')"

definition window_of :: "redis_rate_limiter \<Rightarrow> datetime \<Rightarrow> int" where
  "window_of rl now = int_timestamp now div rl_window_seconds rl"

definition in_window :: "redis_rate_limiter \<Rightarrow> uuid \<Rightarrow> int \<Rightarrow> uuid \<times> datetime \<Rightarrow> bool" where
  "in_window rl u w a = (fst a = u \<and> window_of rl (snd a) = w)"

definition fresh_counters :: redis_counters where
  "fresh_counters = \<lparr>rc_counts = Map.empty, rc_faults = []\<rparr>"

definition counts :: "redis_rate_limiter \<Rightarrow> (uuid \<times> datetime) list \<Rightarrow> redis_counters \<Rightarrow> bool" where
  "counts rl hist c =
     (rc_faults c = [] \<and>
      (\<forall>u now k. 0 \<le> now \<longrightarrow> rate_limit_key rl u now = Inr k \<longrightarrow>
         count_of c now k = int (length (filter (in_window rl u (window_of rl now)) hist))))"

lemma fresh_counts: "counts rl [] fresh_counters"
  by (simp add: counts_def fresh_counters_def count_of_def)

text \<open>The counter of a window outlives it.\<close>

lemma same_window_close:
  assumes "0 \<le> s" and "0 \<le> t" and "0 < rl_window_seconds rl" and "window_of rl s = window_of rl t"
  shows "t < s + timedelta_seconds (rl_window_seconds rl)"
proof -
  define W where "W = rl_window_seconds rl"
  define w where "w = window_of rl t"
  have t: "int_timestamp t = t div 1000000" "int_timestamp s = s div 1000000" using assms by (simp_all add: int_timestamp_def)
  have "t div 1000000 < (w + 1) * W"
    using assms(3) t(1) by (simp add: w_def window_of_def W_def) (metis add.commute assms(3) div_mult_mod_eq
      distrib_right mult.commute mult_1 pos_mod_bound add_less_cancel_left)
  moreover have "w * W \<le> s div 1000000"
    using assms(3,4) t(2) by (simp add: w_def window_of_def W_def [symmetric])
      (metis W_def add.right_neutral assms(3) div_mult_mod_eq mult.commute add_left_mono pos_mod_sign)
  ultimately have "t div 1000000 - s div 1000000 < W" by (simp add: algebra_simps)
  then have "t div 1000000 + 1 \<le> s div 1000000 + W" by simp
  moreover have "t < (t div 1000000 + 1) * 1000000" "(s div 1000000) * 1000000 \<le> s" by simp_all
  ultimately show ?thesis unfolding timedelta_seconds_def W_def [symmetric] by linarith
qed

lemma allow_step:
  assumes "counts rl hist c" and "0 \<le> now" and "0 < rl_limit rl" and "0 < rl_window_seconds rl"
  shows "\<exists>c'. rate_limit_allow rl now u c =
      (Inr (int (length (filter (in_window rl u (window_of rl now)) hist)) < rl_limit rl), c') \<and>
    counts rl ((u, now) # hist) c'"
proof -
  obtain k where k: "rate_limit_key rl u now = Inr k" using assms(4) by (simp add: rate_limit_key_def Let_def)
  let ?n = "length (filter (in_window rl u (window_of rl now)) hist)"
  let ?c = "c\<lparr>rc_counts := (rc_counts c)(k \<mapsto> (int ?n + 1, now + timedelta_seconds (rl_window_seconds rl)))\<rparr>"
  have n: "count_of c now k = int ?n" and f: "rc_faults c = []" using assms(1,2) k by (simp_all add: counts_def)
  have "rate_limit_allow rl now u c = (Inr (int ?n + 1 \<le> rl_limit rl), ?c)"
    using assms(3,4) by (simp add: rate_limit_allow_def rate_limit_increment_def pipeline_execute_def incr_expire_def
        proc_simps k f n Let_def)
  moreover have "counts rl ((u, now) # hist) ?c"
    unfolding counts_def
  proof (intro conjI allI impI)
    show "rc_faults ?c = []" by (simp add: f)
    fix v t k' assume t: "0 \<le> t" "rate_limit_key rl v t = Inr k'"
    show "count_of ?c t k' = int (length (filter (in_window rl v (window_of rl t)) ((u, now) # hist)))"
    proof (cases "k' = k")
      case True
      with k t have same: "v = u" "window_of rl now = window_of rl t"
        using rate_limit_key_inj [of rl u now k v t] by (simp_all add: window_of_def)
      have "t < now + timedelta_seconds (rl_window_seconds rl)"
        by (rule same_window_close [OF assms(2) t(1) assms(4) same(2)])
      with True same show ?thesis by (simp add: count_of_def in_window_def)
    next
      case False
      then have "\<not> in_window rl v (window_of rl t) (u, now)"
        using k t(2) by (auto simp: in_window_def window_of_def rate_limit_key_def Let_def split: if_splits)
      moreover have "count_of ?c t k' = count_of c t k'" using False by (simp add: count_of_def)
      ultimately show ?thesis using assms(1) t by (simp add: counts_def)
    qed
  qed
  moreover have "(int ?n + 1 \<le> rl_limit rl) = (int ?n < rl_limit rl)" by linarith
  ultimately show ?thesis by (intro exI [of _ ?c]) (simp only: simp_thms)
qed

lemma run_nth:
  assumes "counts rl hist c" and "0 < rl_limit rl" and "0 < rl_window_seconds rl"
    and "\<forall>a \<in> set attempts. 0 \<le> snd a" and "i < length attempts" and "attempts ! i = (u, now)"
  shows "rate_limit_run rl attempts c ! i =
    Inr (int (length (filter (in_window rl u (window_of rl now)) (rev hist @ take i attempts))) < rl_limit rl)"
  using assms
proof (induction attempts arbitrary: hist c i)
  case Nil
  then show ?case by simp
next
  case (Cons a attempts)
  obtain v s where a: "a = (v, s)" by (cases a)
  obtain c' where c': "rate_limit_allow rl s v c =
      (Inr (int (length (filter (in_window rl v (window_of rl s)) hist)) < rl_limit rl), c')"
    "counts rl ((v, s) # hist) c'"
    using allow_step [of rl hist c s v] Cons.prems(1-4) a by auto
  show ?case
  proof (cases i)
    case 0
    with a c'(1) Cons.prems(6) show ?thesis by (simp add: rev_filter [symmetric])
  next
    case (Suc j)
    with a c'(1) Cons.IH [OF c'(2), of j] Cons.prems show ?thesis by simp
  qed
qed

definition admitted :: "redis_rate_limiter \<Rightarrow> (uuid \<times> datetime) list \<Rightarrow> redis_counters \<Rightarrow> (uuid \<times> datetime) list" where
  "admitted rl attempts c = map fst (filter (\<lambda>x. snd x = Inr True) (zip attempts (rate_limit_run rl attempts c)))"

lemma admitted_Cons:
  assumes "rate_limit_allow rl now u c = (Inr b, c')"
  shows "admitted rl ((u, now) # attempts) c = (if b then [(u, now)] else []) @ admitted rl attempts c'"
  using assms by (simp add: admitted_def)

lemma admitted_in_window:
  assumes "counts rl hist c" and "0 < rl_limit rl" and "0 < rl_window_seconds rl"
    and "\<forall>a \<in> set attempts. 0 \<le> snd a"
  shows "int (length (filter (in_window rl u w) (admitted rl attempts c))) +
      min (rl_limit rl) (int (length (filter (in_window rl u w) hist))) =
    min (rl_limit rl) (int (length (filter (in_window rl u w) (rev attempts @ hist))))"
  using assms
proof (induction attempts arbitrary: hist c)
  case Nil
  then show ?case by (simp add: admitted_def)
next
  case (Cons a attempts)
  obtain v s where a: "a = (v, s)" by (cases a)
  let ?n = "int (length (filter (in_window rl v (window_of rl s)) hist))"
  obtain c' where c': "rate_limit_allow rl s v c = (Inr (?n < rl_limit rl), c')" "counts rl ((v, s) # hist) c'"
    using allow_step [of rl hist c s v] Cons.prems a by auto
  note ih = Cons.IH [OF c'(2)] and step = admitted_Cons [OF c'(1), of attempts]
  show ?case
  proof (cases "in_window rl u w (v, s)")
    case True
    then have uw: "u = v" "w = window_of rl s" by (simp_all add: in_window_def)
    define A h R where d: "A = int (length (filter (in_window rl u w) (admitted rl attempts c')))" "h = ?n"
      "R = int (length (filter (in_window rl u w) (rev attempts)))"
    have "A + min (rl_limit rl) (1 + h) = min (rl_limit rl) (1 + (R + h))" "0 \<le> A" "0 \<le> R"
      using ih Cons.prems(2-4) True by (simp_all add: d uw add.left_commute)
    then have "(if h < rl_limit rl then 1 + A else A) + min (rl_limit rl) h = min (rl_limit rl) (1 + (R + h))"
      by (auto simp: min_def split: if_splits)
    moreover have "int (length (filter (in_window rl u w) (admitted rl (a # attempts) c))) =
        (if h < rl_limit rl then 1 + A else A)"
      using True unfolding a step d by simp
    moreover have "int (length (filter (in_window rl u w) (rev (a # attempts) @ hist))) = 1 + (R + h)"
      using True by (simp add: a d uw)
    ultimately show ?thesis by (simp add: d uw)
  next
    case False
    with ih Cons.prems show ?thesis by (simp add: a step)
  qed
qed

lemma two_windows:
  assumes "0 \<le> t" and "t \<le> s" and "s < t + timedelta_seconds (rl_window_seconds rl)" and "0 < rl_window_seconds rl"
  shows "window_of rl s = window_of rl t \<or> window_of rl s = window_of rl t + 1"
proof -
  define W where "W = rl_window_seconds rl"
  have "s div 1000000 \<le> t div 1000000 + W"
    using assms(3) by (simp add: timedelta_seconds_def W_def [symmetric] zdiv_mono1)
  then have "s div 1000000 div W \<le> (t div 1000000 + W) div W" using assms(4) by (intro zdiv_mono1) (simp_all add: W_def)
  moreover have "(t div 1000000 + W) div W = t div 1000000 div W + 1"
    using assms(4) by (intro div_add_self2) (simp add: W_def)
  moreover have "t div 1000000 div W \<le> s div 1000000 div W"
    using assms(2,4) by (intro zdiv_mono1) (simp_all add: W_def)
  ultimately show ?thesis using assms(1,2) by (simp add: window_of_def int_timestamp_def W_def) linarith
qed

lemma length_filter_or: "length (filter (\<lambda>x. P x \<or> Q x) xs) \<le> length (filter P xs) + length (filter Q xs)"
  by (induction xs) auto

lemma length_filter_imp: "(\<And>x. x \<in> set xs \<Longrightarrow> P x \<Longrightarrow> Q x) \<Longrightarrow> length (filter P xs) \<le> length (filter Q xs)"
  by (induction xs) auto

lemma admitted_subset: "set (admitted rl attempts c) \<subseteq> set attempts"
  by (auto simp: admitted_def dest: set_zip_leftD)

lemma admitted_burst:
  assumes "0 < rl_limit rl" and "0 < rl_window_seconds rl" and "\<forall>a \<in> set attempts. 0 \<le> snd a" and "0 \<le> t"
  shows "int (length (filter (\<lambda>a. fst a = u \<and> t \<le> snd a \<and> snd a < t + timedelta_seconds (rl_window_seconds rl))
      (admitted rl attempts fresh_counters))) \<le> 2 * rl_limit rl"
proof -
  let ?ad = "admitted rl attempts fresh_counters" and ?w = "window_of rl t"
  have one: "int (length (filter (in_window rl u w) ?ad)) \<le> rl_limit rl" for w
    using admitted_in_window [OF fresh_counts assms(1-3), of u w] assms(1) by simp
  have "length (filter (\<lambda>a. fst a = u \<and> t \<le> snd a \<and> snd a < t + timedelta_seconds (rl_window_seconds rl)) ?ad) \<le>
      length (filter (\<lambda>a. in_window rl u ?w a \<or> in_window rl u (?w + 1) a) ?ad)"
    using two_windows [OF assms(4) _ _ assms(2)] by (intro length_filter_imp) (auto simp: in_window_def)
  also have "\<dots> \<le> length (filter (in_window rl u ?w) ?ad) + length (filter (in_window rl u (?w + 1)) ?ad)"
    by (rule length_filter_or)
  finally show ?thesis using one [of ?w] one [of "?w + 1"] by linarith
qed

text \<open>The limiter never raises, and lets the frame through whenever it cannot count it.\<close>

lemma allow_returns: "\<exists>b c'. rate_limit_allow rl now u c = (Inr b, c')"
  by (auto simp: rate_limit_allow_def proc_simps split: prod.splits sum.splits)

lemma allow_open:
  assumes "rl_limit rl \<le> 0 \<or> rl_window_seconds rl = 0 \<or> (\<exists>fault rest. rc_faults c = fault # rest \<and> fault \<noteq> Served)"
  shows "fst (rate_limit_allow rl now u c) = Inr True"
  using assms
  by (auto simp: rate_limit_allow_def rate_limit_key_def rate_limit_increment_def pipeline_execute_def Let_def
      proc_simps split: redis_fault.splits)

end
