(* ===== verification/IdentityDomain.thy ===== *)
theory IdentityDomain
  imports Errors
begin

section \<open>The identity domain: Email, User, RefreshToken\<close>

text \<open>
  The aggregates of \<open>contexts/identity/domain\<close>. A frozen dataclass with a \<open>__post_init__\<close> is its
  constructor (the raw value, \<open>Email\<close>) and the function that builds it from an argument and may raise
  (\<open>mk_email\<close>). A mutable aggregate is a record, and a method that changes it returns the changed
  record. The password hasher is the port the \<open>User\<close> methods are handed: a record of its two methods.
\<close>

subsection \<open>Email\<close>

datatype email = Email (email_value: string)

text \<open>\<open>[^@\s]\<close>\<close>

definition email_char :: "char \<Rightarrow> bool" where
  "email_char c = (c \<noteq> CHR ''@'' \<and> \<not> is_space c)"

definition email_pattern :: "re_item list" where
  "email_pattern =
     [Plus email_char, Lit CHR ''@'', Plus email_char, Lit CHR ''.'', Plus email_char, Eol]"

definition mk_email :: "string \<Rightarrow> email outcome" where
  "mk_email v =
     (let normalized = lower (strip v)
      in if \<not> re_match email_pattern normalized then Inl (InvalidEmail v)
         else Inr (Email normalized))"

text \<open>What the comment above the pattern promises: a single \<open>@\<close>, a dotted domain, no white space.\<close>

definition email_shape :: "string \<Rightarrow> bool" where
  "email_shape s =
     (\<exists>l d t. s = l @ ''@'' @ d @ ''.'' @ t \<and> l \<noteq> [] \<and> d \<noteq> [] \<and> t \<noteq> [] \<and>
        (\<forall>c \<in> set l \<union> set d \<union> set t. email_char c))"

subsection \<open>PasswordHash and the hashing port\<close>

datatype password_hash = PasswordHash (password_hash_value: string)

definition mk_password_hash :: "string \<Rightarrow> password_hash outcome" where
  "mk_password_hash v = (if v = [] then Inl ValueError else Inr (PasswordHash v))"

record password_hasher =
  ph_hash :: "string \<Rightarrow> password_hash outcome"
  ph_verify :: "string \<Rightarrow> password_hash \<Rightarrow> bool outcome"

subsection \<open>User\<close>

record user =
  u_id :: user_id
  u_email :: email
  u_password_hash :: password_hash
  u_created_at :: datetime

definition user_register ::
    "user_id \<Rightarrow> email \<Rightarrow> string \<Rightarrow> password_hasher \<Rightarrow> datetime \<Rightarrow> user outcome" where
  "user_register user_id email plaintext_password hasher created_at =
     bindr (ph_hash hasher plaintext_password) (\<lambda>h.
       Inr \<lparr>u_id = user_id, u_email = email, u_password_hash = h, u_created_at = created_at\<rparr>)"

definition user_verify_password :: "user \<Rightarrow> string \<Rightarrow> password_hasher \<Rightarrow> bool outcome" where
  "user_verify_password self candidate hasher = ph_verify hasher candidate (u_password_hash self)"

subsection \<open>RefreshToken\<close>

record refresh_token =
  rt_jti :: string
  rt_user_id :: user_id
  rt_token_hash :: string
  rt_expires_at :: datetime
  rt_revoked_at :: "datetime option"

definition refresh_token_issue ::
    "string \<Rightarrow> user_id \<Rightarrow> string \<Rightarrow> datetime \<Rightarrow> timedelta \<Rightarrow> refresh_token" where
  "refresh_token_issue jti user_id token_hash issued_at ttl =
     \<lparr>rt_jti = jti, rt_user_id = user_id, rt_token_hash = token_hash,
      rt_expires_at = issued_at + ttl, rt_revoked_at = None\<rparr>"

definition refresh_token_is_active :: "refresh_token \<Rightarrow> datetime \<Rightarrow> bool" where
  "refresh_token_is_active self now = (rt_revoked_at self = None \<and> now < rt_expires_at self)"

definition refresh_token_revoke :: "refresh_token \<Rightarrow> datetime \<Rightarrow> refresh_token" where
  "refresh_token_revoke self now =
     (if rt_revoked_at self = None then self\<lparr>rt_revoked_at := Some now\<rparr> else self)"

text \<open>\<open>rotate\<close> changes the token and returns its successor: the pair of both.\<close>

definition refresh_token_rotate ::
    "refresh_token \<Rightarrow> datetime \<Rightarrow> string \<Rightarrow> string \<Rightarrow> timedelta \<Rightarrow>
     (refresh_token \<times> refresh_token) outcome" where
  "refresh_token_rotate self now new_jti new_token_hash ttl =
     (if \<not> refresh_token_is_active self now then Inl InvalidRefreshToken
      else Inr (refresh_token_revoke self now,
                refresh_token_issue new_jti (rt_user_id self) new_token_hash now ttl))"

subsection \<open>Facts\<close>

lemma email_char_at: "\<not> email_char CHR ''@''"
  by (simp add: email_char_def)

lemma re_match_email:
  "re_match email_pattern s \<longleftrightarrow> (\<exists>t. (s = t \<or> s = t @ [CHR 0x0A]) \<and> email_shape t)"
proof
  assume "re_match email_pattern s"
  then obtain l d t r where
    s: "s = l @ CHR ''@'' # d @ CHR ''.'' # t @ r" and r: "r = [] \<or> r = [CHR 0x0A]" and
    p: "l \<noteq> []" "d \<noteq> []" "t \<noteq> []" "\<forall>c \<in> set l. email_char c" "\<forall>c \<in> set d. email_char c"
      "\<forall>c \<in> set t. email_char c"
    unfolding email_pattern_def re_match_Plus_iff re_match_Lit_iff by auto
  from p have "email_shape (l @ CHR ''@'' # d @ CHR ''.'' # t)"
    unfolding email_shape_def
    by (intro exI [of _ l] exI [of _ d] exI [of _ t]) auto
  with s r show "\<exists>t. (s = t \<or> s = t @ [CHR 0x0A]) \<and> email_shape t"
    by (intro exI [of _ "l @ CHR ''@'' # d @ CHR ''.'' # t"]) auto
next
  assume "\<exists>t. (s = t \<or> s = t @ [CHR 0x0A]) \<and> email_shape t"
  then obtain u l d t r where
    s: "s = u @ r" and r: "r = [] \<or> r = [CHR 0x0A]" and u: "u = l @ ''@'' @ d @ ''.'' @ t" and
    p: "l \<noteq> []" "d \<noteq> []" "t \<noteq> []" "\<forall>c \<in> set l \<union> set d \<union> set t. email_char c"
    unfolding email_shape_def by (metis append_Nil2)
  have "re_match [Plus email_char, Eol] (t @ r)"
    unfolding re_match_Plus_iff using p r by (intro exI [of _ t] exI [of _ r]) auto
  then have "re_match [Plus email_char, Lit CHR ''.'', Plus email_char, Eol] (d @ ''.'' @ t @ r)"
    unfolding re_match_Plus_iff [of _ "[Lit _, Plus _, Eol]"] re_match_Lit_iff
    using p by (intro exI [of _ d] exI [of _ "''.'' @ t @ r"]) auto
  then show "re_match email_pattern s"
    unfolding email_pattern_def
      re_match_Plus_iff [of _ "[Lit _, Plus _, Lit _, Plus _, Eol]"] re_match_Lit_iff [of "CHR ''@''"]
    using p s u by (intro exI [of _ l] exI [of _ "''@'' @ d @ ''.'' @ t @ r"]) auto
qed

text \<open>The \<open>$\<close> that accepts a final newline never does so: the text was stripped first.\<close>

lemma re_match_email_stripped: "stripped s \<Longrightarrow> re_match email_pattern s \<longleftrightarrow> email_shape s"
proof -
  assume "stripped s"
  then have "s \<noteq> t @ [CHR 0x0A]" for t
    by (auto simp: stripped_def is_space_def code_def)
  then show ?thesis by (auto simp: re_match_email)
qed

lemma mk_email_eq:
  "mk_email v = (if email_shape (lower (strip v)) then Inr (Email (lower (strip v)))
                 else Inl (InvalidEmail v))"
  by (simp add: mk_email_def Let_def re_match_email_stripped stripped_lower)

text \<open>An \<open>Email\<close> the program holds is normal: reading its value again gives it back.\<close>

definition email_wf :: "email \<Rightarrow> bool" where
  "email_wf e = (mk_email (email_value e) = Inr e)"

lemma mk_email_wf: "mk_email v = Inr e \<Longrightarrow> email_wf e"
  by (auto simp: email_wf_def mk_email_eq strip_fixed stripped_lower split: if_splits)

lemma email_wf_value: "email_wf e \<Longrightarrow> mk_email (email_value e) = Inr e"
  by (simp add: email_wf_def)

lemma email_shape_single_at:
  assumes "email_shape s"
  shows "count_list s CHR ''@'' = 1" and "\<forall>c \<in> set s. \<not> is_space c" and "5 \<le> length s"
proof -
  from assms obtain l d t where s: "s = l @ ''@'' @ d @ ''.'' @ t"
    and ne: "l \<noteq> []" "d \<noteq> []" "t \<noteq> []" and c: "\<forall>c \<in> set l \<union> set d \<union> set t. email_char c"
    unfolding email_shape_def by blast
  have "CHR ''@'' \<notin> set l" "CHR ''@'' \<notin> set d" "CHR ''@'' \<notin> set t"
    using c email_char_at by auto
  then show "count_list s CHR ''@'' = 1" by (simp add: s count_list_0_iff)
  show "\<forall>c \<in> set s. \<not> is_space c"
    using c by (auto simp: s email_char_def is_space_def code_def)
  from ne show "5 \<le> length s" by (cases l; cases d; cases t) (auto simp: s)
qed

lemma revoke_revoked_at: "rt_revoked_at (refresh_token_revoke t now) \<noteq> None"
  by (auto simp: refresh_token_revoke_def)

lemma revoke_fields [simp]:
  "rt_jti (refresh_token_revoke t now) = rt_jti t"
  "rt_user_id (refresh_token_revoke t now) = rt_user_id t"
  "rt_token_hash (refresh_token_revoke t now) = rt_token_hash t"
  "rt_expires_at (refresh_token_revoke t now) = rt_expires_at t"
  by (auto simp: refresh_token_revoke_def)

lemma revoke_inactive [simp]: "\<not> refresh_token_is_active (refresh_token_revoke t now) now'"
  using revoke_revoked_at by (auto simp: refresh_token_is_active_def)

lemma issue_fields [simp]:
  "rt_jti (refresh_token_issue j u h i ttl) = j"
  "rt_user_id (refresh_token_issue j u h i ttl) = u"
  "rt_token_hash (refresh_token_issue j u h i ttl) = h"
  "rt_expires_at (refresh_token_issue j u h i ttl) = i + ttl"
  "rt_revoked_at (refresh_token_issue j u h i ttl) = None"
  by (simp_all add: refresh_token_issue_def)

lemma issue_active_iff:
  "refresh_token_is_active (refresh_token_issue j u h i ttl) now \<longleftrightarrow> now < i + ttl"
  by (simp add: refresh_token_is_active_def)

lemma rotate_Inr_iff:
  "refresh_token_rotate t now j h ttl = Inr (a, b) \<longleftrightarrow>
     refresh_token_is_active t now \<and> a = refresh_token_revoke t now \<and>
     b = refresh_token_issue j (rt_user_id t) h now ttl"
  by (auto simp: refresh_token_rotate_def)

lemma rotate_Inl_iff:
  "refresh_token_rotate t now j h ttl = Inl e \<longleftrightarrow>
     \<not> refresh_token_is_active t now \<and> e = InvalidRefreshToken"
  by (auto simp: refresh_token_rotate_def)

end
