(* ===== verification/IdentityServices.thy ===== *)
theory IdentityServices
  imports IdentityDomain
begin

section \<open>The identity use cases and the ports they depend on\<close>

text \<open>
  \<open>contexts/identity/application\<close>. A port (a \<open>Protocol\<close>) is a record of its methods; a use case is a
  function of the ports it is constructed with, of the clock reading and the random values it draws
  (\<open>clock.now()\<close>, \<open>uuid4()\<close>), and of its arguments. The state \<open>'s\<close> is whatever the repositories
  change. The contracts of the two repositories are the locales \<open>user_store\<close> and
  \<open>refresh_token_store\<close>; the facts about the use cases are proved inside them once, for every
  implementation that keeps the contract.
\<close>

subsection \<open>Ports and DTOs\<close>

record 's user_repository =
  ur_add :: "user \<Rightarrow> (unit, 's) op"
  ur_get_by_email :: "email \<Rightarrow> (user option, 's) op"

record 's refresh_token_repository =
  rr_add :: "refresh_token \<Rightarrow> (unit, 's) op"
  rr_get_by_jti :: "string \<Rightarrow> (refresh_token option, 's) op"
  rr_save :: "refresh_token \<Rightarrow> (unit, 's) op"

record access_claims =
  ac_user_id :: user_id

record generated_refresh_token =
  gr_jti :: string
  gr_token :: string
  gr_token_hash :: string

record token_pair =
  tp_access_token :: string
  tp_refresh_token :: string

record token_service =
  ts_issue_access :: "user_id \<Rightarrow> string outcome"
  ts_decode_access :: "string \<Rightarrow> access_claims outcome"
  ts_generate_refresh :: "generated_refresh_token outcome"
  ts_parse_refresh :: "string \<Rightarrow> (string \<times> string) outcome"
  ts_verify_refresh :: "string \<Rightarrow> string \<Rightarrow> bool outcome"

subsection \<open>RegisterUser\<close>

definition register_user ::
    "'s user_repository \<Rightarrow> password_hasher \<Rightarrow> datetime \<Rightarrow> uuid \<Rightarrow> string \<Rightarrow> string \<Rightarrow>
     (user, 's) op" where
  "register_user users hasher now new_id email password =
     bindp (lift (mk_email email)) (\<lambda>address.
     bindp (ur_get_by_email users address) (\<lambda>existing.
     if existing \<noteq> None then throw (EmailAlreadyRegistered (email_value address))
     else
       bindp (lift (user_register (UserId new_id) address password hasher now)) (\<lambda>user.
       thenp (ur_add users user) (ret user))))"

subsection \<open>AuthenticateUser\<close>

definition authenticate_user ::
    "'s user_repository \<Rightarrow> 's refresh_token_repository \<Rightarrow> password_hasher \<Rightarrow> token_service \<Rightarrow>
     datetime \<Rightarrow> timedelta \<Rightarrow> string \<Rightarrow> string \<Rightarrow> (token_pair, 's) op" where
  "authenticate_user users refresh_tokens hasher tokens now refresh_ttl email password =
     bindp (try_except (lift (mk_email email))
              (\<lambda>e. case e of InvalidEmail _ \<Rightarrow> throw InvalidCredentials | _ \<Rightarrow> throw e)) (\<lambda>address.
     bindp (ur_get_by_email users address) (\<lambda>found.
     case found of
       None \<Rightarrow> bindp (lift (ph_hash hasher password)) (\<lambda>_. throw InvalidCredentials)
     | Some user \<Rightarrow>
         bindp (lift (user_verify_password user password hasher)) (\<lambda>verified.
         if \<not> verified then throw InvalidCredentials
         else
           bindp (lift (ts_generate_refresh tokens)) (\<lambda>generated.
           thenp (rr_add refresh_tokens
                    (refresh_token_issue (gr_jti generated) (u_id user) (gr_token_hash generated)
                       now refresh_ttl))
             (bindp (lift (ts_issue_access tokens (u_id user))) (\<lambda>access.
              ret \<lparr>tp_access_token = access, tp_refresh_token = gr_token generated\<rparr>))))))"

subsection \<open>RefreshAccessToken\<close>

text \<open>The part of \<open>execute\<close> that reads: parse the client's string, look the token up, compare.\<close>

definition refresh_lookup ::
    "'s refresh_token_repository \<Rightarrow> token_service \<Rightarrow> string \<Rightarrow> (refresh_token, 's) op" where
  "refresh_lookup refresh_tokens tokens refresh_token =
     bindp (lift (ts_parse_refresh tokens refresh_token)) (\<lambda>(jti, secret).
     bindp (rr_get_by_jti refresh_tokens jti) (\<lambda>found.
     case found of
       None \<Rightarrow> throw InvalidRefreshToken
     | Some stored \<Rightarrow>
         bindp (lift (ts_verify_refresh tokens secret (rt_token_hash stored))) (\<lambda>verified.
         if \<not> verified then throw InvalidRefreshToken else ret stored)))"

text \<open>The part that writes: rotate the token that was read, save it, add its successor.\<close>

definition refresh_rotate ::
    "'s refresh_token_repository \<Rightarrow> token_service \<Rightarrow> datetime \<Rightarrow> timedelta \<Rightarrow> refresh_token \<Rightarrow>
     (token_pair, 's) op" where
  "refresh_rotate refresh_tokens tokens now refresh_ttl stored =
     bindp (lift (ts_generate_refresh tokens)) (\<lambda>generated.
     bindp (lift (refresh_token_rotate stored now (gr_jti generated) (gr_token_hash generated)
              refresh_ttl)) (\<lambda>(stored, rotated).
     thenp (rr_save refresh_tokens stored)
       (thenp (rr_add refresh_tokens rotated)
         (bindp (lift (ts_issue_access tokens (rt_user_id stored))) (\<lambda>access.
          ret \<lparr>tp_access_token = access, tp_refresh_token = gr_token generated\<rparr>)))))"

definition refresh_access_token ::
    "'s refresh_token_repository \<Rightarrow> token_service \<Rightarrow> datetime \<Rightarrow> timedelta \<Rightarrow> string \<Rightarrow>
     (token_pair, 's) op" where
  "refresh_access_token refresh_tokens tokens now refresh_ttl refresh_token =
     bindp (refresh_lookup refresh_tokens tokens refresh_token)
       (refresh_rotate refresh_tokens tokens now refresh_ttl)"

subsection \<open>The contract of UserRepository\<close>

text \<open>
  \<open>clean s\<close>: a state in which the repository may be queried. \<open>ready s\<close>: what was written can be
  committed. \<open>registered s\<close>: the users, by address. \<open>free_id s i\<close>: no stored user has this id.
\<close>

locale user_store =
  fixes users :: "'s user_repository"
    and clean :: "'s \<Rightarrow> bool"
    and ready :: "'s \<Rightarrow> bool"
    and registered :: "'s \<Rightarrow> email \<Rightarrow> user option"
    and free_id :: "'s \<Rightarrow> user_id \<Rightarrow> bool"
  assumes get_by_email_law:
      "clean s \<Longrightarrow> email_wf e \<Longrightarrow> ur_get_by_email users e s = (Inr (registered s e), s)"
    and add_law:
      "clean s \<Longrightarrow> email_wf (u_email u) \<Longrightarrow> length (email_value (u_email u)) \<le> 320 \<Longrightarrow>
        password_hash_value (u_password_hash u) \<noteq> [] \<Longrightarrow>
        registered s (u_email u) = None \<Longrightarrow> free_id s (u_id u) \<Longrightarrow>
        \<exists>s'. ur_add users u s = (Inr (), s') \<and> ready s' \<and> registered s' = (registered s)(u_email u \<mapsto> u)"
begin

lemma register_new:
  assumes "clean s" and "mk_email email = Inr a" and "registered s a = None"
    and "length (email_value a) \<le> 320"
    and "ph_hash hasher password = Inr h" and "password_hash_value h \<noteq> []" and "free_id s (UserId i)"
  shows "\<exists>s'. register_user users hasher now i email password s =
      (Inr \<lparr>u_id = UserId i, u_email = a, u_password_hash = h, u_created_at = now\<rparr>, s') \<and> ready s' \<and>
    registered s' = (registered s)
      (a \<mapsto> \<lparr>u_id = UserId i, u_email = a, u_password_hash = h, u_created_at = now\<rparr>)"
proof -
  let ?u = "\<lparr>u_id = UserId i, u_email = a, u_password_hash = h, u_created_at = now\<rparr>"
  have wf: "email_wf a" using assms(2) by (rule mk_email_wf)
  with assms add_law [of s ?u] obtain s' where
    "ur_add users ?u s = (Inr (), s')" "ready s'" "registered s' = (registered s)(a \<mapsto> ?u)" by auto
  with assms wf get_by_email_law [of s a] show ?thesis
    by (auto simp: register_user_def user_register_def proc_simps)
qed

lemma register_duplicate:
  assumes "clean s" and "mk_email email = Inr a" and "registered s a = Some u"
  shows "register_user users hasher now i email password s =
    (Inl (EmailAlreadyRegistered (email_value a)), s)"
  using assms get_by_email_law [of s a] mk_email_wf [of email a]
  by (simp add: register_user_def proc_simps)

lemma authenticate_unknown:
  assumes "clean s" and "mk_email email = Inr a" and "registered s a = None"
  shows "authenticate_user users rts hasher tokens now ttl email password s =
    (case ph_hash hasher password of Inl e \<Rightarrow> Inl e | Inr _ \<Rightarrow> Inl InvalidCredentials, s)"
  using assms get_by_email_law [of s a] mk_email_wf [of email a]
  by (simp add: authenticate_user_def proc_simps split: sum.splits)

lemma authenticate_wrong_password:
  assumes "clean s" and "mk_email email = Inr a" and "registered s a = Some u"
    and "ph_verify hasher password (u_password_hash u) = Inr False"
  shows "authenticate_user users rts hasher tokens now ttl email password s =
    (Inl InvalidCredentials, s)"
  using assms get_by_email_law [of s a] mk_email_wf [of email a]
  by (simp add: authenticate_user_def user_verify_password_def proc_simps)

end

lemma authenticate_malformed:
  assumes "mk_email email = Inl e"
  shows "authenticate_user users rts hasher tokens now ttl email password s = (Inl InvalidCredentials, s)"
  using assms by (auto simp: authenticate_user_def proc_simps mk_email_def Let_def split: if_splits)

subsection \<open>The contract of RefreshTokenRepository\<close>

text \<open>
  \<open>stored s\<close>: the tokens by their \<open>jti\<close>; \<open>known s u\<close>: the user a token may refer to exists.
\<close>

locale refresh_token_store =
  fixes tokens_repo :: "'s refresh_token_repository"
    and clean :: "'s \<Rightarrow> bool"
    and ready :: "'s \<Rightarrow> bool"
    and stored :: "'s \<Rightarrow> string \<Rightarrow> refresh_token option"
    and known :: "'s \<Rightarrow> user_id \<Rightarrow> bool"
  assumes get_by_jti_law: "clean s \<Longrightarrow> rr_get_by_jti tokens_repo j s = (Inr (stored s j), s)"
    and stored_jti: "clean s \<Longrightarrow> stored s j = Some t \<Longrightarrow> rt_jti t = j \<and> known s (rt_user_id t)"
    and save_law:
      "clean s \<Longrightarrow> stored s (rt_jti t) \<noteq> None \<Longrightarrow> known s (rt_user_id t) \<Longrightarrow>
        \<exists>s'. rr_save tokens_repo t s = (Inr (), s') \<and> clean s' \<and> known s' = known s \<and>
          stored s' = (stored s)(rt_jti t \<mapsto> t)"
    and add_law:
      "clean s \<Longrightarrow> stored s (rt_jti t) = None \<Longrightarrow> known s (rt_user_id t) \<Longrightarrow>
        \<exists>s'. rr_add tokens_repo t s = (Inr (), s') \<and> ready s' \<and> stored s' = (stored s)(rt_jti t \<mapsto> t)"
begin

lemma lookup_unknown:
  assumes "clean s" and "ts_parse_refresh ts tok = Inr (j, sec)" and "stored s j = None"
  shows "refresh_lookup tokens_repo ts tok s = (Inl InvalidRefreshToken, s)"
  using assms get_by_jti_law by (simp add: refresh_lookup_def proc_simps)

lemma lookup_known:
  assumes "clean s" and "ts_parse_refresh ts tok = Inr (j, sec)" and "stored s j = Some t"
    and "ts_verify_refresh ts sec (rt_token_hash t) = Inr v"
  shows "refresh_lookup tokens_repo ts tok s =
    ((if v then Inr t else Inl InvalidRefreshToken), s)"
  using assms get_by_jti_law by (simp add: refresh_lookup_def proc_simps)

text \<open>The writing half acts on the token that was read, whatever the stored one has become meanwhile.\<close>

lemma rotate_read:
  assumes "clean s" and "stored s (rt_jti t) = Some q" and "rt_user_id q = rt_user_id t"
    and "refresh_token_is_active t now" and "ts_generate_refresh ts = Inr g" and "stored s (gr_jti g) = None"
    and "ts_issue_access ts (rt_user_id t) = Inr a"
  shows "\<exists>s'. refresh_rotate tokens_repo ts now ttl t s =
      (Inr \<lparr>tp_access_token = a, tp_refresh_token = gr_token g\<rparr>, s') \<and> ready s' \<and>
    stored s' = (stored s)(rt_jti t \<mapsto> refresh_token_revoke t now,
      gr_jti g \<mapsto> refresh_token_issue (gr_jti g) (rt_user_id t) (gr_token_hash g) now ttl)"
proof -
  let ?r = "refresh_token_revoke t now"
  let ?n = "refresh_token_issue (gr_jti g) (rt_user_id t) (gr_token_hash g) now ttl"
  have known: "known s (rt_user_id t)" using stored_jti [OF assms(1,2)] assms(3) by simp
  with save_law [of s ?r] assms(1,2) obtain s1 where s1:
    "rr_save tokens_repo ?r s = (Inr (), s1)" "clean s1" "known s1 = known s"
    "stored s1 = (stored s)(rt_jti t \<mapsto> ?r)" by auto
  have ne: "gr_jti g \<noteq> rt_jti t" using assms(2,6) by auto
  with add_law [of s1 ?n] s1 assms(6) known obtain s2 where s2:
    "rr_add tokens_repo ?n s1 = (Inr (), s2)" "ready s2" "stored s2 = (stored s1)(gr_jti g \<mapsto> ?n)" by auto
  have "refresh_token_rotate t now (gr_jti g) (gr_token_hash g) ttl = Inr (?r, ?n)"
    using assms(4) by (simp add: rotate_Inr_iff)
  with s1 s2 assms(5,7) show ?thesis
    by (auto simp: refresh_rotate_def proc_simps)
qed

lemma rotate_active:
  assumes "clean s" and "stored s (rt_jti t) = Some t" and "refresh_token_is_active t now"
    and "ts_generate_refresh ts = Inr g" and "stored s (gr_jti g) = None"
    and "ts_issue_access ts (rt_user_id t) = Inr a"
  shows "\<exists>s'. refresh_rotate tokens_repo ts now ttl t s =
      (Inr \<lparr>tp_access_token = a, tp_refresh_token = gr_token g\<rparr>, s') \<and> ready s' \<and>
    stored s' = (stored s)(rt_jti t \<mapsto> refresh_token_revoke t now,
      gr_jti g \<mapsto> refresh_token_issue (gr_jti g) (rt_user_id t) (gr_token_hash g) now ttl)"
  using rotate_read [OF assms(1,2) refl assms(3-6)] .

lemma rotate_inactive:
  assumes "\<not> refresh_token_is_active t now" and "ts_generate_refresh ts = Inr g"
  shows "refresh_rotate tokens_repo ts now ttl t s = (Inl InvalidRefreshToken, s)"
  using assms by (simp add: refresh_rotate_def refresh_token_rotate_def proc_simps)

lemma refresh_ok:
  assumes "clean s" and "ts_parse_refresh ts tok = Inr (j, sec)" and "stored s j = Some t"
    and "ts_verify_refresh ts sec (rt_token_hash t) = Inr True" and "refresh_token_is_active t now"
    and "ts_generate_refresh ts = Inr g" and "stored s (gr_jti g) = None"
    and "ts_issue_access ts (rt_user_id t) = Inr a"
  shows "\<exists>s'. refresh_access_token tokens_repo ts now ttl tok s =
      (Inr \<lparr>tp_access_token = a, tp_refresh_token = gr_token g\<rparr>, s') \<and> ready s' \<and>
    stored s' = (stored s)(j \<mapsto> refresh_token_revoke t now,
      gr_jti g \<mapsto> refresh_token_issue (gr_jti g) (rt_user_id t) (gr_token_hash g) now ttl)"
proof -
  have j: "rt_jti t = j" using assms(1,3) stored_jti by blast
  then show ?thesis
    using rotate_active [of s t now ts g a ttl] lookup_known [OF assms(1-4)] assms
    by (auto simp: refresh_access_token_def bindp_InrI)
qed

lemma refresh_replay:
  assumes "clean s" and "ts_parse_refresh ts tok = Inr (j, sec)" and "stored s j = Some t"
    and "ts_verify_refresh ts sec (rt_token_hash t) = Inr v" and "\<not> refresh_token_is_active t now"
    and "ts_generate_refresh ts = Inr g"
  shows "refresh_access_token tokens_repo ts now ttl tok s = (Inl InvalidRefreshToken, s)"
  using rotate_inactive [OF assms(5,6)] lookup_known [OF assms(1-4)]
  by (cases v) (simp_all add: refresh_access_token_def bindp_InrI bindp_InlI)

lemma refresh_unknown:
  assumes "clean s" and "ts_parse_refresh ts tok = Inr (j, sec)" and "stored s j = None"
  shows "refresh_access_token tokens_repo ts now ttl tok s = (Inl InvalidRefreshToken, s)"
  using lookup_unknown [OF assms] by (simp add: refresh_access_token_def bindp_InlI)

end

subsection \<open>Both stores of a session\<close>

locale identity_store =
  user_store users clean ready registered free_id + refresh_token_store tokens_repo clean ready stored known
  for users :: "'s user_repository" and tokens_repo :: "'s refresh_token_repository"
    and clean :: "'s \<Rightarrow> bool" and ready :: "'s \<Rightarrow> bool"
    and registered :: "'s \<Rightarrow> email \<Rightarrow> user option" and free_id :: "'s \<Rightarrow> user_id \<Rightarrow> bool"
    and stored :: "'s \<Rightarrow> string \<Rightarrow> refresh_token option" and known :: "'s \<Rightarrow> user_id \<Rightarrow> bool" +
  assumes registered_known: "clean s \<Longrightarrow> registered s e = Some u \<Longrightarrow> known s (u_id u)"
begin

lemma authenticate_ok:
  assumes "clean s" and "mk_email email = Inr a" and "registered s a = Some u"
    and "ph_verify hasher password (u_password_hash u) = Inr True"
    and "ts_generate_refresh ts = Inr g" and "stored s (gr_jti g) = None"
    and "ts_issue_access ts (u_id u) = Inr acc"
  shows "\<exists>s'. authenticate_user users tokens_repo hasher ts now ttl email password s =
      (Inr \<lparr>tp_access_token = acc, tp_refresh_token = gr_token g\<rparr>, s') \<and> ready s' \<and>
    stored s' = (stored s)
      (gr_jti g \<mapsto> refresh_token_issue (gr_jti g) (u_id u) (gr_token_hash g) now ttl)"
proof -
  let ?t = "refresh_token_issue (gr_jti g) (u_id u) (gr_token_hash g) now ttl"
  have "known s (u_id u)" using assms(1,3) by (rule registered_known)
  with refresh_token_store.add_law [OF refresh_token_store_axioms assms(1), of ?t] assms(6) obtain s' where
    "rr_add tokens_repo ?t s = (Inr (), s')" "ready s'" "stored s' = (stored s)(gr_jti g \<mapsto> ?t)" by auto
  with assms get_by_email_law [of s a] mk_email_wf [of email a] show ?thesis
    by (auto simp: authenticate_user_def user_verify_password_def proc_simps)
qed

end

end
