(* ===== verification/WebSocketHandler.thy ===== *)
theory WebSocketHandler
  imports Protocol MessagingPorts IdentityServices
begin

section \<open>The WebSocket endpoint\<close>

text \<open>
  \<open>realtime/websocket.py\<close>: authentication by the first frame, admission, joining the fan-out, replay,
  the receive loop, and leaving. What the endpoint is injected with is a record of operations over a
  state \<open>'w\<close> (\<open>ws_deps\<close>); each may raise anything and change the state in any way, so what is shown
  here for every such record holds whatever the other coroutines do between two awaits. The receive
  loop need not end: its value is then \<open>None\<close>. Cancellation of the task is not modelled.
\<close>

subsection \<open>What the endpoint is given\<close>

text \<open>\<open>ws_receive_first\<close> is \<open>receive_json\<close> under \<open>wait_for\<close>; \<open>ws_send\<close> and \<open>ws_connection_close\<close> are those of
  the \<open>Connection\<close> around the socket.\<close>

record 'w ws_deps =
  ws_accept :: "(unit, 'w) op"
  ws_receive_first :: "(json, 'w) op"
  ws_receive :: "(json, 'w) op"
  ws_close :: "int \<Rightarrow> (unit, 'w) op"
  ws_send :: "json \<Rightarrow> (unit, 'w) op"
  ws_connection_close :: "int \<Rightarrow> (unit, 'w) op"
  ws_decode_access :: "string \<Rightarrow> (access_claims, 'w) op"
  ws_ensure :: "conversation_id \<Rightarrow> participant_id \<Rightarrow> (unit, 'w) op"
  ws_join :: "conversation_id \<Rightarrow> (unit, 'w) op"
  ws_leave :: "conversation_id \<Rightarrow> (unit, 'w) op"
  ws_replay_since :: "conversation_id \<Rightarrow> message_id option \<Rightarrow> (message list, 'w) op"
  ws_allow :: "uuid \<Rightarrow> (bool, 'w) op"
  ws_exchange :: "conversation_id \<Rightarrow> sender_id \<Rightarrow> message_content \<Rightarrow> client_message_id option \<Rightarrow> (message, 'w) op"

definition AUTH_FAILED_CLOSE :: int where "AUTH_FAILED_CLOSE = 4401"

definition FORBIDDEN_CLOSE :: int where "FORBIDDEN_CLOSE = 4403"

definition INTERNAL_ERROR_CLOSE :: int where "INTERNAL_ERROR_CLOSE = 1011"

lemmas close_codes = AUTH_FAILED_CLOSE_def FORBIDDEN_CLOSE_def INTERNAL_ERROR_CLOSE_def

subsection \<open>Opening\<close>

definition ws_authenticate ::
    "field_readers \<Rightarrow> 'w ws_deps \<Rightarrow> ((access_claims \<times> string \<times> int option) option, 'w) op" where
  "ws_authenticate v d =
     bindp (try_except (bindp (ws_receive_first d) (\<lambda>raw. ret (Some raw))) (\<lambda>e.
       if e = WebSocketDisconnect then ret None
       else if e = TimeoutError \<or> is_value_error e then thenp (ws_close d AUTH_FAILED_CLOSE) (ret None)
       else throw e)) (\<lambda>received.
     case received of
       None \<Rightarrow> ret None
     | Some raw \<Rightarrow>
         try_except
           (bindp (lift (validate_auth_frame v raw)) (\<lambda>frame.
            bindp (ws_decode_access d (af_token frame)) (\<lambda>claims.
              ret (Some (claims, af_token frame, af_last_seen_seq frame)))))
           (\<lambda>e. if e = ValidationError \<or> e = InvalidAccessToken
                 then thenp (ws_close d AUTH_FAILED_CLOSE) (ret None)
                 else throw e))"

text \<open>What an admitted socket is served with.\<close>

record ws_session =
  sn_sender_id :: sender_id
  sn_token :: string
  sn_last_seen_seq :: "int option"

text \<open>\<open>conversation_ws\<close> up to and including \<open>registry.join\<close>; \<open>None\<close> where it returns early.\<close>

fun is_refusal :: "exn \<Rightarrow> bool" where
  "is_refusal (ConversationNotFound _) = True"
| "is_refusal NotConversationParticipant = True"
| "is_refusal _ = False"

definition ws_admit ::
    "'w ws_deps \<Rightarrow> conversation_id \<Rightarrow> access_claims \<times> string \<times> int option \<Rightarrow> (ws_session option, 'w) op" where
  "ws_admit d conversation = (\<lambda>(claims, token, last_seen_seq).
     let participant_id = ParticipantId (user_id_value (ac_user_id claims))
     in bindp (try_except (thenp (ws_ensure d conversation participant_id) (ret True)) (\<lambda>e.
          if is_refusal e then thenp (ws_close d FORBIDDEN_CLOSE) (ret False) else throw e)) (\<lambda>admitted.
        if \<not> admitted then ret None
        else thenp (ws_send d auth_ok)
          (bindp (try_except (thenp (ws_join d conversation) (ret True)) (\<lambda>_.
             thenp (ws_connection_close d INTERNAL_ERROR_CLOSE) (ret False))) (\<lambda>joined.
           ret (if joined
                then Some \<lparr>sn_sender_id = SenderId (user_id_value (ac_user_id claims)), sn_token = token,
                           sn_last_seen_seq = last_seen_seq\<rparr>
                else None)))))"

definition ws_open ::
    "field_readers \<Rightarrow> 'w ws_deps \<Rightarrow> conversation_id \<Rightarrow> (ws_session option, 'w) op" where
  "ws_open v d conversation =
     thenp (ws_accept d) (bindp (ws_authenticate v d) (\<lambda>authenticated.
       case authenticated of None \<Rightarrow> ret None | Some a \<Rightarrow> ws_admit d conversation a))"

subsection \<open>Serving\<close>

definition replay_missed :: "'w ws_deps \<Rightarrow> conversation_id \<Rightarrow> int option \<Rightarrow> (unit, 'w) op" where
  "replay_missed d conversation last_seen_seq =
     (case last_seen_seq of
        None \<Rightarrow> ret ()
      | Some n \<Rightarrow> bindp (ws_replay_since d conversation (Some (MessageId n))) (\<lambda>missed.
          for_each missed (\<lambda>message. ws_send d (message_new message))))"

datatype loop_control = Continue | Return

definition read_message :: "field_readers \<Rightarrow> json \<Rightarrow> (message_content \<times> client_message_id option) outcome" where
  "read_message v raw =
     bindr (validate_send_frame v raw) (\<lambda>frame.
     bindr (mk_message_content (sf_content frame)) (\<lambda>content.
       Inr (content, map_option ClientMessageId (sf_client_message_id frame))))"

text \<open>The token is checked again for every message; an expired one closes the socket.\<close>

definition token_still_valid :: "'w ws_deps \<Rightarrow> ws_session \<Rightarrow> (bool, 'w) op" where
  "token_still_valid d sn =
     try_except (bindp (ws_decode_access d (sn_token sn)) (\<lambda>_. ret True)) (\<lambda>e.
       if e = InvalidAccessToken then thenp (ws_close d AUTH_FAILED_CLOSE) (ret False) else throw e)"

text \<open>From the token check on: the part of the loop's body a well-formed frame reaches.\<close>

definition handle_message ::
    "'w ws_deps \<Rightarrow> conversation_id \<Rightarrow> ws_session \<Rightarrow> message_content \<Rightarrow> client_message_id option \<Rightarrow>
     (loop_control, 'w) op" where
  "handle_message d conversation sn content client_message_id =
     bindp (token_still_valid d sn) (\<lambda>valid.
     if \<not> valid then ret Return
     else bindp (try_except
            (bindp (ws_exchange d conversation (sn_sender_id sn) content client_message_id) (\<lambda>m. ret (Some m)))
            (\<lambda>_. thenp (ws_send d (error_frame ''failed to handle message'')) (ret None))) (\<lambda>exchanged.
          case exchanged of
            None \<Rightarrow> ret Continue
          | Some user_message \<Rightarrow> thenp (ws_send d (message_ack user_message)) (ret Continue)))"

text \<open>A payload that is not JSON is held as \<open>None\<close>, as the JSON \<open>null\<close> is.\<close>

definition receive_frame :: "'w ws_deps \<Rightarrow> (json, 'w) op" where
  "receive_frame d = try_except (ws_receive d) (\<lambda>e. if is_value_error e then ret JNull else throw e)"

text \<open>One turn of \<open>_receive_loop\<close>.\<close>

definition receive_step ::
    "field_readers \<Rightarrow> 'w ws_deps \<Rightarrow> conversation_id \<Rightarrow> ws_session \<Rightarrow> (loop_control, 'w) op" where
  "receive_step v d conversation sn =
     bindp (receive_frame d) (\<lambda>raw.
     bindp (ws_allow d (sender_id_value (sn_sender_id sn))) (\<lambda>allowed.
     if \<not> allowed then thenp (ws_send d (error_frame ''rate limit exceeded'')) (ret Continue)
     else if raw = JNull then thenp (ws_send d (error_frame ''invalid JSON'')) (ret Continue)
     else case read_message v raw of
         Inl e \<Rightarrow>
           (if e = ValidationError \<or> e = InvalidMessageContent
            then thenp (ws_send d (error_frame ''invalid message frame'')) (ret Continue)
            else throw e)
       | Inr (content, client_message_id) \<Rightarrow> handle_message d conversation sn content client_message_id))"

partial_function (option) receive_loop ::
    "field_readers \<Rightarrow> 'w ws_deps \<Rightarrow> conversation_id \<Rightarrow> ws_session \<Rightarrow> 'w \<Rightarrow> ((exn + unit) \<times> 'w) option" where
  "receive_loop v d conversation sn w =
     (case receive_step v d conversation sn w of
        (Inl e, w') \<Rightarrow> Some (Inl e, w')
      | (Inr Return, w') \<Rightarrow> Some (Inr (), w')
      | (Inr Continue, w') \<Rightarrow> receive_loop v d conversation sn w')"

text \<open>The \<open>except\<close> and \<open>finally\<close> clauses around replay and the loop.\<close>

definition ws_finish :: "'w ws_deps \<Rightarrow> conversation_id \<Rightarrow> exn + unit \<Rightarrow> (unit, 'w) op" where
  "ws_finish d conversation outcome =
     try_finally
       (try_except (lift outcome) (\<lambda>e.
          if e = WebSocketDisconnect then ret () else ws_connection_close d INTERNAL_ERROR_CLOSE))
       (ws_leave d conversation)"

definition ws_serve ::
    "field_readers \<Rightarrow> 'w ws_deps \<Rightarrow> conversation_id \<Rightarrow> ws_session \<Rightarrow> 'w \<Rightarrow> ((exn + unit) \<times> 'w) option" where
  "ws_serve v d conversation sn w =
     (case replay_missed d conversation (sn_last_seen_seq sn) w of
        (Inl e, w') \<Rightarrow> Some (Inl e, w')
      | (Inr _, w') \<Rightarrow> receive_loop v d conversation sn w')"

definition conversation_ws ::
    "field_readers \<Rightarrow> 'w ws_deps \<Rightarrow> conversation_id \<Rightarrow> 'w \<Rightarrow> ((exn + unit) \<times> 'w) option" where
  "conversation_ws v d conversation w =
     (case ws_open v d conversation w of
        (Inl e, w') \<Rightarrow> Some (Inl e, w')
      | (Inr None, w') \<Rightarrow> Some (Inr (), w')
      | (Inr (Some sn), w') \<Rightarrow>
          map_option (\<lambda>(outcome, w''). ws_finish d conversation outcome w'')
            (ws_serve v d conversation sn w'))"

lemma read_message_Inl: "read_message v raw = Inl e \<Longrightarrow> e = ValidationError \<or> e = InvalidMessageContent"
  by (auto simp: read_message_def bindr_def mk_message_content_def dest: validate_Inl split: sum.splits if_splits)

text \<open>The loop ends when every turn that goes on uses something up.\<close>

lemma receive_loop_ends:
  assumes "\<And>w w'. receive_step v d cid sn w = (Inr Continue, w') \<Longrightarrow> (left w' :: nat) < left w"
  shows "\<exists>r w'. receive_loop v d cid sn w = Some (r, w')"
proof (induction "left w" arbitrary: w rule: less_induct)
  case less
  obtain q w1 where q: "receive_step v d cid sn w = (q, w1)" by (cases "receive_step v d cid sn w")
  show ?case
  proof (cases "q = Inr Continue")
    case True
    with q assms have "left w1 < left w" by simp
    from less [OF this] q True show ?thesis by (subst receive_loop.simps) simp
  next
    case False
    with q show ?thesis by (subst receive_loop.simps) (auto split: sum.split loop_control.split)
  qed
qed

lemma conversation_ws_ends:
  assumes "\<And>sn w w'. receive_step v d cid sn w = (Inr Continue, w') \<Longrightarrow> (left w' :: nat) < left w"
  shows "\<exists>r w'. conversation_ws v d cid w = Some (r, w')"
proof -
  have "\<exists>r w'. ws_serve v d cid sn w = Some (r, w')" for sn w
    using receive_loop_ends [of v d cid sn left] assms
    by (auto simp: ws_serve_def split: prod.split sum.split)
  then show ?thesis
    unfolding conversation_ws_def
    by (cases "ws_open v d cid w") (auto split: sum.split option.split, metis option.simps(9) prod.exhaust)
qed

end
