(* ===== verification/SocketProtocol.thy ===== *)
theory SocketProtocol
  imports WebSocketHandler
begin

section \<open>The life of a socket as a state machine\<close>

text \<open>
  An abstract account of what the endpoint may do, and in which order: a deterministic automaton over
  the calls it makes. The endpoint is run over dependencies that record every call and its outcome
  (\<open>traced\<close>); every completed run is shown to be a run of the automaton that ends unjoined. The
  dependencies are arbitrary, so the result covers every failure and every interleaving.
\<close>

subsection \<open>Recording\<close>

datatype ws_event =
    Accepted
  | Received "exn + json"
  | Closed int
  | Sent json
  | Decoded string "exn + access_claims"
  | Ensured participant_id "exn + unit"
  | Joined "exn + unit"
  | Left
  | Replayed "message_id option" "exn + message list"
  | Allowed uuid "exn + bool"
  | Exchanged sender_id message_content "client_message_id option" "exn + message"

definition recording :: "(exn + 'a \<Rightarrow> ws_event) \<Rightarrow> ('a, 'w) op \<Rightarrow> ('a, 'w \<times> ws_event list) op" where
  "recording event m = (\<lambda>(w, tr). case m w of (r, w') \<Rightarrow> (r, w', tr @ [event r]))"

definition traced :: "'w ws_deps \<Rightarrow> ('w \<times> ws_event list) ws_deps" where
  "traced d =
     \<lparr>ws_accept = recording (\<lambda>_. Accepted) (ws_accept d),
      ws_receive_first = recording Received (ws_receive_first d),
      ws_receive = recording Received (ws_receive d),
      ws_close = (\<lambda>status. recording (\<lambda>_. Closed status) (ws_close d status)),
      ws_send = (\<lambda>frame. recording (\<lambda>_. Sent frame) (ws_send d frame)),
      ws_connection_close = (\<lambda>status. recording (\<lambda>_. Closed status) (ws_connection_close d status)),
      ws_decode_access = (\<lambda>token. recording (Decoded token) (ws_decode_access d token)),
      ws_ensure = (\<lambda>conversation p. recording (Ensured p) (ws_ensure d conversation p)),
      ws_join = (\<lambda>conversation. recording Joined (ws_join d conversation)),
      ws_leave = (\<lambda>conversation. recording (\<lambda>_. Left) (ws_leave d conversation)),
      ws_replay_since = (\<lambda>conversation after. recording (Replayed after) (ws_replay_since d conversation after)),
      ws_allow = (\<lambda>u. recording (Allowed u) (ws_allow d u)),
      ws_exchange = (\<lambda>conversation sender content key.
        recording (Exchanged sender content key) (ws_exchange d conversation sender content key))\<rparr>"

lemma traced_simps [simp]:
  "ws_accept (traced d) = recording (\<lambda>_. Accepted) (ws_accept d)"
  "ws_receive_first (traced d) = recording Received (ws_receive_first d)"
  "ws_receive (traced d) = recording Received (ws_receive d)"
  "ws_close (traced d) status = recording (\<lambda>_. Closed status) (ws_close d status)"
  "ws_send (traced d) frame = recording (\<lambda>_. Sent frame) (ws_send d frame)"
  "ws_connection_close (traced d) status = recording (\<lambda>_. Closed status) (ws_connection_close d status)"
  "ws_decode_access (traced d) token = recording (Decoded token) (ws_decode_access d token)"
  "ws_ensure (traced d) cid p = recording (Ensured p) (ws_ensure d cid p)"
  "ws_join (traced d) cid = recording Joined (ws_join d cid)"
  "ws_leave (traced d) cid = recording (\<lambda>_. Left) (ws_leave d cid)"
  "ws_replay_since (traced d) cid after = recording (Replayed after) (ws_replay_since d cid after)"
  "ws_allow (traced d) u = recording (Allowed u) (ws_allow d u)"
  "ws_exchange (traced d) cid sender content key = recording (Exchanged sender content key) (ws_exchange d cid sender content key)"
  by (simp_all add: traced_def)

subsection \<open>The automaton\<close>

datatype phase =
    Fresh
  | Opened
  | Presented json
  | Refusing
  | Identified access_claims string "int option"
  | Admitted ws_session
  | Greeted ws_session
  | Forbidden
  | Unjoined
  | Done
  | Replaying ws_session int
  | Serving ws_session "message list"
  | Pending ws_session json
  | Limited ws_session
  | Counted ws_session json
  | Expired ws_session
  | Checked ws_session message_content "client_message_id option"
  | Acking ws_session message
  | Failed ws_session
  | Leaving
  | Gone

text \<open>The phases in which the socket is registered for the conversation's messages.\<close>

fun joined :: "phase \<Rightarrow> bool" where
  "joined (Replaying _ _) = True"
| "joined (Serving _ _) = True"
| "joined (Pending _ _) = True"
| "joined (Limited _) = True"
| "joined (Counted _ _) = True"
| "joined (Expired _) = True"
| "joined (Checked _ _ _) = True"
| "joined (Acking _ _) = True"
| "joined (Failed _) = True"
| "joined Leaving = True"
| "joined _ = False"

definition session_of :: "access_claims \<Rightarrow> string \<Rightarrow> int option \<Rightarrow> ws_session" where
  "session_of claims token seq =
     \<lparr>sn_sender_id = SenderId (user_id_value (ac_user_id claims)), sn_token = token, sn_last_seen_seq = seq\<rparr>"

definition user_of :: "ws_session \<Rightarrow> uuid" where
  "user_of sn = sender_id_value (sn_sender_id sn)"

text \<open>One step, by the kind of call; \<open>None\<close>: not allowed in this phase.\<close>

definition on_received :: "exn + json \<Rightarrow> phase \<Rightarrow> phase option" where
  "on_received r p =
     (case p of
        Opened \<Rightarrow> Some (case r of Inl _ \<Rightarrow> Refusing | Inr raw \<Rightarrow> Presented raw)
      | Serving sn [] \<Rightarrow>
          Some (case r of
              Inr raw \<Rightarrow> Pending sn raw
            | Inl e \<Rightarrow> if is_value_error e then Pending sn JNull else Leaving)
      | _ \<Rightarrow> None)"

definition on_decoded :: "field_readers \<Rightarrow> string \<Rightarrow> exn + access_claims \<Rightarrow> phase \<Rightarrow> phase option" where
  "on_decoded v token r p =
     (case p of
        Presented raw \<Rightarrow>
          (case (validate_auth_frame v raw, r) of
             (Inr frame, Inr claims) \<Rightarrow>
               if af_token frame = token then Some (Identified claims token (af_last_seen_seq frame)) else None
           | (Inr frame, Inl _) \<Rightarrow> if af_token frame = token then Some Refusing else None
           | (Inl _, _) \<Rightarrow> None)
      | Counted sn raw \<Rightarrow>
          (if raw = JNull \<or> token \<noteq> sn_token sn then None
           else case (read_message v raw, r) of
               (Inr (content, key), Inr _) \<Rightarrow> Some (Checked sn content key)
             | (Inr _, Inl e) \<Rightarrow> Some (if e = InvalidAccessToken then Expired sn else Leaving)
             | (Inl _, _) \<Rightarrow> None)
      | _ \<Rightarrow> None)"

definition on_sent :: "field_readers \<Rightarrow> json \<Rightarrow> phase \<Rightarrow> phase option" where
  "on_sent v frame p =
     (case p of
        Admitted sn \<Rightarrow> if frame = auth_ok then Some (Greeted sn) else None
      | Serving sn (m # ms) \<Rightarrow> if frame = message_new m then Some (Serving sn ms) else None
      | Limited sn \<Rightarrow> if frame = error_frame ''rate limit exceeded'' then Some (Serving sn []) else None
      | Counted sn raw \<Rightarrow>
          if frame = (if raw = JNull then error_frame ''invalid JSON'' else error_frame ''invalid message frame'') \<and>
             (raw = JNull \<or> isl (read_message v raw))
          then Some (Serving sn []) else None
      | Acking sn m \<Rightarrow> if frame = message_ack m then Some (Serving sn []) else None
      | Failed sn \<Rightarrow> if frame = error_frame ''failed to handle message'' then Some (Serving sn []) else None
      | _ \<Rightarrow> None)"

definition on_closed :: "field_readers \<Rightarrow> int \<Rightarrow> phase \<Rightarrow> phase option" where
  "on_closed v status p =
     (case p of
        Presented raw \<Rightarrow> if status = 4401 \<and> isl (validate_auth_frame v raw) then Some Done else None
      | Refusing \<Rightarrow> if status = 4401 then Some Done else None
      | Forbidden \<Rightarrow> if status = 4403 then Some Done else None
      | Unjoined \<Rightarrow> if status = 1011 then Some Done else None
      | Expired _ \<Rightarrow> if status = 4401 \<or> status = 1011 then Some Leaving else None
      | _ \<Rightarrow> if joined p \<and> status = 1011 then Some Leaving else None)"

definition on_ensured :: "participant_id \<Rightarrow> exn + unit \<Rightarrow> phase \<Rightarrow> phase option" where
  "on_ensured who r p =
     (case p of
        Identified claims token seq \<Rightarrow>
          if who = ParticipantId (user_id_value (ac_user_id claims))
          then Some (case r of Inl _ \<Rightarrow> Forbidden | Inr _ \<Rightarrow> Admitted (session_of claims token seq)) else None
      | _ \<Rightarrow> None)"

definition on_joined :: "exn + unit \<Rightarrow> phase \<Rightarrow> phase option" where
  "on_joined r p =
     (case p of
        Greeted sn \<Rightarrow>
          Some (case r of
              Inl _ \<Rightarrow> Unjoined
            | Inr _ \<Rightarrow> (case sn_last_seen_seq sn of None \<Rightarrow> Serving sn [] | Some n \<Rightarrow> Replaying sn n))
      | _ \<Rightarrow> None)"

definition on_replayed :: "message_id option \<Rightarrow> exn + message list \<Rightarrow> phase \<Rightarrow> phase option" where
  "on_replayed after r p =
     (case p of
        Replaying sn n \<Rightarrow>
          if after = Some (MessageId n) then Some (case r of Inl _ \<Rightarrow> Leaving | Inr ms \<Rightarrow> Serving sn ms) else None
      | _ \<Rightarrow> None)"

definition on_allowed :: "uuid \<Rightarrow> exn + bool \<Rightarrow> phase \<Rightarrow> phase option" where
  "on_allowed u r p =
     (case p of
        Pending sn raw \<Rightarrow>
          if u = user_of sn
          then Some (case r of Inl _ \<Rightarrow> Leaving | Inr b \<Rightarrow> if b then Counted sn raw else Limited sn) else None
      | _ \<Rightarrow> None)"

definition on_exchanged ::
    "sender_id \<Rightarrow> message_content \<Rightarrow> client_message_id option \<Rightarrow> exn + message \<Rightarrow> phase \<Rightarrow> phase option" where
  "on_exchanged sender content key r p =
     (case p of
        Checked sn content' key' \<Rightarrow>
          if sender = sn_sender_id sn \<and> content = content' \<and> key = key'
          then Some (case r of Inl _ \<Rightarrow> Failed sn | Inr m \<Rightarrow> Acking sn m) else None
      | _ \<Rightarrow> None)"

lemmas on_defs = on_received_def on_decoded_def on_sent_def on_closed_def on_ensured_def on_joined_def
  on_replayed_def on_allowed_def on_exchanged_def

definition advance :: "field_readers \<Rightarrow> phase \<Rightarrow> ws_event \<Rightarrow> phase option" where
  "advance v p e =
     (case e of
        Accepted \<Rightarrow> if p = Fresh then Some Opened else None
      | Received r \<Rightarrow> on_received r p
      | Closed status \<Rightarrow> on_closed v status p
      | Sent frame \<Rightarrow> on_sent v frame p
      | Decoded token r \<Rightarrow> on_decoded v token r p
      | Ensured who r \<Rightarrow> on_ensured who r p
      | Joined r \<Rightarrow> on_joined r p
      | Left \<Rightarrow> if joined p then Some Gone else None
      | Replayed after r \<Rightarrow> on_replayed after r p
      | Allowed u r \<Rightarrow> on_allowed u r p
      | Exchanged sender content key r \<Rightarrow> on_exchanged sender content key r p)"

fun phases :: "field_readers \<Rightarrow> phase \<Rightarrow> ws_event list \<Rightarrow> phase option" where
  "phases v p [] = Some p"
| "phases v p (e # es) = (case advance v p e of None \<Rightarrow> None | Some p' \<Rightarrow> phases v p' es)"

lemma phases_append: "phases v p (xs @ ys) = (case phases v p xs of None \<Rightarrow> None | Some p' \<Rightarrow> phases v p' ys)"
  by (induction xs arbitrary: p) (auto split: option.splits)

lemmas run_simps = recording_def bindp_def thenp_def try_except_def try_finally_def ret_def throw_def lift_def

subsection \<open>Opening\<close>

text \<open>An exception before joining, and every early return, leaves the socket unjoined.\<close>

lemma authenticate_phase:
  assumes "ws_authenticate v (traced d) (w, tr) = (r, (w', tr'))" and "phases v Fresh tr = Some Opened"
  shows "\<exists>p. phases v Fresh tr' = Some p \<and>
    (case r of Inr (Some (claims, token, seq)) \<Rightarrow> p = Identified claims token seq | _ \<Rightarrow> \<not> joined p)"
  using assms
  by (auto simp: ws_authenticate_def run_simps phases_append advance_def on_defs close_codes
      split: sum.splits prod.splits if_splits dest: validate_Inl)

lemma admit_phase:
  assumes "ws_admit (traced d) cid (claims, token, seq) (w, tr) = (r, (w', tr'))"
    and "phases v Fresh tr = Some (Identified claims token seq)"
  shows "\<exists>p. phases v Fresh tr' = Some p \<and>
    (case r of
       Inr (Some sn) \<Rightarrow> sn = session_of claims token seq \<and>
         p = (case seq of None \<Rightarrow> Serving sn [] | Some n \<Rightarrow> Replaying sn n)
     | _ \<Rightarrow> \<not> joined p)"
proof (cases seq)
  case None
  with assms show ?thesis
    by (auto simp: ws_admit_def run_simps phases_append advance_def on_defs close_codes session_of_def Let_def
        split: sum.splits prod.splits if_splits)
next
  case (Some n)
  with assms show ?thesis
    by (auto simp: ws_admit_def run_simps phases_append advance_def on_defs close_codes session_of_def Let_def
        split: sum.splits prod.splits if_splits)
qed

lemma open_phase:
  assumes "ws_open v (traced d) cid (w, []) = (r, (w', tr))"
  shows "\<exists>p. phases v Fresh tr = Some p \<and>
    (case r of
       Inr (Some sn) \<Rightarrow> p = (case sn_last_seen_seq sn of None \<Rightarrow> Serving sn [] | Some n \<Rightarrow> Replaying sn n)
     | _ \<Rightarrow> \<not> joined p)"
proof -
  obtain x w1 where acc: "ws_accept d w = (x, w1)" by (cases "ws_accept d w")
  have start: "phases v Fresh [Accepted] = Some Opened" by (simp add: advance_def)
  obtain y w2 tr2 where auth: "ws_authenticate v (traced d) (w1, [Accepted]) = (y, (w2, tr2))" by (metis prod.exhaust)
  note p2 = authenticate_phase [OF auth start]
  have run: "ws_open v (traced d) cid (w, []) = (case x of
      Inl e \<Rightarrow> (Inl e, (w1, [Accepted]))
    | Inr _ \<Rightarrow> (case y of
          Inl e \<Rightarrow> (Inl e, (w2, tr2))
        | Inr None \<Rightarrow> (Inr None, (w2, tr2))
        | Inr (Some a) \<Rightarrow> ws_admit (traced d) cid a (w2, tr2)))"
    using acc auth
    by (simp add: ws_open_def thenp_def bindp_def recording_def ret_def split: sum.split option.split)
  show ?thesis
  proof (cases x)
    case (Inl e)
    with run assms have "r = Inl e" "tr = [Accepted]" by simp_all
    with start show ?thesis by simp
  next
    case X: (Inr u)
    show ?thesis
    proof (cases y)
      case (Inl e)
      with X run assms have "r = Inl e" "tr = tr2" by simp_all
      with p2 Inl show ?thesis by simp
    next
      case (Inr a)
      show ?thesis
      proof (cases a)
        case None
        with X Inr run assms have "r = Inr None" "tr = tr2" by simp_all
        with p2 Inr None show ?thesis by simp
      next
        case (Some b)
        obtain claims token seq where b: "b = (claims, token, seq)" by (metis prod.exhaust)
        with p2 Inr Some have ph: "phases v Fresh tr2 = Some (Identified claims token seq)" by simp
        have adm: "ws_admit (traced d) cid (claims, token, seq) (w2, tr2) = (r, (w', tr))"
          using run assms X Inr Some b by simp
        obtain p where p: "phases v Fresh tr = Some p" "case r of
            Inr (Some sn) \<Rightarrow> sn = session_of claims token seq \<and>
              p = (case seq of None \<Rightarrow> Serving sn [] | Some n \<Rightarrow> Replaying sn n)
          | _ \<Rightarrow> \<not> joined p"
          using admit_phase [OF adm ph] by (elim exE conjE)
        have "sn_last_seen_seq (session_of claims token seq) = seq" by (simp add: session_of_def)
        with p show ?thesis by (intro exI [of _ p]) (auto split: sum.splits option.splits)
      qed
    qed
  qed
qed

subsection \<open>Serving\<close>

lemma send_backlog_phase:
  assumes "for_each ms (\<lambda>m. ws_send (traced d) (message_new m)) (w, tr) = (r, (w', tr'))"
    and "phases v Fresh tr = Some (Serving sn ms)"
  shows "\<exists>p. phases v Fresh tr' = Some p \<and> joined p \<and> (r = Inr () \<longrightarrow> p = Serving sn [])"
  using assms
proof (induction ms arbitrary: w tr)
  case Nil
  then show ?case by (simp add: ret_def)
next
  case (Cons m ms)
  obtain x w1 where x: "ws_send d (message_new m) w = (x, w1)" by (cases "ws_send d (message_new m) w")
  have p1: "phases v Fresh (tr @ [Sent (message_new m)]) = Some (Serving sn ms)"
    using Cons.prems(2) by (simp add: phases_append advance_def on_sent_def)
  show ?case
  proof (cases x)
    case (Inl e)
    with Cons.prems(1) x p1 show ?thesis by (auto simp: run_simps)
  next
    case (Inr u)
    with Cons.prems(1) x have "for_each ms (\<lambda>m. ws_send (traced d) (message_new m))
        (w1, tr @ [Sent (message_new m)]) = (r, (w', tr'))"
      by (simp add: run_simps)
    from Cons.IH [OF this p1] show ?thesis .
  qed
qed

lemma replay_phase:
  assumes "replay_missed (traced d) cid (sn_last_seen_seq sn) (w, tr) = (r, (w', tr'))"
    and "phases v Fresh tr =
      Some (case sn_last_seen_seq sn of None \<Rightarrow> Serving sn [] | Some n \<Rightarrow> Replaying sn n)"
  shows "\<exists>p. phases v Fresh tr' = Some p \<and> joined p \<and> (r = Inr () \<longrightarrow> p = Serving sn [])"
proof (cases "sn_last_seen_seq sn")
  case None
  with assms show ?thesis by (auto simp: replay_missed_def ret_def)
next
  case (Some n)
  obtain x w1 where x: "ws_replay_since d cid (Some (MessageId n)) w = (x, w1)"
    by (cases "ws_replay_since d cid (Some (MessageId n)) w")
  let ?tr = "tr @ [Replayed (Some (MessageId n)) x]"
  have p1: "phases v Fresh ?tr = Some (case x of Inl _ \<Rightarrow> Leaving | Inr ms \<Rightarrow> Serving sn ms)"
    using assms(2) Some by (simp add: phases_append advance_def on_replayed_def split: sum.split)
  show ?thesis
  proof (cases x)
    case (Inl e)
    with assms(1) Some x p1 show ?thesis by (auto simp: replay_missed_def run_simps)
  next
    case (Inr ms)
    with assms(1) Some x have "for_each ms (\<lambda>m. ws_send (traced d) (message_new m)) (w1, ?tr) = (r, (w', tr'))"
      by (simp add: replay_missed_def run_simps)
    from send_backlog_phase [OF this] p1 Inr show ?thesis by simp
  qed
qed

lemma handle_message_phase:
  assumes "handle_message (traced d) cid sn content key (w, tr) = (r, (w', tr'))"
    and "phases v Fresh tr = Some (Counted sn raw)" and "raw \<noteq> JNull" and "read_message v raw = Inr (content, key)"
  shows "\<exists>p. phases v Fresh tr' = Some p \<and> joined p \<and> (r = Inr Continue \<longrightarrow> p = Serving sn [])"
  using assms
  by (auto simp: handle_message_def token_still_valid_def run_simps phases_append advance_def on_defs close_codes
      split: sum.splits prod.splits if_splits option.splits)

lemma receive_step_phase:
  assumes "receive_step v (traced d) cid sn (w, tr) = (r, (w', tr'))"
    and "phases v Fresh tr = Some (Serving sn [])"
  shows "\<exists>p. phases v Fresh tr' = Some p \<and> joined p \<and> (r = Inr Continue \<longrightarrow> p = Serving sn [])"
proof -
  obtain x w1 where x: "ws_receive d w = (x, w1)" by (cases "ws_receive d w")
  let ?tr1 = "tr @ [Received x]"
  show ?thesis
  proof (cases "\<exists>e. x = Inl e \<and> \<not> is_value_error e")
    case True
    with assms x show ?thesis
      by (auto simp: receive_step_def receive_frame_def run_simps phases_append advance_def on_received_def)
  next
    case False
    define raw where "raw = (case x of Inl _ \<Rightarrow> JNull | Inr j \<Rightarrow> j)"
    have p1: "phases v Fresh ?tr1 = Some (Pending sn raw)"
      using assms(2) False by (auto simp: raw_def phases_append advance_def on_received_def split: sum.splits)
    obtain b w2 where b: "ws_allow d (user_of sn) w1 = (b, w2)" by (cases "ws_allow d (user_of sn) w1")
    define tr2 where "tr2 = ?tr1 @ [Allowed (user_of sn) b]"
    have p2: "phases v Fresh tr2 = Some (case b of Inl _ \<Rightarrow> Leaving | Inr ok \<Rightarrow> if ok then Counted sn raw else Limited sn)"
      using p1 by (simp add: tr2_def phases_append [of _ _ ?tr1] advance_def on_allowed_def del: append_assoc)
    have step: "(r, (w', tr')) = (case b of
        Inl e \<Rightarrow> (Inl e, (w2, tr2))
      | Inr ok \<Rightarrow>
          if \<not> ok then thenp (ws_send (traced d) (error_frame ''rate limit exceeded'')) (ret Continue) (w2, tr2)
          else if raw = JNull then thenp (ws_send (traced d) (error_frame ''invalid JSON'')) (ret Continue) (w2, tr2)
          else case read_message v raw of
              Inl e \<Rightarrow> thenp (ws_send (traced d) (error_frame ''invalid message frame'')) (ret Continue) (w2, tr2)
            | Inr (content, key) \<Rightarrow> handle_message (traced d) cid sn content key (w2, tr2))"
      using assms(1) x b False
      by (auto simp: receive_step_def receive_frame_def run_simps raw_def user_of_def tr2_def dest: read_message_Inl
          split: sum.splits if_splits)
    show ?thesis
    proof (cases "\<exists>content key. b = Inr True \<and> raw \<noteq> JNull \<and> read_message v raw = Inr (content, key)")
      case True
      then obtain content key where c: "b = Inr True" "raw \<noteq> JNull" "read_message v raw = Inr (content, key)" by blast
      with step have "handle_message (traced d) cid sn content key (w2, tr2) = (r, (w', tr'))" by simp
      from handle_message_phase [OF this _ c(2,3)] p2 c(1) show ?thesis by simp
    next
      case False
      with step p2 show ?thesis
        by (auto simp: run_simps phases_append advance_def on_sent_def simp del: append_assoc
            split: sum.splits if_splits prod.splits)
    qed
  qed
qed

lemma receive_loop_phase:
  assumes "receive_loop v (traced d) cid sn s = Some (r, s')" and "phases v Fresh (snd s) = Some (Serving sn [])"
  shows "\<exists>p. phases v Fresh (snd s') = Some p \<and> joined p"
proof -
  define P where "P s y \<longleftrightarrow> (phases v Fresh (snd s) = Some (Serving sn []) \<longrightarrow>
      (\<exists>p. phases v Fresh (snd (snd y)) = Some p \<and> joined p))" for s :: "'a \<times> ws_event list" and y :: "(exn + unit) \<times> 'a \<times> ws_event list"
  have "P s (r, s')"
  proof (rule receive_loop.raw_induct [where P = "\<lambda>v' d' cid' sn' s y. v' = v \<longrightarrow> d' = traced d \<longrightarrow> cid' = cid \<longrightarrow> sn' = sn \<longrightarrow> P s y", THEN mp, THEN mp, THEN mp, THEN mp, OF _ assms(1)])
    fix loop v' and d' :: "('a \<times> ws_event list) ws_deps" and cid' sn' s y
    assume ih: "\<And>v' d' cid' sn' s y. loop v' d' cid' sn' s = Some y \<Longrightarrow>
        v' = v \<longrightarrow> d' = traced d \<longrightarrow> cid' = cid \<longrightarrow> sn' = sn \<longrightarrow> P s y"
      and run: "(case receive_step v' d' cid' sn' s of (Inl e, w') \<Rightarrow> Some (Inl e, w')
          | (Inr Continue, w') \<Rightarrow> loop v' d' cid' sn' w' | (Inr Return, w') \<Rightarrow> Some (Inr (), w')) = Some y"
    show "v' = v \<longrightarrow> d' = traced d \<longrightarrow> cid' = cid \<longrightarrow> sn' = sn \<longrightarrow> P s y"
    proof (intro impI)
      assume eqs: "v' = v" "d' = traced d" "cid' = cid" "sn' = sn"
      obtain w tr where s: "s = (w, tr)" by (cases s)
      obtain q w1 tr1 where step: "receive_step v (traced d) cid sn (w, tr) = (q, (w1, tr1))" by (metis prod.exhaust)
      show "P s y"
        unfolding P_def
      proof
        assume "phases v Fresh (snd s) = Some (Serving sn [])"
        then have "phases v Fresh tr = Some (Serving sn [])" by (simp add: s)
        from receive_step_phase [OF step this] obtain p where
          p: "phases v Fresh tr1 = Some p" "joined p" "q = Inr Continue \<longrightarrow> p = Serving sn []" by blast
        show "\<exists>p. phases v Fresh (snd (snd y)) = Some p \<and> joined p"
        proof (cases "q = Inr Continue")
          case True
          with run step eqs s have "loop v (traced d) cid sn (w1, tr1) = Some y" by simp
          from ih [OF this] p True show ?thesis by (simp add: P_def)
        next
          case False
          with run step eqs s have "snd (snd y) = tr1" by (auto split: sum.splits loop_control.splits)
          with p show ?thesis by blast
        qed
      qed
    qed
  qed simp_all
  with assms(2) show ?thesis by (simp add: P_def)
qed

lemma finish_phase:
  assumes "ws_finish (traced d) cid outcome (w, tr) = (r, (w', tr'))" and "phases v Fresh tr = Some p" and "joined p"
  shows "phases v Fresh tr' = Some Gone"
proof -
  have close: "on_closed v 1011 p = Some Leaving" using assms(3) by (cases p) (simp_all add: on_closed_def)
  with assms show ?thesis
    by (auto simp: ws_finish_def run_simps phases_append advance_def close_codes split: sum.splits prod.splits if_splits)
qed

lemma serve_phase:
  assumes "ws_serve v (traced d) cid sn (w, tr) = Some (r, (w', tr'))"
    and "phases v Fresh tr =
      Some (case sn_last_seen_seq sn of None \<Rightarrow> Serving sn [] | Some n \<Rightarrow> Replaying sn n)"
  shows "\<exists>p. phases v Fresh tr' = Some p \<and> joined p"
proof -
  obtain q w1 tr1 where q: "replay_missed (traced d) cid (sn_last_seen_seq sn) (w, tr) = (q, (w1, tr1))"
    by (metis prod.exhaust)
  from replay_phase [OF this assms(2)] obtain p where
    p: "phases v Fresh tr1 = Some p" "joined p" "q = Inr () \<longrightarrow> p = Serving sn []" by blast
  show ?thesis
  proof (cases q)
    case (Inl e)
    with assms(1) q p show ?thesis by (auto simp: ws_serve_def)
  next
    case (Inr u)
    with assms(1) q have "receive_loop v (traced d) cid sn (w1, tr1) = Some (r, (w', tr'))"
      by (simp add: ws_serve_def)
    from receive_loop_phase [OF this] p Inr show ?thesis by simp
  qed
qed

lemma conversation_phase:
  assumes "conversation_ws v (traced d) cid (w, []) = Some (r, (w', tr))"
  shows "\<exists>p. phases v Fresh tr = Some p \<and> \<not> joined p"
proof -
  obtain q w1 tr1 where q: "ws_open v (traced d) cid (w, []) = (q, (w1, tr1))" by (metis prod.exhaust)
  from open_phase [OF this] obtain p where p: "phases v Fresh tr1 = Some p"
    "case q of
       Inr (Some sn) \<Rightarrow> p = (case sn_last_seen_seq sn of None \<Rightarrow> Serving sn [] | Some n \<Rightarrow> Replaying sn n)
     | _ \<Rightarrow> \<not> joined p" by (elim exE conjE)
  show ?thesis
  proof (cases "\<exists>sn. q = Inr (Some sn)")
    case False
    with assms q have "tr = tr1" by (auto simp: conversation_ws_def split: sum.splits option.splits)
    moreover have "\<not> joined p" using p(2) False by (auto split: sum.splits option.splits)
    ultimately show ?thesis using p(1) by blast
  next
    case True
    then obtain sn where sn: "q = Inr (Some sn)" by blast
    obtain outcome w2 tr2 where serve: "ws_serve v (traced d) cid sn (w1, tr1) = Some (outcome, (w2, tr2))"
      and finish: "ws_finish (traced d) cid outcome (w2, tr2) = (r, (w', tr))"
      using assms q sn by (auto simp: conversation_ws_def)
    from serve_phase [OF serve] p sn obtain p2 where "phases v Fresh tr2 = Some p2" "joined p2" by auto
    from finish_phase [OF finish this] have "phases v Fresh tr = Some Gone" .
    then show ?thesis by simp
  qed
qed

subsection \<open>Recording changes nothing\<close>

text \<open>\<open>erases m' m\<close>: \<open>m'\<close> does what \<open>m\<close> does, and only adds to the record.\<close>

definition erases :: "('a, 'w \<times> ws_event list) op \<Rightarrow> ('a, 'w) op \<Rightarrow> bool" where
  "erases m' m = (\<forall>w tr. \<exists>tr'. m' (w, tr) = (fst (m w), snd (m w), tr'))"

named_theorems erases_rules \<open>one rule per statement form\<close>

lemma erases_recording [erases_rules]: "erases (recording event m) m"
  by (simp add: erases_def recording_def split_beta)

lemma erases_lift [erases_rules]: "erases (lift x) (lift x)"
  by (simp add: erases_def lift_def)

lemma erases_ret [erases_rules]: "erases (ret x) (ret x)"
  by (simp add: erases_def ret_def)

lemma erases_throw [erases_rules]: "erases (throw e) (throw e)"
  by (simp add: erases_def throw_def)

lemma erasesE:
  assumes "erases m' m" and "m w = (r, w')"
  obtains tr' where "m' (w, tr) = (r, w', tr')"
  using assms unfolding erases_def by (metis fst_conv snd_conv)

lemma erases_bindp [erases_rules]:
  assumes "erases m' m" and "\<And>x. erases (f' x) (f x)"
  shows "erases (bindp m' f') (bindp m f)"
  unfolding erases_def
proof (intro allI)
  fix w tr
  obtain r w1 where m: "m w = (r, w1)" by (cases "m w")
  obtain tr1 where m': "m' (w, tr) = (r, w1, tr1)" by (rule erasesE [OF assms(1) m])
  show "\<exists>tr'. bindp m' f' (w, tr) = (fst (bindp m f w), snd (bindp m f w), tr')"
  proof (cases r)
    case (Inl e)
    with m m' show ?thesis by (simp add: bindp_def)
  next
    case (Inr x)
    obtain q w2 where q: "f x w1 = (q, w2)" by (cases "f x w1")
    obtain tr2 where "f' x (w1, tr1) = (q, w2, tr2)" by (rule erasesE [OF assms(2) q])
    with m m' q Inr show ?thesis by (simp add: bindp_def)
  qed
qed

lemma erases_thenp [erases_rules]: "erases m' m \<Longrightarrow> erases k' k \<Longrightarrow> erases (thenp m' k') (thenp m k)"
  unfolding thenp_def by (rule erases_bindp)

lemma erases_try_except [erases_rules]:
  assumes "erases m' m" and "\<And>e. erases (h' e) (h e)"
  shows "erases (try_except m' h') (try_except m h)"
  unfolding erases_def
proof (intro allI)
  fix w tr
  obtain r w1 where m: "m w = (r, w1)" by (cases "m w")
  obtain tr1 where m': "m' (w, tr) = (r, w1, tr1)" by (rule erasesE [OF assms(1) m])
  show "\<exists>tr'. try_except m' h' (w, tr) = (fst (try_except m h w), snd (try_except m h w), tr')"
  proof (cases r)
    case (Inr x)
    with m m' show ?thesis by (simp add: try_except_def)
  next
    case (Inl e)
    obtain q w2 where q: "h e w1 = (q, w2)" by (cases "h e w1")
    obtain tr2 where "h' e (w1, tr1) = (q, w2, tr2)" by (rule erasesE [OF assms(2) q])
    with m m' q Inl show ?thesis by (simp add: try_except_def)
  qed
qed

lemma erases_try_finally [erases_rules]:
  assumes "erases m' m" and "erases f' f"
  shows "erases (try_finally m' f') (try_finally m f)"
  unfolding erases_def
proof (intro allI)
  fix w tr
  obtain r w1 where m: "m w = (r, w1)" by (cases "m w")
  obtain tr1 where m': "m' (w, tr) = (r, w1, tr1)" by (rule erasesE [OF assms(1) m])
  obtain q w2 where q: "f w1 = (q, w2)" by (cases "f w1")
  obtain tr2 where "f' (w1, tr1) = (q, w2, tr2)" by (rule erasesE [OF assms(2) q])
  with m m' q show "\<exists>tr'. try_finally m' f' (w, tr) = (fst (try_finally m f w), snd (try_finally m f w), tr')"
    by (cases q) (simp_all add: try_finally_def)
qed

lemma erases_if [erases_rules]: "erases a' a \<Longrightarrow> erases b' b \<Longrightarrow> erases (if c then a' else b') (if c then a else b)"
  by simp

lemma erases_option [erases_rules]:
  "erases a' a \<Longrightarrow> (\<And>y. erases (f' y) (f y)) \<Longrightarrow>
    erases (case x of None \<Rightarrow> a' | Some y \<Rightarrow> f' y) (case x of None \<Rightarrow> a | Some y \<Rightarrow> f y)"
  by (cases x) simp_all

lemma erases_sum [erases_rules]:
  "(\<And>y. erases (f' y) (f y)) \<Longrightarrow> (\<And>z. erases (g' z) (g z)) \<Longrightarrow>
    erases (case x of Inl y \<Rightarrow> f' y | Inr z \<Rightarrow> g' z) (case x of Inl y \<Rightarrow> f y | Inr z \<Rightarrow> g z)"
  by (cases x) simp_all

lemma erases_prod [erases_rules]:
  "(\<And>y z. erases (f' y z) (f y z)) \<Longrightarrow> erases (case x of (y, z) \<Rightarrow> f' y z) (case x of (y, z) \<Rightarrow> f y z)"
  by (cases x) simp

lemma erases_for_each [erases_rules]: "(\<And>x. erases (f' x) (f x)) \<Longrightarrow> erases (for_each xs f') (for_each xs f)"
  by (induction xs) (simp_all add: erases_rules)

lemma erases_open: "erases (ws_open v (traced d) cid) (ws_open v d cid)"
  unfolding ws_open_def ws_authenticate_def ws_admit_def Let_def traced_simps
  by (intro erases_rules)

lemma erases_replay: "erases (replay_missed (traced d) cid seq) (replay_missed d cid seq)"
  by (cases seq) (auto simp: replay_missed_def intro!: erases_rules)

lemma erases_step: "erases (receive_step v (traced d) cid sn) (receive_step v d cid sn)"
  unfolding receive_step_def receive_frame_def handle_message_def token_still_valid_def traced_simps
  by (intro erases_rules)

lemma erases_finish: "erases (ws_finish (traced d) cid outcome) (ws_finish d cid outcome)"
  unfolding ws_finish_def traced_simps by (intro erases_rules)

lemma loop_traced:
  assumes "receive_loop v d cid sn w = Some (r, w')"
  shows "\<exists>tr'. receive_loop v (traced d) cid sn (w, tr) = Some (r, w', tr')"
proof -
  define P where "P w y \<longleftrightarrow> (\<forall>tr. \<exists>tr'. receive_loop v (traced d) cid sn (w, tr) = Some (fst y, snd y, tr'))"
    for w :: 'a and y :: "(exn + unit) \<times> 'a"
  have "P w (r, w')"
  proof (rule receive_loop.raw_induct [where P = "\<lambda>v' d' cid' sn' w y. v' = v \<longrightarrow> d' = d \<longrightarrow> cid' = cid \<longrightarrow>
      sn' = sn \<longrightarrow> P w y", THEN mp, THEN mp, THEN mp, THEN mp, OF _ assms])
    fix loop v' and d' :: "'a ws_deps" and cid' sn' w y
    assume ih: "\<And>v' d' cid' sn' w y. loop v' d' cid' sn' w = Some y \<Longrightarrow>
        v' = v \<longrightarrow> d' = d \<longrightarrow> cid' = cid \<longrightarrow> sn' = sn \<longrightarrow> P w y"
      and run: "(case receive_step v' d' cid' sn' w of (Inl e, w') \<Rightarrow> Some (Inl e, w')
          | (Inr Continue, w') \<Rightarrow> loop v' d' cid' sn' w' | (Inr Return, w') \<Rightarrow> Some (Inr (), w')) = Some y"
    show "v' = v \<longrightarrow> d' = d \<longrightarrow> cid' = cid \<longrightarrow> sn' = sn \<longrightarrow> P w y"
    proof (intro impI)
      assume eqs: "v' = v" "d' = d" "cid' = cid" "sn' = sn"
      obtain q w1 where q: "receive_step v d cid sn w = (q, w1)" by (cases "receive_step v d cid sn w")
      show "P w y"
        unfolding P_def
      proof
        fix tr
        obtain tr1 where tr1: "receive_step v (traced d) cid sn (w, tr) = (q, w1, tr1)" by (rule erasesE [OF erases_step q])
        show "\<exists>tr'. receive_loop v (traced d) cid sn (w, tr) = Some (fst y, snd y, tr')"
        proof (cases "q = Inr Continue")
          case True
          with run q eqs have "loop v d cid sn w1 = Some y" by simp
          with ih have "P w1 y" by blast
          with tr1 True show ?thesis by (subst receive_loop.simps) (simp add: P_def)
        next
          case False
          with run q eqs tr1 show ?thesis
            by (subst receive_loop.simps) (auto split: sum.splits loop_control.splits)
        qed
      qed
    qed
  qed simp_all
  then show ?thesis by (simp add: P_def)
qed

lemma serve_traced:
  assumes "ws_serve v d cid sn w = Some (r, w')"
  shows "\<exists>tr'. ws_serve v (traced d) cid sn (w, tr) = Some (r, w', tr')"
proof -
  obtain q w1 where q: "replay_missed d cid (sn_last_seen_seq sn) w = (q, w1)"
    by (cases "replay_missed d cid (sn_last_seen_seq sn) w")
  obtain tr1 where tr1: "replay_missed (traced d) cid (sn_last_seen_seq sn) (w, tr) = (q, w1, tr1)"
    by (rule erasesE [OF erases_replay q])
  show ?thesis
  proof (cases q)
    case (Inl e)
    with assms q tr1 show ?thesis by (auto simp: ws_serve_def)
  next
    case (Inr u)
    with assms q have "receive_loop v d cid sn w1 = Some (r, w')" by (simp add: ws_serve_def)
    from loop_traced [OF this, of tr1] Inr tr1 show ?thesis by (simp add: ws_serve_def)
  qed
qed

lemma conversation_traced:
  assumes "conversation_ws v d cid w = Some (r, w')"
  shows "\<exists>tr'. conversation_ws v (traced d) cid (w, tr) = Some (r, w', tr')"
proof -
  obtain q w1 where q: "ws_open v d cid w = (q, w1)" by (cases "ws_open v d cid w")
  obtain tr1 where tr1: "ws_open v (traced d) cid (w, tr) = (q, w1, tr1)" by (rule erasesE [OF erases_open q])
  show ?thesis
  proof (cases "\<exists>sn. q = Inr (Some sn)")
    case False
    with assms q tr1 show ?thesis by (auto simp: conversation_ws_def split: sum.splits option.splits)
  next
    case True
    then obtain sn where sn: "q = Inr (Some sn)" by blast
    obtain outcome w2 where serve: "ws_serve v d cid sn w1 = Some (outcome, w2)"
      and finish: "ws_finish d cid outcome w2 = (r, w')"
      using assms q sn by (auto simp: conversation_ws_def)
    obtain tr2 where tr2: "ws_serve v (traced d) cid sn (w1, tr1) = Some (outcome, w2, tr2)"
      using serve_traced [OF serve] by blast
    obtain tr3 where tr3: "ws_finish (traced d) cid outcome (w2, tr2) = (r, w', tr3)"
      by (rule erasesE [OF erases_finish finish])
    with sn tr1 tr2 show ?thesis by (simp add: conversation_ws_def)
  qed
qed

end
