(* ===== verification/ConversationServices.thy ===== *)
theory ConversationServices
  imports MessagingPorts
begin

section \<open>The conversation use cases\<close>

text \<open>
  The use cases of \<open>contexts/messaging/application/services\<close> that act on the conversation aggregate:
  create, list, rename, delete, restore, the three on participants, and the access check. Each is a
  function of its repository, of the clock reading it takes and of its arguments. Their functional
  behaviour is proved over the contract \<open>conversation_store\<close>.
\<close>

definition create_conversation ::
    "'s conversation_repository \<Rightarrow> datetime \<Rightarrow> uuid \<Rightarrow> owner_id \<Rightarrow> string \<Rightarrow> (conversation, 's) op" where
  "create_conversation conversations now new_id owner_id title =
     bindp (lift (mk_conversation_title title)) (\<lambda>t.
     let conversation = conversation_start (ConversationId new_id) owner_id t now
     in thenp (cr_create conversations (c_id conversation) (c_owner_id conversation)
                 (c_title conversation) (c_created_at conversation) (c_updated_at conversation)
                 (c_participant_ids conversation))
          (ret conversation))"

definition list_conversations ::
    "'s conversation_repository \<Rightarrow> participant_id \<Rightarrow> (conversation list, 's) op" where
  "list_conversations conversations participant_id = cr_list_for_participant conversations participant_id"

text \<open>\<open>get\<close>, and \<open>ConversationNotFound\<close> when it returns \<open>None\<close>: how every use case but restore starts.\<close>

definition require_conversation ::
    "(conversation option, 's) op \<Rightarrow> conversation_id \<Rightarrow> (conversation, 's) op" where
  "require_conversation lookup cid =
     bindp lookup (\<lambda>found. case found of None \<Rightarrow> throw (ConversationNotFound cid) | Some c \<Rightarrow> ret c)"

definition rename_conversation ::
    "'s conversation_repository \<Rightarrow> datetime \<Rightarrow> conversation_id \<Rightarrow> owner_id \<Rightarrow> string \<Rightarrow>
     (conversation, 's) op" where
  "rename_conversation conversations now conversation_id owner_id new_title =
     bindp (require_conversation (cr_get conversations conversation_id) conversation_id) (\<lambda>conversation.
     thenp (lift (ensure_owned_by conversation owner_id))
       (bindp (lift (mk_conversation_title new_title)) (\<lambda>t.
        let conversation = conversation_rename conversation t now
        in thenp (cr_update conversations (c_id conversation) (c_title conversation)
                    (c_updated_at conversation) (c_deleted_at conversation))
             (ret conversation))))"

definition delete_conversation ::
    "'s conversation_repository \<Rightarrow> datetime \<Rightarrow> conversation_id \<Rightarrow> owner_id \<Rightarrow> (unit, 's) op" where
  "delete_conversation conversations now conversation_id owner_id =
     bindp (require_conversation (cr_get conversations conversation_id) conversation_id) (\<lambda>conversation.
     thenp (lift (ensure_owned_by conversation owner_id))
       (let conversation = conversation_delete conversation now
        in cr_update conversations (c_id conversation) (c_title conversation)
             (c_updated_at conversation) (c_deleted_at conversation)))"

definition restore_conversation ::
    "'s conversation_repository \<Rightarrow> datetime \<Rightarrow> conversation_id \<Rightarrow> owner_id \<Rightarrow> (conversation, 's) op" where
  "restore_conversation conversations now conversation_id owner_id =
     bindp (require_conversation (cr_get_including_deleted conversations conversation_id)
              conversation_id) (\<lambda>conversation.
     thenp (lift (ensure_owned_by conversation owner_id))
       (let conversation = conversation_restore conversation now
        in thenp (cr_update conversations (c_id conversation) (c_title conversation)
                    (c_updated_at conversation) (c_deleted_at conversation))
             (ret conversation)))"

definition ensure_conversation_access ::
    "'s conversation_repository \<Rightarrow> conversation_id \<Rightarrow> participant_id \<Rightarrow> (unit, 's) op" where
  "ensure_conversation_access conversations conversation_id participant_id =
     bindp (require_conversation (cr_get conversations conversation_id) conversation_id) (\<lambda>conversation.
     lift (ensure_participant conversation participant_id))"

definition add_participant ::
    "'s conversation_repository \<Rightarrow> 's user_directory \<Rightarrow> datetime \<Rightarrow> conversation_id \<Rightarrow> owner_id \<Rightarrow>
     string \<Rightarrow> (participant_id, 's) op" where
  "add_participant conversations users now conversation_id owner_id email =
     bindp (require_conversation (cr_get conversations conversation_id) conversation_id) (\<lambda>conversation.
     thenp (lift (ensure_owned_by conversation owner_id))
       (bindp (users email) (\<lambda>user_id.
        case user_id of
          None \<Rightarrow> throw (ParticipantUserNotFound email)
        | Some user_id \<Rightarrow>
            let participant_id = ParticipantId user_id
            in if snd (conversation_add_participant conversation participant_id)
               then thenp (cr_add_participant conversations conversation_id participant_id now)
                      (ret participant_id)
               else ret participant_id)))"

definition list_participants ::
    "'s conversation_repository \<Rightarrow> conversation_id \<Rightarrow> participant_id \<Rightarrow> (participant list, 's) op" where
  "list_participants conversations conversation_id participant_id =
     bindp (require_conversation (cr_get conversations conversation_id) conversation_id) (\<lambda>conversation.
     thenp (lift (ensure_participant conversation participant_id))
       (cr_list_participants conversations conversation_id))"

definition remove_participant ::
    "'s conversation_repository \<Rightarrow> conversation_id \<Rightarrow> participant_id \<Rightarrow> participant_id \<Rightarrow>
     (unit, 's) op" where
  "remove_participant conversations conversation_id actor_id participant_id =
     bindp (require_conversation (cr_get conversations conversation_id) conversation_id) (\<lambda>conversation.
     let is_owner = (c_owner_id conversation = OwnerId (participant_id_value actor_id))
     in if \<not> is_owner \<and> actor_id \<noteq> participant_id then throw NotConversationOwner
        else thenp (lift (conversation_remove_participant conversation participant_id))
               (cr_remove_participant conversations conversation_id participant_id))"

lemmas conversation_service_defs = create_conversation_def rename_conversation_def
  delete_conversation_def restore_conversation_def ensure_conversation_access_def
  add_participant_def list_participants_def remove_participant_def require_conversation_def

subsection \<open>What the use cases do, over the repository's contract\<close>

context conversation_store
begin

lemma create_ok:
  assumes "clean s" and "mk_conversation_title title = Inr t" and "conversations s (ConversationId i) = None"
  shows "\<exists>s'. create_conversation repo now i owner title s =
      (Inr (conversation_start (ConversationId i) owner t now), s') \<and> ready s' \<and>
    conversations s' = (conversations s)
      (ConversationId i \<mapsto> conversation_start (ConversationId i) owner t now)"
proof -
  have "title_wf t" using assms(2) by (rule mk_conversation_title_wf)
  from create_law [OF assms(1,3) this, of "{ParticipantId (owner_id_value owner)}" owner now now]
  show ?thesis using assms(2)
    by (auto simp: create_conversation_def conversation_start_def proc_simps)
qed

text \<open>The shared shape of the three owner-only updates: found, owned, stored.\<close>

lemma update_ok:
  assumes "clean s" and "conversations s cid = Some c" and "title_wf t"
  shows "\<exists>s'. cr_update repo (c_id c) t updated deleted s = (Inr (), s') \<and> ready s' \<and>
    conversations s' = (conversations s)
      (cid \<mapsto> c\<lparr>c_title := t, c_updated_at := updated, c_deleted_at := deleted\<rparr>)"
  using update_law [OF assms] stored_id [OF assms(1,2)] by auto

lemma rename_ok:
  assumes "clean s" and "visible (conversations s cid) = Some c" and "c_owner_id c = owner"
    and "mk_conversation_title title = Inr t"
  shows "\<exists>s'. rename_conversation repo now cid owner title s =
      (Inr (conversation_rename c t now), s') \<and> ready s' \<and>
    conversations s' = (conversations s)(cid \<mapsto> conversation_rename c t now)"
proof -
  note c = visible_SomeD [OF assms(2)]
  obtain s' where
    "cr_update repo (c_id c) t now (c_deleted_at c) s = (Inr (), s')" "ready s'"
    "conversations s' = (conversations s)
      (cid \<mapsto> c\<lparr>c_title := t, c_updated_at := now, c_deleted_at := c_deleted_at c\<rparr>)"
    using update_ok [OF assms(1) conjunct1 [OF c] mk_conversation_title_wf [OF assms(4)]] by blast
  with assms c show ?thesis
    by (auto simp: rename_conversation_def require_conversation_def conversation_rename_def get_law
        ensure_owned_by_def proc_simps)
qed

lemma delete_ok:
  assumes "clean s" and "visible (conversations s cid) = Some c" and "c_owner_id c = owner"
  shows "\<exists>s'. delete_conversation repo now cid owner s = (Inr (), s') \<and> ready s' \<and>
    conversations s' = (conversations s)(cid \<mapsto> c\<lparr>c_deleted_at := Some now, c_updated_at := now\<rparr>)"
proof -
  note c = visible_SomeD [OF assms(2)]
  have "title_wf (c_title c)" using stored_id [OF assms(1)] c by blast
  then obtain s' where
    "cr_update repo (c_id c) (c_title c) now (Some now) s = (Inr (), s')" "ready s'"
    "conversations s' = (conversations s)
      (cid \<mapsto> c\<lparr>c_title := c_title c, c_updated_at := now, c_deleted_at := Some now\<rparr>)"
    using update_ok [OF assms(1) conjunct1 [OF c]] by blast
  with assms c show ?thesis
    by (auto simp: delete_conversation_def require_conversation_def conversation_delete_def get_law
        ensure_owned_by_def proc_simps)
qed

lemma restore_ok:
  assumes "clean s" and "conversations s cid = Some c" and "c_owner_id c = owner"
  shows "\<exists>s'. restore_conversation repo now cid owner s = (Inr (conversation_restore c now), s') \<and> ready s' \<and>
    conversations s' = (conversations s)(cid \<mapsto> conversation_restore c now)"
proof -
  let ?c = "conversation_restore c now"
  have wf: "title_wf (c_title c)" "c_id c = cid" using stored_id [OF assms(1,2)] by auto
  then obtain s' where
    "cr_update repo (c_id c) (c_title c) (c_updated_at ?c) (c_deleted_at ?c) s = (Inr (), s')" "ready s'"
    "conversations s' = (conversations s)
      (cid \<mapsto> c\<lparr>c_title := c_title c, c_updated_at := c_updated_at ?c, c_deleted_at := c_deleted_at ?c\<rparr>)"
    using update_ok [OF assms(1,2)] by blast
  moreover have "c\<lparr>c_title := c_title c, c_updated_at := c_updated_at ?c,
      c_deleted_at := c_deleted_at ?c\<rparr> = ?c"
    by (cases c) (simp add: conversation_restore_def)
  moreover have "c_id ?c = c_id c" "c_title ?c = c_title c"
    by (simp_all add: conversation_restore_def)
  ultimately show ?thesis using assms wf
    by (auto simp: restore_conversation_def require_conversation_def
        get_including_deleted_law ensure_owned_by_def Let_def proc_simps)
qed

text \<open>Deleting and restoring leaves the conversation as it was, but for \<open>updated_at\<close>.\<close>

lemma restore_deleted:
  "c_deleted_at c = None \<Longrightarrow>
    conversation_restore (conversation_delete c t1) t2 = c\<lparr>c_updated_at := t2\<rparr>"
  by (simp add: conversation_restore_def conversation_delete_def)

text \<open>Every use case that reads through \<open>get\<close> refuses a missing or deleted conversation the same way.\<close>

lemma require_missing:
  "clean s \<Longrightarrow> visible (conversations s cid) = None \<Longrightarrow>
    require_conversation (cr_get repo cid) cid s = (Inl (ConversationNotFound cid), s)"
  by (simp add: require_conversation_def get_law proc_simps)

lemma require_visible:
  "clean s \<Longrightarrow> visible (conversations s cid) = Some c \<Longrightarrow> require_conversation (cr_get repo cid) cid s = (Inr c, s)"
  by (simp add: require_conversation_def get_law proc_simps)

lemma missing_refused:
  assumes "clean s" and "visible (conversations s cid) = None"
  shows "rename_conversation repo now cid owner title s = (Inl (ConversationNotFound cid), s)"
    and "delete_conversation repo now cid owner s = (Inl (ConversationNotFound cid), s)"
    and "ensure_conversation_access repo cid p s = (Inl (ConversationNotFound cid), s)"
    and "add_participant repo users now cid owner email s = (Inl (ConversationNotFound cid), s)"
    and "list_participants repo cid p s = (Inl (ConversationNotFound cid), s)"
    and "remove_participant repo cid actor p s = (Inl (ConversationNotFound cid), s)"
  using require_missing [OF assms]
  by (simp_all add: rename_conversation_def delete_conversation_def ensure_conversation_access_def
      add_participant_def list_participants_def remove_participant_def bindp_InlI)

text \<open>Administration by anyone but the owner is refused, and nothing is written.\<close>

lemma not_owner_refused:
  assumes "clean s" and "visible (conversations s cid) = Some c" and "c_owner_id c \<noteq> owner"
  shows "rename_conversation repo now cid owner title s = (Inl NotConversationOwner, s)"
    and "delete_conversation repo now cid owner s = (Inl NotConversationOwner, s)"
    and "add_participant repo users now cid owner email s = (Inl NotConversationOwner, s)"
  using require_visible [OF assms(1,2)] assms(3)
  by (simp_all add: rename_conversation_def delete_conversation_def add_participant_def
      bindp_InrI ensure_owned_by_def proc_simps)

lemma restore_not_owner:
  assumes "clean s" and "conversations s cid = Some c" and "c_owner_id c \<noteq> owner"
  shows "restore_conversation repo now cid owner s = (Inl NotConversationOwner, s)"
  using assms by (simp add: restore_conversation_def require_conversation_def
      get_including_deleted_law ensure_owned_by_def proc_simps)

lemma access_iff:
  assumes "clean s"
  shows "ensure_conversation_access repo cid p s =
    (case visible (conversations s cid) of
       None \<Rightarrow> Inl (ConversationNotFound cid)
     | Some c \<Rightarrow> if p \<in> c_participant_ids c then Inr () else Inl NotConversationParticipant, s)"
  using assms by (auto simp: ensure_conversation_access_def require_conversation_def get_law
      ensure_participant_def is_participant_def proc_simps split: option.splits)

lemma add_participant_new:
  assumes "clean s" and "visible (conversations s cid) = Some c" and "c_owner_id c = owner"
    and "users email s = (Inr (Some u), s)" and "ParticipantId u \<notin> c_participant_ids c"
  shows "\<exists>s'. add_participant repo users now cid owner email s = (Inr (ParticipantId u), s') \<and> ready s' \<and>
    conversations s' = (conversations s)
      (cid \<mapsto> c\<lparr>c_participant_ids := c_participant_ids c \<union> {ParticipantId u}\<rparr>)"
proof -
  note c = visible_SomeD [OF assms(2)]
  from add_participant_law [OF assms(1) conjunct1 [OF c] assms(5), of now] obtain s' where
    "cr_add_participant repo cid (ParticipantId u) now s = (Inr (), s')" "ready s'"
    "conversations s' = (conversations s)
      (cid \<mapsto> c\<lparr>c_participant_ids := c_participant_ids c \<union> {ParticipantId u}\<rparr>)" by blast
  with assms require_visible [OF assms(1,2)] show ?thesis
    by (auto simp: add_participant_def bindp_InrI conversation_add_participant_def
        is_participant_def ensure_owned_by_def Let_def proc_simps)
qed

lemma add_participant_again:
  assumes "clean s" and "visible (conversations s cid) = Some c" and "c_owner_id c = owner"
    and "users email s = (Inr (Some u), s)" and "ParticipantId u \<in> c_participant_ids c"
  shows "add_participant repo users now cid owner email s = (Inr (ParticipantId u), s)"
  using assms require_visible [OF assms(1,2)]
  by (simp add: add_participant_def bindp_InrI conversation_add_participant_def
      is_participant_def ensure_owned_by_def Let_def proc_simps)

lemma add_participant_unknown:
  assumes "clean s" and "visible (conversations s cid) = Some c" and "c_owner_id c = owner"
    and "users email s = (Inr None, s)"
  shows "add_participant repo users now cid owner email s = (Inl (ParticipantUserNotFound email), s)"
  using assms require_visible [OF assms(1,2)]
  by (simp add: add_participant_def bindp_InrI ensure_owned_by_def proc_simps)

text \<open>Removal: who may remove whom, decided before anything is written.\<close>

lemma remove_ok:
  assumes "clean s" and "visible (conversations s cid) = Some c"
    and "c_owner_id c = OwnerId (participant_id_value actor) \<or> actor = p"
    and "p \<noteq> owner_participant c" and "p \<in> c_participant_ids c"
  shows "\<exists>s'. remove_participant repo cid actor p s = (Inr (), s') \<and> ready s' \<and>
    conversations s' = (conversations s)(cid \<mapsto> c\<lparr>c_participant_ids := c_participant_ids c - {p}\<rparr>)"
proof -
  note c = visible_SomeD [OF assms(2)]
  from remove_participant_law [OF assms(1) conjunct1 [OF c], of p] obtain s' where
    "cr_remove_participant repo cid p s = (Inr (), s')" "ready s'"
    "conversations s' = (conversations s)(cid \<mapsto> c\<lparr>c_participant_ids := c_participant_ids c - {p}\<rparr>)"
    by blast
  moreover have "participant_id_value p \<noteq> owner_id_value (c_owner_id c)"
    using assms(4) by (cases p) (auto simp: owner_participant_def)
  ultimately show ?thesis
    using assms require_visible [OF assms(1,2)]
    by (auto simp: remove_participant_def bindp_InrI conversation_remove_participant_def
        is_participant_def Let_def proc_simps)
qed

lemma remove_refused:
  assumes "clean s" and "visible (conversations s cid) = Some c"
  shows "c_owner_id c \<noteq> OwnerId (participant_id_value actor) \<Longrightarrow> actor \<noteq> p \<Longrightarrow>
      remove_participant repo cid actor p s = (Inl NotConversationOwner, s)"
    and "c_owner_id c = OwnerId (participant_id_value actor) \<or> actor = p \<Longrightarrow>
      p = owner_participant c \<Longrightarrow>
      remove_participant repo cid actor p s = (Inl CannotRemoveConversationOwner, s)"
    and "c_owner_id c = OwnerId (participant_id_value actor) \<or> actor = p \<Longrightarrow>
      p \<noteq> owner_participant c \<Longrightarrow> p \<notin> c_participant_ids c \<Longrightarrow>
      remove_participant repo cid actor p s = (Inl NotConversationParticipant, s)"
  using require_visible [OF assms]
  by (cases p; auto simp: remove_participant_def bindp_InrI conversation_remove_participant_def
      is_participant_def owner_participant_def Let_def proc_simps)+

end

end
