(* ===== verification/MessageServices.thy ===== *)
theory MessageServices
  imports ConversationServices
begin

section \<open>The message use cases\<close>

text \<open>
  History, replay, posting and the exchange of \<open>contexts/messaging/application/services\<close>. Posting is
  cut where it awaits the database between its check and its insert, so that the two halves can be
  interleaved with another send; the use case is the two in sequence. The replay loop is a
  \<open>partial_function\<close>: that it returns is a theorem.
\<close>

subsection \<open>GetConversationHistory\<close>

definition get_conversation_history ::
    "'s conversation_repository \<Rightarrow> 's message_repository \<Rightarrow> conversation_id \<Rightarrow> participant_id \<Rightarrow>
     message_id option \<Rightarrow> nat \<Rightarrow> (message_page, 's) op" where
  "get_conversation_history conversations messages conversation_id participant_id before limit =
     bindp (require_conversation (cr_get conversations conversation_id) conversation_id) (\<lambda>conversation.
     thenp (lift (ensure_participant conversation participant_id))
       (bindp (mr_list_history messages conversation_id before (limit + 1)) (\<lambda>fetched.
        let has_more = (limit < length fetched);
            items = take limit fetched;
            next_cursor = (if has_more \<and> items \<noteq> [] then Some (m_id (last items)) else None)
        in ret \<lparr>mp_items = items, mp_next_cursor = next_cursor, mp_has_more = has_more\<rparr>)))"

subsection \<open>ReplayMessages\<close>

definition REPLAY_PAGE_SIZE :: nat where
  "REPLAY_PAGE_SIZE = 500"

text \<open>The \<open>while True\<close> of \<open>execute\<close>; \<open>None\<close> is a loop that never ends.\<close>

partial_function (option) replay_loop ::
    "'s message_repository \<Rightarrow> conversation_id \<Rightarrow> message_id option \<Rightarrow> message list \<Rightarrow> 's \<Rightarrow>
     ((exn + message list) \<times> 's) option" where
  "replay_loop messages conversation_id cursor collected s =
     (case mr_list_since messages conversation_id cursor REPLAY_PAGE_SIZE s of
        (Inl e, s') \<Rightarrow> Some (Inl e, s')
      | (Inr page, s') \<Rightarrow>
          (if page = [] then Some (Inr collected, s')
           else if length page < REPLAY_PAGE_SIZE then Some (Inr (collected @ page), s')
           else replay_loop messages conversation_id (Some (m_id (last page))) (collected @ page) s'))"

definition replay_messages ::
    "'s message_repository \<Rightarrow> conversation_id \<Rightarrow> message_id option \<Rightarrow> 's \<Rightarrow>
     ((exn + message list) \<times> 's) option" where
  "replay_messages messages conversation_id after s = replay_loop messages conversation_id after [] s"

subsection \<open>PostMessage\<close>

text \<open>The reading half of \<open>from_user\<close>: access, then the message already stored under this key.\<close>

definition post_message_check ::
    "'s conversation_repository \<Rightarrow> 's message_repository \<Rightarrow> conversation_id \<Rightarrow> sender_id \<Rightarrow>
     client_message_id option \<Rightarrow> (message option, 's) op" where
  "post_message_check conversations messages conversation_id sender_id client_message_id =
     bindp (require_conversation (cr_get conversations conversation_id) conversation_id) (\<lambda>conversation.
     thenp (lift (ensure_participant conversation (ParticipantId (sender_id_value sender_id))))
       (case client_message_id of
          None \<Rightarrow> ret None
        | Some key \<Rightarrow> mr_find_by_client_message_id messages conversation_id key))"

definition post_message_from_user ::
    "'s conversation_repository \<Rightarrow> 's message_repository \<Rightarrow> datetime \<Rightarrow> conversation_id \<Rightarrow> sender_id \<Rightarrow>
     message_content \<Rightarrow> client_message_id option \<Rightarrow> (message \<times> bool, 's) op" where
  "post_message_from_user conversations messages now conversation_id sender_id content
       client_message_id =
     bindp (post_message_check conversations messages conversation_id sender_id client_message_id)
       (\<lambda>existing. case existing of
          Some message \<Rightarrow> ret (message, False)
        | None \<Rightarrow>
            bindp (mr_create messages conversation_id (Some sender_id) USER content now
                     client_message_id) (\<lambda>message. ret (message, True)))"

definition post_message_from_assistant ::
    "'s message_repository \<Rightarrow> datetime \<Rightarrow> conversation_id \<Rightarrow> message_content \<Rightarrow> (message, 's) op" where
  "post_message_from_assistant messages now conversation_id content =
     mr_create messages conversation_id None ASSISTANT content now None"

subsection \<open>MessageExchange\<close>

definition exchange ::
    "'w message_writer \<Rightarrow> 'w assistant_responder \<Rightarrow> 'w message_broadcaster \<Rightarrow> conversation_id \<Rightarrow>
     sender_id \<Rightarrow> message_content \<Rightarrow> client_message_id option \<Rightarrow> (message, 'w) op" where
  "exchange writer responder broadcaster conversation_id sender_id content client_message_id =
     bindp (mw_from_user writer conversation_id sender_id content client_message_id)
       (\<lambda>(user_message, created).
        if \<not> created then ret user_message
        else
          thenp (broadcaster conversation_id user_message)
            (bindp (responder content) (\<lambda>reply.
             bindp (mw_from_assistant writer conversation_id reply) (\<lambda>assistant_message.
             thenp (broadcaster conversation_id assistant_message) (ret user_message)))))"

text \<open>\<open>MockAssistantResponder.reply_to\<close>\<close>

definition mock_reply_to :: "message_content \<Rightarrow> (message_content, 'w) op" where
  "mock_reply_to prompt = lift (mk_message_content (''You said: '' @ message_content_value prompt))"

lemma mock_reply_ok:
  "mock_reply_to prompt w = (Inr (MessageContent (''You said: '' @ message_content_value prompt)), w)"
proof -
  have "\<not> is_space CHR ''Y''" by (simp add: is_space_def code_def)
  then have "strip (''You said: '' @ message_content_value prompt) \<noteq> []"
    by (auto simp: strip_eq_Nil)
  then show ?thesis by (simp add: mock_reply_to_def mk_message_content_def proc_simps)
qed

text \<open>A client that follows the cursors: fetch a page, then the page \<open>next_cursor\<close> names, until there is
  none. \<open>None\<close> when a fetch is refused or the given number of pages is not enough.\<close>

fun follow_cursors ::
    "nat \<Rightarrow> (message_id option \<Rightarrow> exn + message_page) \<Rightarrow> message_id option \<Rightarrow> message list option" where
  "follow_cursors 0 fetch before = None"
| "follow_cursors (Suc n) fetch before =
     (case fetch before of
        Inl _ \<Rightarrow> None
      | Inr page \<Rightarrow>
          (case mp_next_cursor page of
             None \<Rightarrow> Some (mp_items page)
           | Some cursor \<Rightarrow> map_option ((@) (mp_items page)) (follow_cursors n fetch (Some cursor))))"

lemmas post_message_defs = post_message_from_user_def post_message_check_def
  require_conversation_def

subsection \<open>Replay over the repository's contract\<close>

context message_store
begin

lemma id_above_last:
  assumes "sorted_wrt (<) (map m_id xs)" and "0 < n" and "n \<le> length xs"
  shows "filter (id_above (Some (m_id (last (take n xs))))) xs = drop n xs"
  using filter_beyond_take_last [of "\<lambda>x y. m_id x < m_id y" xs n] assms
  by (simp add: sorted_wrt_map_less id_above_simps)

lemma id_below_last:
  assumes "sorted_wrt (<) (map m_id (rev xs))" and "0 < n" and "n \<le> length xs"
  shows "filter (id_below (Some (m_id (last (take n xs))))) xs = drop n xs"
proof -
  have "sorted_wrt (\<lambda>x y. m_id y < m_id x) xs"
    using assms(1) by (simp add: sorted_wrt_map sorted_wrt_rev)
  from filter_beyond_take_last [OF this _ assms(2,3)] show ?thesis by (simp add: id_below_simps)
qed

text \<open>Replay from a cursor returns what it had collected and every message above the cursor.\<close>

lemma replay_loop_complete:
  assumes "clean s"
  shows "replay_loop repo cid cursor collected s =
    Some (Inr (collected @ filter (id_above cursor) (history s cid)), s)"
proof (induction "length (filter (id_above cursor) (history s cid))" arbitrary: cursor collected
    rule: less_induct)
  case less
  let ?rest = "filter (id_above cursor) (history s cid)"
  have sorted: "sorted_wrt (<) (map m_id ?rest)"
    using history_sorted [OF assms] by (rule sorted_wrt_filter_map)
  have pos: "0 < REPLAY_PAGE_SIZE" by (simp add: REPLAY_PAGE_SIZE_def)
  note page = list_since_law [OF assms, of cid cursor REPLAY_PAGE_SIZE]
  show ?case
  proof (cases "length ?rest < REPLAY_PAGE_SIZE")
    case True
    then show ?thesis by (subst replay_loop.simps) (auto simp: page)
  next
    case False
    let ?page = "take REPLAY_PAGE_SIZE ?rest"
    let ?last = "m_id (last ?page)"
    have ne: "?page \<noteq> []" and len: "length ?page = REPLAY_PAGE_SIZE" using False pos by auto
    have drop: "filter (id_above (Some ?last)) ?rest = drop REPLAY_PAGE_SIZE ?rest"
      using id_above_last [OF sorted pos] False by simp
    have "last ?page \<in> set ?rest" using ne by (meson in_set_takeD last_in_set)
    then have "filter (id_above (Some ?last)) (history s cid) =
        filter (id_above (Some ?last)) ?rest"
      by (cases cursor) (auto simp: id_above_simps intro!: filter_cong)
    with drop have next': "filter (id_above (Some ?last)) (history s cid) =
        drop REPLAY_PAGE_SIZE ?rest" by simp
    have "replay_loop repo cid cursor collected s =
        replay_loop repo cid (Some ?last) (collected @ ?page) s"
      using ne len by (subst replay_loop.simps) (simp add: page)
    also have "\<dots> = Some (Inr ((collected @ ?page) @ drop REPLAY_PAGE_SIZE ?rest), s)"
      using less [of "Some ?last" "collected @ ?page"] False pos by (simp add: next')
    finally show ?thesis by simp
  qed
qed

end

subsection \<open>Posting and history over both contracts\<close>

text \<open>The two repositories of a session share its state.\<close>

locale messaging_store =
  conversation_store crepo clean ready conversations + message_store mrepo clean history known
  for crepo :: "'s conversation_repository" and mrepo :: "'s message_repository"
    and clean :: "'s \<Rightarrow> bool" and ready :: "'s \<Rightarrow> bool"
    and conversations :: "'s \<Rightarrow> conversation_id \<Rightarrow> conversation option"
    and history :: "'s \<Rightarrow> conversation_id \<Rightarrow> message list" and known :: "'s \<Rightarrow> conversation_id \<Rightarrow> bool" +
  assumes stored_known: "clean s \<Longrightarrow> conversations s cid \<noteq> None \<Longrightarrow> known s cid"
begin

text \<open>What the reading half decides.\<close>

lemma check_result:
  assumes "clean s"
  shows "post_message_check crepo mrepo cid sender key s =
    (case visible (conversations s cid) of
       None \<Rightarrow> Inl (ConversationNotFound cid)
     | Some c \<Rightarrow>
         if ParticipantId (sender_id_value sender) \<in> c_participant_ids c
         then Inr (case key of None \<Rightarrow> None | Some k \<Rightarrow> find (has_client_id k) (history s cid))
         else Inl NotConversationParticipant, s)"
  using get_law [OF assms] find_law [OF assms]
  by (auto simp: post_message_check_def require_conversation_def ensure_participant_def
      is_participant_def proc_simps split: option.splits)

lemma from_user_missing:
  assumes "clean s" and "visible (conversations s cid) = None"
  shows "post_message_from_user crepo mrepo now cid sender content key s =
    (Inl (ConversationNotFound cid), s)"
  using assms by (simp add: post_message_from_user_def check_result bindp_def)

lemma from_user_outsider:
  assumes "clean s" and "visible (conversations s cid) = Some c"
    and "ParticipantId (sender_id_value sender) \<notin> c_participant_ids c"
  shows "post_message_from_user crepo mrepo now cid sender content key s =
    (Inl NotConversationParticipant, s)"
  using assms by (simp add: post_message_from_user_def check_result bindp_def)

lemma from_user_duplicate:
  assumes "clean s" and "visible (conversations s cid) = Some c"
    and "ParticipantId (sender_id_value sender) \<in> c_participant_ids c"
    and "find (has_client_id k) (history s cid) = Some m"
  shows "post_message_from_user crepo mrepo now cid sender content (Some k) s = (Inr (m, False), s)"
  using assms by (simp add: post_message_from_user_def check_result proc_simps)

lemma from_user_new:
  assumes "clean s" and "visible (conversations s cid) = Some c"
    and "ParticipantId (sender_id_value sender) \<in> c_participant_ids c" and "content_wf content"
    and fresh: "\<forall>k. key = Some k \<longrightarrow> find (has_client_id k) (history s cid) = None"
  shows "\<exists>s' m. post_message_from_user crepo mrepo now cid sender content key s = (Inr (m, True), s') \<and>
    clean s' \<and> history s' = (history s)(cid := history s cid @ [m]) \<and>
    m = \<lparr>m_id = m_id m, m_conversation_id = cid, m_sender_id = Some sender, m_role = USER,
         m_content = content, m_created_at = now, m_client_message_id = key\<rparr>"
proof -
  have known: "known s cid" using stored_known assms(1) visible_SomeD [OF assms(2)] by auto
  obtain s' i where
    "mr_create mrepo cid (Some sender) USER content now key s =
      (Inr \<lparr>m_id = i, m_conversation_id = cid, m_sender_id = Some sender, m_role = USER,
         m_content = content, m_created_at = now, m_client_message_id = key\<rparr>, s')" "clean s'"
    "history s' = (history s)(cid := history s cid @
      [\<lparr>m_id = i, m_conversation_id = cid, m_sender_id = Some sender, m_role = USER,
         m_content = content, m_created_at = now, m_client_message_id = key\<rparr>])"
    using message_store.create_law [OF message_store_axioms assms(1) known assms(4) fresh] by blast
  moreover have "(case key of None \<Rightarrow> None | Some k \<Rightarrow> find (has_client_id k) (history s cid)) = None"
    using fresh by (cases key) auto
  ultimately show ?thesis using assms
    by (simp add: post_message_from_user_def check_result proc_simps)
qed

subsection \<open>One page of history\<close>

lemma history_page:
  assumes "clean s" and "visible (conversations s cid) = Some c" and "p \<in> c_participant_ids c"
  shows "get_conversation_history crepo mrepo cid p before limit s =
    (let xs = rev (filter (id_below before) (history s cid))
     in (Inr \<lparr>mp_items = take limit xs,
              mp_next_cursor = (if limit < length xs \<and> take limit xs \<noteq> []
                                then Some (m_id (last (take limit xs))) else None),
              mp_has_more = (limit < length xs)\<rparr>, s))"
  using assms require_visible [OF assms(1,2)] list_history_law [OF assms(1)]
  by (auto simp: get_conversation_history_def bindp_InrI thenp_InrI ensure_participant_def
      is_participant_def lift_def ret_def Let_def min_def)

lemma follow_cursors_complete:
  assumes "clean s" and "visible (conversations s cid) = Some c" and "p \<in> c_participant_ids c"
    and limit: "0 < limit"
  shows "length (filter (id_below before) (history s cid)) < n \<Longrightarrow>
    follow_cursors n (\<lambda>b. fst (get_conversation_history crepo mrepo cid p b limit s)) before =
      Some (rev (filter (id_below before) (history s cid)))"
proof (induction n arbitrary: before)
  case 0
  then show ?case by simp
next
  case (Suc n)
  let ?xs = "rev (filter (id_below before) (history s cid))"
  note page = history_page [OF assms(1-3)]
  show ?case
  proof (cases "limit < length ?xs")
    case False
    then show ?thesis by (simp add: page Let_def)
  next
    case True
    let ?last = "m_id (last (take limit ?xs))"
    have ne: "take limit ?xs \<noteq> []" using True limit by auto
    have "sorted_wrt (<) (map m_id (rev ?xs))"
      using history_sorted [OF assms(1)] by (simp add: sorted_wrt_filter_map)
    then have drop: "filter (id_below (Some ?last)) ?xs = drop limit ?xs"
      using True limit by (intro id_below_last) auto
    have "last (take limit ?xs) \<in> set ?xs" using ne by (meson in_set_takeD last_in_set)
    then have "filter (id_below (Some ?last)) (history s cid) =
        filter (id_below (Some ?last)) (rev ?xs)"
      by (cases before) (auto simp: id_below_simps intro!: filter_cong)
    with drop have rest: "rev (filter (id_below (Some ?last)) (history s cid)) = drop limit ?xs"
      by (simp add: rev_filter)
    then have "length (filter (id_below (Some ?last)) (history s cid)) = length ?xs - limit"
      by (metis length_drop length_rev)
    with Suc.prems True limit have "length (filter (id_below (Some ?last)) (history s cid)) < n"
      by simp
    from Suc.IH [OF this] rest have
      "follow_cursors n (\<lambda>b. fst (get_conversation_history crepo mrepo cid p b limit s)) (Some ?last) =
        Some (drop limit ?xs)" by simp
    with True ne show ?thesis by (simp add: page Let_def)
  qed
qed

end

end
