(* ===== verification/Database.thy ===== *)
theory Database
  imports IdentityServices MessageServices
begin

section \<open>The tables, the session and its unit of work\<close>

text \<open>
  The row models of both contexts (\<open>infrastructure/outbound/persistence/models\<close>), with the keys,
  unique constraints, foreign keys and column bounds they declare, and the operations of an
  \<open>AsyncSession\<close> the adapters use. A table is the list of its rows in insertion order; a statement
  is its relational meaning over those lists. \<open>session.add\<close> only records the object: the insert runs
  at the next flush, which every query and the commit perform first, so a violated constraint
  surfaces there. \<open>bigserial\<close> hands out the next number even when the insert then fails, and a
  rollback does not give it back.

  Postgres and SQLAlchemy themselves are not under \<open>src/\<close>; what is modelled of them is the meaning of
  the statements the adapters issue in one transaction with no other one running. The races between
  two transactions are in the theory \<open>Races\<close>.
\<close>

subsection \<open>Rows\<close>

record user_row =
  um_id :: uuid
  um_email :: string
  um_password_hash :: string
  um_created_at :: datetime

record refresh_token_row =
  tm_jti :: string
  tm_user_id :: uuid
  tm_token_hash :: string
  tm_expires_at :: datetime
  tm_revoked_at :: "datetime option"

record conversation_row =
  cm_id :: uuid
  cm_owner_id :: uuid
  cm_title :: string
  cm_created_at :: datetime
  cm_updated_at :: datetime
  cm_deleted_at :: "datetime option"

record participant_row =
  pm_conversation_id :: uuid
  pm_user_id :: uuid
  pm_joined_at :: datetime

record message_row =
  mm_id :: int
  mm_conversation_id :: uuid
  mm_sender_id :: "uuid option"
  mm_role :: string
  mm_content :: string
  mm_created_at :: datetime
  mm_client_message_id :: "uuid option"

record database =
  db_users :: "user_row list"
  db_refresh_tokens :: "refresh_token_row list"
  db_conversations :: "conversation_row list"
  db_participants :: "participant_row list"
  db_messages :: "message_row list"
  db_message_seq :: int

definition empty_database :: database where
  "empty_database =
     \<lparr>db_users = [], db_refresh_tokens = [], db_conversations = [], db_participants = [],
      db_messages = [], db_message_seq = 0\<rparr>"

subsection \<open>Inserts, with the constraints the models declare\<close>

text \<open>\<open>users\<close>: primary key, unique e-mail, \<open>String(320)\<close>.\<close>

definition insert_user :: "user_row \<Rightarrow> database \<Rightarrow> database outcome" where
  "insert_user r db =
     (if 320 < length (um_email r) then Inl DataError
      else if um_id r \<in> um_id ` set (db_users db) \<or> um_email r \<in> um_email ` set (db_users db)
      then Inl IntegrityError
      else Inr (db\<lparr>db_users := db_users db @ [r]\<rparr>))"

text \<open>\<open>refresh_tokens\<close>: primary key, foreign key to \<open>users\<close>.\<close>

definition insert_refresh_token :: "refresh_token_row \<Rightarrow> database \<Rightarrow> database outcome" where
  "insert_refresh_token r db =
     (if tm_jti r \<in> tm_jti ` set (db_refresh_tokens db) \<or> tm_user_id r \<notin> um_id ` set (db_users db)
      then Inl IntegrityError
      else Inr (db\<lparr>db_refresh_tokens := db_refresh_tokens db @ [r]\<rparr>))"

text \<open>\<open>conversation_participants\<close>: composite primary key, foreign key to \<open>conversations\<close>.\<close>

definition insert_participant :: "participant_row \<Rightarrow> database \<Rightarrow> database outcome" where
  "insert_participant r db =
     (if (pm_conversation_id r, pm_user_id r) \<in>
           (\<lambda>p. (pm_conversation_id p, pm_user_id p)) ` set (db_participants db) \<or>
         pm_conversation_id r \<notin> cm_id ` set (db_conversations db)
      then Inl IntegrityError
      else Inr (db\<lparr>db_participants := db_participants db @ [r]\<rparr>))"

fun insert_participants :: "participant_row list \<Rightarrow> database \<Rightarrow> database outcome" where
  "insert_participants [] db = Inr db"
| "insert_participants (r # rs) db = bindr (insert_participant r db) (insert_participants rs)"

text \<open>\<open>conversations\<close>: primary key, \<open>String(200)\<close>; the \<open>participants\<close> relationship cascades.\<close>

definition insert_conversation ::
    "conversation_row \<Rightarrow> participant_row list \<Rightarrow> database \<Rightarrow> database outcome" where
  "insert_conversation r ps db =
     (if 200 < length (cm_title r) then Inl DataError
      else if cm_id r \<in> cm_id ` set (db_conversations db) then Inl IntegrityError
      else insert_participants ps (db\<lparr>db_conversations := db_conversations db @ [r]\<rparr>))"

text \<open>\<open>messages\<close>: \<open>bigserial\<close> primary key, foreign key to \<open>conversations\<close>, \<open>String(16)\<close> role, and the
  unique constraint on (\<open>conversation_id\<close>, \<open>client_message_id\<close>), for which NULLs are distinct.\<close>

definition key_taken :: "uuid \<Rightarrow> uuid option \<Rightarrow> message_row list \<Rightarrow> bool" where
  "key_taken cid key rows =
     (key \<noteq> None \<and> (\<exists>r \<in> set rows. mm_conversation_id r = cid \<and> mm_client_message_id r = key))"

definition insert_message ::
    "message_row \<Rightarrow> database \<Rightarrow> message_row outcome \<times> database" where
  "insert_message r db =
     (let n = db_message_seq db + 1;
          db' = db\<lparr>db_message_seq := n\<rparr>;
          r' = r\<lparr>mm_id := n\<rparr>
      in if 16 < length (mm_role r) then (Inl DataError, db')
         else if mm_conversation_id r \<notin> cm_id ` set (db_conversations db) \<or>
                 key_taken (mm_conversation_id r) (mm_client_message_id r) (db_messages db)
         then (Inl IntegrityError, db')
         else (Inr r', db'\<lparr>db_messages := db_messages db @ [r']\<rparr>))"

subsection \<open>The session\<close>

text \<open>What \<open>session.add\<close> has recorded and a flush will insert.\<close>

datatype pending =
    PendingUser user_row
  | PendingRefreshToken refresh_token_row
  | PendingConversation conversation_row "participant_row list"
  | PendingParticipant participant_row

fun insert_pending :: "pending \<Rightarrow> database \<Rightarrow> database outcome" where
  "insert_pending (PendingUser r) db = insert_user r db"
| "insert_pending (PendingRefreshToken r) db = insert_refresh_token r db"
| "insert_pending (PendingConversation r ps) db = insert_conversation r ps db"
| "insert_pending (PendingParticipant r) db = insert_participant r db"

fun insert_all :: "pending list \<Rightarrow> database \<Rightarrow> database outcome" where
  "insert_all [] db = Inr db"
| "insert_all (p # ps) db = bindr (insert_pending p db) (insert_all ps)"

record session =
  s_db :: database
  s_new :: "pending list"

definition session_add :: "pending \<Rightarrow> (unit, session) op" where
  "session_add p s = (Inr (), s\<lparr>s_new := s_new s @ [p]\<rparr>)"

definition session_flush :: "(unit, session) op" where
  "session_flush s =
     (case insert_all (s_new s) (s_db s) of
        Inl e \<Rightarrow> (Inl e, s)
      | Inr db \<Rightarrow> (Inr (), \<lparr>s_db = db, s_new = []\<rparr>))"

text \<open>\<open>session.execute(select ...)\<close> and \<open>session.execute(update ...)\<close> / \<open>delete\<close>.\<close>

definition session_select :: "(database \<Rightarrow> 'a) \<Rightarrow> ('a, session) op" where
  "session_select q = thenp session_flush (\<lambda>s. (Inr (q (s_db s)), s))"

definition session_write :: "(database \<Rightarrow> database) \<Rightarrow> (unit, session) op" where
  "session_write f = thenp session_flush (\<lambda>s. (Inr (), s\<lparr>s_db := f (s_db s)\<rparr>))"

text \<open>\<open>result.scalar_one_or_none()\<close>\<close>

fun scalar_one_or_none :: "'a list \<Rightarrow> 'a option outcome" where
  "scalar_one_or_none [] = Inr None"
| "scalar_one_or_none [x] = Inr (Some x)"
| "scalar_one_or_none _ = Inl MultipleResultsFound"

text \<open>\<open>session.add(message)\<close> followed by \<open>session.flush()\<close>.\<close>

definition session_insert_message :: "message_row \<Rightarrow> (message_row, session) op" where
  "session_insert_message r =
     thenp session_flush (\<lambda>s. case insert_message r (s_db s) of (x, db) \<Rightarrow> (x, s\<lparr>s_db := db\<rparr>))"

text \<open>\<open>session.merge(token)\<close>: the row with this key takes the given values; with none, an insert.\<close>

definition session_merge_refresh_token :: "refresh_token_row \<Rightarrow> (unit, session) op" where
  "session_merge_refresh_token r s =
     (if tm_jti r \<in> tm_jti ` set (db_refresh_tokens (s_db s))
      then (Inr (), s\<lparr>s_db := (s_db s)\<lparr>db_refresh_tokens :=
              map (\<lambda>q. if tm_jti q = tm_jti r then r else q) (db_refresh_tokens (s_db s))\<rparr>\<rparr>)
      else session_add (PendingRefreshToken r) s)"

text \<open>\<open>session.commit()\<close> flushes; the transaction's tables then are the database's.\<close>

definition session_commit :: "(unit, session) op" where
  "session_commit = session_flush"

definition open_session :: "database \<Rightarrow> session" where
  "open_session db = \<lparr>s_db = db, s_new = []\<rparr>"

definition rollback :: "database \<Rightarrow> session \<Rightarrow> database" where
  "rollback db s = db\<lparr>db_message_seq := db_message_seq (s_db s)\<rparr>"

lemma open_session_fields [simp]: "s_db (open_session db) = db" "s_new (open_session db) = []"
  by (simp_all add: open_session_def)

lemma rollback_open [simp]: "rollback db (open_session db) = db"
  by (simp add: rollback_def)

text \<open>\<open>async with session_factory() as session: x = await m(session); await session.commit(); return x\<close>:
  an exception of \<open>m\<close> or of the commit leaves the block and the transaction is rolled back.\<close>

definition unit_of_work :: "('a, session) op \<Rightarrow> ('a, database) op" where
  "unit_of_work m db =
     (case bindp m (\<lambda>x. thenp session_commit (ret x)) (open_session db) of
        (Inr x, s) \<Rightarrow> (Inr x, s_db s)
      | (Inl e, s) \<Rightarrow> (Inl e, rollback db s))"

text \<open>The same block without the commit: whatever \<open>m\<close> wrote is dropped.\<close>

definition read_session :: "('a, session) op \<Rightarrow> ('a, database) op" where
  "read_session m db = (case m (open_session db) of (r, s) \<Rightarrow> (r, rollback db s))"

subsection \<open>Facts about flushing\<close>

lemma flush_empty [simp]: "s_new s = [] \<Longrightarrow> session_flush s = (Inr (), s)"
  by (cases s) (simp add: session_flush_def)

lemma select_empty: "s_new s = [] \<Longrightarrow> session_select q s = (Inr (q (s_db s)), s)"
  by (simp add: session_select_def proc_simps)

lemma write_empty: "s_new s = [] \<Longrightarrow> session_write f s = (Inr (), s\<lparr>s_db := f (s_db s)\<rparr>)"
  by (simp add: session_write_def proc_simps)

text \<open>The tables as a flush would leave them: what the rest of the session's life can observe.\<close>

definition flushed :: "session \<Rightarrow> database" where
  "flushed s = (case insert_all (s_new s) (s_db s) of Inl _ \<Rightarrow> s_db s | Inr db \<Rightarrow> db)"

definition ready_to_commit :: "session \<Rightarrow> bool" where
  "ready_to_commit s = (\<exists>db. insert_all (s_new s) (s_db s) = Inr db)"

lemma ready_empty [simp]: "s_new s = [] \<Longrightarrow> ready_to_commit s"
  by (simp add: ready_to_commit_def)

lemma flushed_empty [simp]: "s_new s = [] \<Longrightarrow> flushed s = s_db s"
  by (simp add: flushed_def)

lemma flushed_open [simp]: "flushed (open_session db) = db"
  by simp

lemma insert_all_snoc: "insert_all (ps @ [p]) db = bindr (insert_all ps db) (insert_pending p)"
  by (induction ps arbitrary: db) (auto simp: bindr_def split: sum.splits)

lemma unit_of_work_ok:
  assumes "m (open_session db) = (Inr x, s)" and "insert_all (s_new s) (s_db s) = Inr db'"
  shows "unit_of_work m db = (Inr x, db')"
  using assms by (simp add: unit_of_work_def session_commit_def session_flush_def proc_simps)

lemma unit_of_work_error:
  assumes "m (open_session db) = (Inl e, s)"
  shows "unit_of_work m db = (Inl e, rollback db s)"
  using assms by (simp add: unit_of_work_def proc_simps)

text \<open>A use case that returns in a state that can be committed is committed as it stands.\<close>

lemma unit_of_work_ready:
  assumes "m (open_session db) = (Inr x, s)" and "ready_to_commit s"
  shows "unit_of_work m db = (Inr x, flushed s)"
  using assms by (auto simp: ready_to_commit_def flushed_def unit_of_work_ok)

text \<open>An exception leaves every table as it was.\<close>

lemma unit_of_work_Inl_tables:
  "unit_of_work m db = (Inl e, db') \<Longrightarrow> \<exists>n. db' = db\<lparr>db_message_seq := n\<rparr>"
  by (auto simp: unit_of_work_def rollback_def split: prod.splits sum.splits)

lemma unit_of_work_Inr:
  "unit_of_work m db = (Inr x, db') \<Longrightarrow>
    \<exists>s. m (open_session db) = (Inr x, s) \<and> insert_all (s_new s) (s_db s) = Inr db'"
  by (auto simp: unit_of_work_def session_commit_def session_flush_def proc_simps
      split: prod.splits sum.splits)

end
