(* ===== verification/SqlRepositories.thy ===== *)
theory SqlRepositories
  imports Database
begin

section \<open>The SQLAlchemy repositories\<close>

text \<open>
  \<open>infrastructure/outbound/persistence/repositories\<close> of both contexts and the \<open>UserDirectory\<close> adapter:
  the translations between aggregates and rows (\<open>_to_model\<close>, \<open>_to_domain\<close>) and the four repositories
  as records of operations on a \<open>session\<close>. \<open>_to_domain\<close> runs the value objects' constructors again, so
  it raises on a row that does not hold a valid value. \<open>order_by\<close> is a stable sort; the code leaves
  the order of ties to the database, and the model takes the rows' own.
\<close>

subsection \<open>SqlAlchemyUserRepository\<close>

definition user_to_model :: "user \<Rightarrow> user_row" where
  "user_to_model user =
     \<lparr>um_id = user_id_value (u_id user), um_email = email_value (u_email user),
      um_password_hash = password_hash_value (u_password_hash user), um_created_at = u_created_at user\<rparr>"

definition user_to_domain :: "user_row \<Rightarrow> user outcome" where
  "user_to_domain model =
     bindr (mk_email (um_email model)) (\<lambda>email.
     bindr (mk_password_hash (um_password_hash model)) (\<lambda>password_hash.
       Inr \<lparr>u_id = UserId (um_id model), u_email = email, u_password_hash = password_hash,
            u_created_at = um_created_at model\<rparr>))"

text \<open>\<open>_to_domain(model) if model is not None else None\<close>\<close>

definition optional_to_domain :: "('r \<Rightarrow> 'a outcome) \<Rightarrow> 'r option \<Rightarrow> 'a option outcome" where
  "optional_to_domain to_domain model =
     (case model of None \<Rightarrow> Inr None | Some m \<Rightarrow> bindr (to_domain m) (\<lambda>x. Inr (Some x)))"

definition user_add :: "user \<Rightarrow> (unit, session) op" where
  "user_add user = session_add (PendingUser (user_to_model user))"

definition user_get_by_email :: "email \<Rightarrow> (user option, session) op" where
  "user_get_by_email email =
     bindp (session_select (\<lambda>db. filter (\<lambda>r. um_email r = email_value email) (db_users db))) (\<lambda>result.
     bindp (lift (scalar_one_or_none result)) (\<lambda>model.
     lift (optional_to_domain user_to_domain model)))"

definition sql_users :: "session user_repository" where
  "sql_users = \<lparr>ur_add = user_add, ur_get_by_email = user_get_by_email\<rparr>"

subsection \<open>SqlAlchemyRefreshTokenRepository\<close>

definition refresh_token_to_model :: "refresh_token \<Rightarrow> refresh_token_row" where
  "refresh_token_to_model token =
     \<lparr>tm_jti = rt_jti token, tm_user_id = user_id_value (rt_user_id token),
      tm_token_hash = rt_token_hash token, tm_expires_at = rt_expires_at token,
      tm_revoked_at = rt_revoked_at token\<rparr>"

definition refresh_token_to_domain :: "refresh_token_row \<Rightarrow> refresh_token" where
  "refresh_token_to_domain model =
     \<lparr>rt_jti = tm_jti model, rt_user_id = UserId (tm_user_id model),
      rt_token_hash = tm_token_hash model, rt_expires_at = tm_expires_at model,
      rt_revoked_at = tm_revoked_at model\<rparr>"

definition refresh_token_add :: "refresh_token \<Rightarrow> (unit, session) op" where
  "refresh_token_add token = session_add (PendingRefreshToken (refresh_token_to_model token))"

definition refresh_token_get_by_jti :: "string \<Rightarrow> (refresh_token option, session) op" where
  "refresh_token_get_by_jti jti =
     bindp (session_select (\<lambda>db. filter (\<lambda>r. tm_jti r = jti) (db_refresh_tokens db))) (\<lambda>result.
     bindp (lift (scalar_one_or_none result)) (\<lambda>model.
     ret (map_option refresh_token_to_domain model)))"

definition refresh_token_save :: "refresh_token \<Rightarrow> (unit, session) op" where
  "refresh_token_save token = session_merge_refresh_token (refresh_token_to_model token)"

definition sql_refresh_tokens :: "session refresh_token_repository" where
  "sql_refresh_tokens =
     \<lparr>rr_add = refresh_token_add, rr_get_by_jti = refresh_token_get_by_jti, rr_save = refresh_token_save\<rparr>"

subsection \<open>SqlAlchemyConversationRepository\<close>

text \<open>\<open>model.participants\<close>: the rows the \<open>selectin\<close> loader attaches to a conversation.\<close>

definition participants_of :: "database \<Rightarrow> uuid \<Rightarrow> participant_row list" where
  "participants_of db cid = filter (\<lambda>p. pm_conversation_id p = cid) (db_participants db)"

definition conversation_to_domain :: "conversation_row \<times> participant_row list \<Rightarrow> conversation outcome" where
  "conversation_to_domain =
     (\<lambda>(model, participants).
       bindr (mk_conversation_title (cm_title model)) (\<lambda>title.
         Inr \<lparr>c_id = ConversationId (cm_id model), c_owner_id = OwnerId (cm_owner_id model),
              c_title = title, c_created_at = cm_created_at model, c_updated_at = cm_updated_at model,
              c_deleted_at = cm_deleted_at model,
              c_participant_ids = set (map (\<lambda>p. ParticipantId (pm_user_id p)) participants)\<rparr>))"

definition select_conversations ::
    "(conversation_row \<Rightarrow> bool) \<Rightarrow> database \<Rightarrow> (conversation_row \<times> participant_row list) list" where
  "select_conversations P db =
     map (\<lambda>r. (r, participants_of db (cm_id r))) (filter P (db_conversations db))"

text \<open>\<open>participant_ids\<close> is a frozenset; its rows are inserted in the order of the ids.\<close>

definition participant_rows :: "conversation_id \<Rightarrow> datetime \<Rightarrow> participant_id set \<Rightarrow> participant_row list" where
  "participant_rows conversation_id created_at participant_ids =
     map (\<lambda>u. \<lparr>pm_conversation_id = conversation_id_value conversation_id, pm_user_id = u,
               pm_joined_at = created_at\<rparr>)
       (sorted_list_of_set (participant_id_value ` participant_ids))"

definition conversation_create ::
    "conversation_id \<Rightarrow> owner_id \<Rightarrow> conversation_title \<Rightarrow> datetime \<Rightarrow> datetime \<Rightarrow> participant_id set \<Rightarrow>
     (unit, session) op" where
  "conversation_create conversation_id owner_id title created_at updated_at participant_ids =
     session_add (PendingConversation
       \<lparr>cm_id = conversation_id_value conversation_id, cm_owner_id = owner_id_value owner_id,
        cm_title = conversation_title_value title, cm_created_at = created_at,
        cm_updated_at = updated_at, cm_deleted_at = None\<rparr>
       (participant_rows conversation_id created_at participant_ids))"

definition conversation_update ::
    "conversation_id \<Rightarrow> conversation_title \<Rightarrow> datetime \<Rightarrow> datetime option \<Rightarrow> (unit, session) op" where
  "conversation_update conversation_id title updated_at deleted_at =
     session_write (\<lambda>db. db\<lparr>db_conversations :=
       map (\<lambda>r. if cm_id r = conversation_id_value conversation_id
                then r\<lparr>cm_title := conversation_title_value title, cm_updated_at := updated_at,
                       cm_deleted_at := deleted_at\<rparr>
                else r) (db_conversations db)\<rparr>)"

definition conversation_get :: "conversation_id \<Rightarrow> (conversation option, session) op" where
  "conversation_get conversation_id =
     bindp (session_select (select_conversations
       (\<lambda>r. cm_id r = conversation_id_value conversation_id \<and> cm_deleted_at r = None))) (\<lambda>result.
     bindp (lift (scalar_one_or_none result)) (\<lambda>model.
     lift (optional_to_domain conversation_to_domain model)))"

definition conversation_get_including_deleted ::
    "conversation_id \<Rightarrow> (conversation option, session) op" where
  "conversation_get_including_deleted conversation_id =
     bindp (session_select (select_conversations
       (\<lambda>r. cm_id r = conversation_id_value conversation_id))) (\<lambda>result.
     bindp (lift (scalar_one_or_none result)) (\<lambda>model.
     lift (optional_to_domain conversation_to_domain model)))"

text \<open>The join pairs each conversation with its membership row of the user, then sorts newest first.\<close>

definition select_for_participant ::
    "uuid \<Rightarrow> database \<Rightarrow> (conversation_row \<times> participant_row list) list" where
  "select_for_participant u db =
     map (\<lambda>r. (r, participants_of db (cm_id r)))
       (sort_key (\<lambda>r. - cm_created_at r)
         (concat (map (\<lambda>r. map (\<lambda>p. r)
            (filter (\<lambda>p. pm_conversation_id p = cm_id r \<and> pm_user_id p = u \<and> cm_deleted_at r = None)
               (db_participants db))) (db_conversations db))))"

definition conversation_list_for_participant :: "participant_id \<Rightarrow> (conversation list, session) op" where
  "conversation_list_for_participant participant_id =
     bindp (session_select (select_for_participant (participant_id_value participant_id))) (\<lambda>result.
     lift (map_result conversation_to_domain result))"

definition conversation_insert_participant ::
    "conversation_id \<Rightarrow> participant_id \<Rightarrow> datetime \<Rightarrow> (unit, session) op" where
  "conversation_insert_participant conversation_id participant_id joined_at =
     session_add (PendingParticipant
       \<lparr>pm_conversation_id = conversation_id_value conversation_id,
        pm_user_id = participant_id_value participant_id, pm_joined_at = joined_at\<rparr>)"

definition conversation_delete_participant ::
    "conversation_id \<Rightarrow> participant_id \<Rightarrow> (unit, session) op" where
  "conversation_delete_participant conversation_id participant_id =
     session_write (\<lambda>db. db\<lparr>db_participants :=
       filter (\<lambda>p. \<not> (pm_conversation_id p = conversation_id_value conversation_id \<and>
                       pm_user_id p = participant_id_value participant_id)) (db_participants db)\<rparr>)"

definition conversation_list_participants :: "conversation_id \<Rightarrow> (participant list, session) op" where
  "conversation_list_participants conversation_id =
     bindp (session_select (\<lambda>db. sort_key pm_joined_at
       (participants_of db (conversation_id_value conversation_id)))) (\<lambda>result.
     ret (map (\<lambda>p. \<lparr>p_id = ParticipantId (pm_user_id p), p_joined_at = pm_joined_at p\<rparr>) result))"

definition sql_conversations :: "session conversation_repository" where
  "sql_conversations =
     \<lparr>cr_create = conversation_create, cr_update = conversation_update, cr_get = conversation_get,
      cr_get_including_deleted = conversation_get_including_deleted,
      cr_list_for_participant = conversation_list_for_participant,
      cr_add_participant = conversation_insert_participant,
      cr_remove_participant = conversation_delete_participant,
      cr_list_participants = conversation_list_participants\<rparr>"

subsection \<open>SqlAlchemyMessageRepository\<close>

definition message_to_domain :: "message_row \<Rightarrow> message outcome" where
  "message_to_domain model =
     bindr (mk_message_role (mm_role model)) (\<lambda>role.
     bindr (mk_message_content (mm_content model)) (\<lambda>content.
       Inr \<lparr>m_id = MessageId (mm_id model),
            m_conversation_id = ConversationId (mm_conversation_id model),
            m_sender_id = map_option SenderId (mm_sender_id model), m_role = role,
            m_content = content, m_created_at = mm_created_at model,
            m_client_message_id = map_option ClientMessageId (mm_client_message_id model)\<rparr>))"

definition message_create ::
    "conversation_id \<Rightarrow> sender_id option \<Rightarrow> message_role \<Rightarrow> message_content \<Rightarrow> datetime \<Rightarrow>
     client_message_id option \<Rightarrow> (message, session) op" where
  "message_create conversation_id sender_id role content created_at client_message_id =
     bindp (session_insert_message
       \<lparr>mm_id = 0, mm_conversation_id = conversation_id_value conversation_id,
        mm_sender_id = map_option sender_id_value sender_id, mm_role = message_role_value role,
        mm_content = message_content_value content, mm_created_at = created_at,
        mm_client_message_id = map_option client_message_id_value client_message_id\<rparr>) (\<lambda>model.
     lift (message_to_domain model))"

definition message_find_by_client_message_id ::
    "conversation_id \<Rightarrow> client_message_id \<Rightarrow> (message option, session) op" where
  "message_find_by_client_message_id conversation_id client_message_id =
     bindp (session_select (\<lambda>db. filter
       (\<lambda>r. mm_conversation_id r = conversation_id_value conversation_id \<and>
            mm_client_message_id r = Some (client_message_id_value client_message_id))
       (db_messages db))) (\<lambda>result.
     bindp (lift (scalar_one_or_none result)) (\<lambda>model.
     lift (optional_to_domain message_to_domain model)))"

definition message_list_history ::
    "conversation_id \<Rightarrow> message_id option \<Rightarrow> nat \<Rightarrow> (message list, session) op" where
  "message_list_history conversation_id before limit =
     bindp (session_select (\<lambda>db. take limit (sort_key (\<lambda>r. - mm_id r)
       (filter (\<lambda>r. mm_conversation_id r = conversation_id_value conversation_id \<and>
          (case before of None \<Rightarrow> True | Some b \<Rightarrow> mm_id r < message_id_value b)) (db_messages db)))))
       (\<lambda>result. lift (map_result message_to_domain result))"

definition message_list_since ::
    "conversation_id \<Rightarrow> message_id option \<Rightarrow> nat \<Rightarrow> (message list, session) op" where
  "message_list_since conversation_id after limit =
     bindp (session_select (\<lambda>db. take limit (sort_key mm_id
       (filter (\<lambda>r. mm_conversation_id r = conversation_id_value conversation_id \<and>
          (case after of None \<Rightarrow> True | Some a \<Rightarrow> message_id_value a < mm_id r)) (db_messages db)))))
       (\<lambda>result. lift (map_result message_to_domain result))"

definition sql_messages :: "session message_repository" where
  "sql_messages =
     \<lparr>mr_create = message_create, mr_find_by_client_message_id = message_find_by_client_message_id,
      mr_list_history = message_list_history, mr_list_since = message_list_since\<rparr>"

subsection \<open>IdentityUserDirectory\<close>

definition find_id_by_email :: "session user_directory" where
  "find_id_by_email email =
     (case mk_email email of
        Inl (InvalidEmail _) \<Rightarrow> ret None
      | Inl e \<Rightarrow> throw e
      | Inr address \<Rightarrow>
          bindp (user_get_by_email address) (\<lambda>user.
          ret (map_option (\<lambda>u. user_id_value (u_id u)) user)))"

end
