(* ===== verification/SqlStores.thy ===== *)
theory SqlStores
  imports StoreInvariant
begin

section \<open>The SQL repositories meet the contracts\<close>

text \<open>
  The abstraction of a session: the users, tokens, conversations and messages its tables hold once what
  it has recorded is flushed. The repositories of \<open>SqlRepositories\<close> are shown to implement the
  contracts of the use cases over it, which makes every fact of the use cases a fact about the tables.
\<close>

definition clean :: "session \<Rightarrow> bool" where
  "clean s = (s_new s = [] \<and> db_wf (s_db s))"

lemma clean_open [simp]: "clean (open_session db) = db_wf db"
  by (simp add: clean_def open_session_def)

subsection \<open>Abstraction\<close>

definition user_of_row :: "user_row \<Rightarrow> user" where
  "user_of_row r =
     \<lparr>u_id = UserId (um_id r), u_email = Email (um_email r),
      u_password_hash = PasswordHash (um_password_hash r), u_created_at = um_created_at r\<rparr>"

definition db_registered :: "database \<Rightarrow> email \<Rightarrow> user option" where
  "db_registered db e = map_option user_of_row (find (\<lambda>r. um_email r = email_value e) (db_users db))"

definition db_free_id :: "database \<Rightarrow> user_id \<Rightarrow> bool" where
  "db_free_id db i = (user_id_value i \<notin> um_id ` set (db_users db))"

definition db_token :: "database \<Rightarrow> string \<Rightarrow> refresh_token option" where
  "db_token db j = map_option refresh_token_to_domain (find (\<lambda>r. tm_jti r = j) (db_refresh_tokens db))"

definition db_known_user :: "database \<Rightarrow> user_id \<Rightarrow> bool" where
  "db_known_user db u = (user_id_value u \<in> um_id ` set (db_users db))"

definition conversation_of_row :: "conversation_row \<Rightarrow> participant_row list \<Rightarrow> conversation" where
  "conversation_of_row r ps =
     \<lparr>c_id = ConversationId (cm_id r), c_owner_id = OwnerId (cm_owner_id r),
      c_title = ConversationTitle (cm_title r), c_created_at = cm_created_at r,
      c_updated_at = cm_updated_at r, c_deleted_at = cm_deleted_at r,
      c_participant_ids = (\<lambda>p. ParticipantId (pm_user_id p)) ` set ps\<rparr>"

definition db_conversation :: "database \<Rightarrow> conversation_id \<Rightarrow> conversation option" where
  "db_conversation db cid =
     map_option (\<lambda>r. conversation_of_row r (participants_of db (cm_id r)))
       (find (\<lambda>r. cm_id r = conversation_id_value cid) (db_conversations db))"

definition message_of_row :: "message_row \<Rightarrow> message" where
  "message_of_row r =
     \<lparr>m_id = MessageId (mm_id r), m_conversation_id = ConversationId (mm_conversation_id r),
      m_sender_id = map_option SenderId (mm_sender_id r),
      m_role = (if mm_role r = ''user'' then USER else ASSISTANT),
      m_content = MessageContent (mm_content r), m_created_at = mm_created_at r,
      m_client_message_id = map_option ClientMessageId (mm_client_message_id r)\<rparr>"

definition db_history :: "database \<Rightarrow> conversation_id \<Rightarrow> message list" where
  "db_history db cid =
     map message_of_row (filter (\<lambda>r. mm_conversation_id r = conversation_id_value cid) (db_messages db))"

definition db_known_conversation :: "database \<Rightarrow> conversation_id \<Rightarrow> bool" where
  "db_known_conversation db cid = (conversation_id_value cid \<in> cm_id ` set (db_conversations db))"

lemmas db_view_defs = db_registered_def db_free_id_def db_token_def db_known_user_def
  db_conversation_def db_history_def db_known_conversation_def

subsection \<open>One row or none\<close>

lemma filter_key_find:
  assumes "distinct (map k xs)"
  shows "filter (\<lambda>x. k x = v) xs = (case find (\<lambda>x. k x = v) xs of None \<Rightarrow> [] | Some x \<Rightarrow> [x])"
  using assms
proof (induction xs)
  case (Cons x xs)
  show ?case
  proof (cases "k x = v")
    case True
    with Cons.prems have "filter (\<lambda>x. k x = v) xs = []"
      by (auto simp: filter_empty_conv) (metis imageI)
    with True show ?thesis by simp
  qed (use Cons in simp)
qed simp

lemma scalar_filter_key:
  assumes "distinct (map k xs)"
  shows "scalar_one_or_none (filter (\<lambda>x. k x = v) xs) = Inr (find (\<lambda>x. k x = v) xs)"
  by (simp add: filter_key_find [OF assms] split: option.splits)

lemma find_filter: "find P (filter Q xs) = find (\<lambda>x. Q x \<and> P x) xs"
  by (induction xs) auto

lemma find_map: "find P (map f xs) = map_option f (find (P \<circ> f) xs)"
  by (induction xs) auto

lemma find_cong': "xs = ys \<Longrightarrow> (\<And>x. x \<in> set ys \<Longrightarrow> P x = Q x) \<Longrightarrow> find P xs = find Q ys"
  by (rule find_cong)

lemma optional_to_domain_eq:
  "(\<And>m. x = Some m \<Longrightarrow> f m = Inr (g m)) \<Longrightarrow> optional_to_domain f x = Inr (map_option g x)"
  by (cases x) (simp_all add: optional_to_domain_def bindr_def)

subsection \<open>Users\<close>

lemma user_to_domain_wf: "user_row_wf r \<Longrightarrow> user_to_domain r = Inr (user_of_row r)"
  by (simp add: user_to_domain_def user_row_wf_def email_wf_def mk_password_hash_def user_of_row_def
      bindr_def)

lemma user_of_to_model [simp]: "user_of_row (user_to_model u) = u"
  by (simp add: user_of_row_def user_to_model_def)

lemma user_get_by_email_clean:
  assumes "clean s"
  shows "user_get_by_email e s = (Inr (db_registered (s_db s) e), s)"
proof -
  have wf: "distinct (map um_email (db_users (s_db s)))" "\<And>r. r \<in> set (db_users (s_db s)) \<Longrightarrow> user_row_wf r"
    using assms by (auto simp: clean_def db_wf_def users_wf_def)
  have "optional_to_domain user_to_domain (find (\<lambda>r. um_email r = email_value e) (db_users (s_db s))) =
      Inr (db_registered (s_db s) e)"
    unfolding db_registered_def
    by (rule optional_to_domain_eq) (auto dest: find_Some_D intro!: user_to_domain_wf wf)
  with assms wf(1) show ?thesis
    by (simp add: user_get_by_email_def bindp_InrI [OF select_empty] clean_def scalar_filter_key lift_def)
qed

interpretation ut: user_store sql_users clean ready_to_commit "\<lambda>s. db_registered (flushed s)" "\<lambda>s. db_free_id (flushed s)"
proof
  fix s e
  assume "clean s"
  then show "ur_get_by_email sql_users e s = (Inr (db_registered (flushed s) e), s)"
    using user_get_by_email_clean [of s e] by (simp add: sql_users_def clean_def)
next
  fix s and u :: user
  assume clean: "clean s" and "email_wf (u_email u)" and len: "length (email_value (u_email u)) \<le> 320"
    and "password_hash_value (u_password_hash u) \<noteq> []"
    and new: "db_registered (flushed s) (u_email u) = None" and free: "db_free_id (flushed s) (u_id u)"
  let ?db = "s_db s" and ?r = "user_to_model u"
  have "insert_user ?r ?db = Inr (?db\<lparr>db_users := db_users ?db @ [?r]\<rparr>)"
    using len new free clean
    by (simp add: insert_user_def user_to_model_def clean_def db_view_defs find_None_key)
  then have "flushed (s\<lparr>s_new := [PendingUser ?r]\<rparr>) = ?db\<lparr>db_users := db_users ?db @ [?r]\<rparr>"
    and "ready_to_commit (s\<lparr>s_new := [PendingUser ?r]\<rparr>)"
    by (simp_all add: flushed_def ready_to_commit_def bindr_def)
  moreover have "db_registered (?db\<lparr>db_users := db_users ?db @ [?r]\<rparr>) = (db_registered ?db)(u_email u \<mapsto> u)"
    using new clean
    by (auto simp: db_registered_def find_append fun_eq_iff clean_def email.expand
        split: option.splits) (auto simp: user_to_model_def email.expand)
  ultimately show "\<exists>s'. ur_add sql_users u s = (Inr (), s') \<and> ready_to_commit s' \<and>
      db_registered (flushed s') = (db_registered (flushed s))(u_email u \<mapsto> u)"
    using clean by (simp add: sql_users_def user_add_def session_add_def clean_def)
qed


subsection \<open>Refresh tokens\<close>

lemma find_map_update:
  assumes "\<And>q. k q = v \<Longrightarrow> k (g q) = v"
  shows "find (\<lambda>x. k x = w) (map (\<lambda>q. if k q = v then g q else q) xs) =
    (if w = v then map_option g (find (\<lambda>x. k x = w) xs) else find (\<lambda>x. k x = w) xs)"
  using assms by (induction xs) auto

lemma map_key_update [simp]:
  assumes "\<And>q. k q = v \<Longrightarrow> k (g q) = v"
  shows "map k (map (\<lambda>q. if k q = v then g q else q) xs) = map k xs"
  using assms by (induction xs) auto

lemma refresh_token_of_to_model [simp]: "refresh_token_to_domain (refresh_token_to_model t) = t"
  by (simp add: refresh_token_to_domain_def refresh_token_to_model_def)

lemma to_model_jti [simp]: "tm_jti (refresh_token_to_model t) = rt_jti t"
  by (simp add: refresh_token_to_model_def)

lemma to_model_user [simp]: "tm_user_id (refresh_token_to_model t) = user_id_value (rt_user_id t)"
  by (simp add: refresh_token_to_model_def)

lemma db_token_None: "db_token db j = None \<longleftrightarrow> j \<notin> tm_jti ` set (db_refresh_tokens db)"
  by (simp add: db_token_def find_None_key)

lemma refresh_token_get_by_jti_clean:
  assumes "clean s"
  shows "refresh_token_get_by_jti j s = (Inr (db_token (s_db s) j), s)"
proof -
  have "distinct (map tm_jti (db_refresh_tokens (s_db s)))"
    using assms by (auto simp: clean_def db_wf_def tokens_wf_def)
  with assms show ?thesis
    by (simp add: refresh_token_get_by_jti_def select_empty clean_def scalar_filter_key db_token_def
        proc_simps)
qed

interpretation rt: refresh_token_store sql_refresh_tokens clean ready_to_commit "\<lambda>s. db_token (flushed s)"
  "\<lambda>s. db_known_user (flushed s)"
proof
  fix s j
  assume "clean s"
  then show "rr_get_by_jti sql_refresh_tokens j s = (Inr (db_token (flushed s) j), s)"
    using refresh_token_get_by_jti_clean [of s j] by (simp add: sql_refresh_tokens_def clean_def)
next
  fix s j and t :: refresh_token
  assume "clean s" and "db_token (flushed s) j = Some t"
  then obtain r where "r \<in> set (db_refresh_tokens (s_db s))" "tm_jti r = j" "t = refresh_token_to_domain r"
    by (auto simp: db_token_def clean_def dest: find_Some_D)
  with \<open>clean s\<close> show "rt_jti t = j \<and> db_known_user (flushed s) (rt_user_id t)"
    by (simp add: refresh_token_to_domain_def db_known_user_def clean_def db_wf_def tokens_wf_def)
next
  fix s and t :: refresh_token
  assume clean: "clean s" and "db_token (flushed s) (rt_jti t) \<noteq> None"
    and known: "db_known_user (flushed s) (rt_user_id t)"
  let ?db = "s_db s" and ?r = "refresh_token_to_model t"
  let ?upd = "map (\<lambda>q. if tm_jti q = rt_jti t then ?r else q) (db_refresh_tokens ?db)"
  let ?s = "s\<lparr>s_db := ?db\<lparr>db_refresh_tokens := ?upd\<rparr>\<rparr>"
  have stored: "rt_jti t \<in> tm_jti ` set (db_refresh_tokens ?db)" "s_new s = []"
    using clean \<open>db_token _ _ \<noteq> None\<close> by (auto simp: db_token_None clean_def)
  then have "rr_save sql_refresh_tokens t s = (Inr (), ?s)"
    by (simp add: sql_refresh_tokens_def refresh_token_save_def session_merge_refresh_token_def)
  moreover have "clean ?s"
    using clean known by (auto simp: clean_def db_wf_defs db_known_user_def simp del: map_map)
  moreover have "db_token (?db\<lparr>db_refresh_tokens := ?upd\<rparr>) = (db_token ?db)(rt_jti t \<mapsto> t)"
    using stored(1) find_None_key [of tm_jti "rt_jti t" "db_refresh_tokens ?db"]
    by (auto simp: fun_eq_iff db_token_def find_map_update simp del: find_None_key)
  ultimately show "\<exists>s'. rr_save sql_refresh_tokens t s = (Inr (), s') \<and> clean s' \<and>
      db_known_user (flushed s') = db_known_user (flushed s) \<and>
      db_token (flushed s') = (db_token (flushed s))(rt_jti t \<mapsto> t)"
    using stored(2) by (intro exI [of _ ?s]) (simp add: fun_eq_iff db_known_user_def)
next
  fix s and t :: refresh_token
  assume clean: "clean s" and new: "db_token (flushed s) (rt_jti t) = None"
    and known: "db_known_user (flushed s) (rt_user_id t)"
  let ?db = "s_db s" and ?r = "refresh_token_to_model t"
  have "insert_refresh_token ?r ?db = Inr (?db\<lparr>db_refresh_tokens := db_refresh_tokens ?db @ [?r]\<rparr>)"
    using clean new known by (simp add: insert_refresh_token_def clean_def db_token_None db_known_user_def)
  then have "flushed (s\<lparr>s_new := [PendingRefreshToken ?r]\<rparr>) =
      ?db\<lparr>db_refresh_tokens := db_refresh_tokens ?db @ [?r]\<rparr>"
    and "ready_to_commit (s\<lparr>s_new := [PendingRefreshToken ?r]\<rparr>)"
    by (simp_all add: flushed_def ready_to_commit_def bindr_def)
  moreover have "db_token (?db\<lparr>db_refresh_tokens := db_refresh_tokens ?db @ [?r]\<rparr>) =
      (db_token ?db)(rt_jti t \<mapsto> t)"
    using new clean by (auto simp: db_token_def find_append fun_eq_iff clean_def split: option.splits)
  ultimately show "\<exists>s'. rr_add sql_refresh_tokens t s = (Inr (), s') \<and> ready_to_commit s' \<and>
      db_token (flushed s') = (db_token (flushed s))(rt_jti t \<mapsto> t)"
    using clean by (simp add: sql_refresh_tokens_def refresh_token_add_def session_add_def clean_def)
qed


subsection \<open>Conversations\<close>

lemma conversation_to_domain_wf:
  "title_wf (ConversationTitle (cm_title r)) \<Longrightarrow>
    conversation_to_domain (r, ps) = Inr (conversation_of_row r ps)"
  by (auto simp: conversation_to_domain_def title_wf_def conversation_of_row_def bindr_def)

lemma find_select:
  "find P (map f (filter Q xs)) = map_option f (find (\<lambda>x. Q x \<and> P (f x)) xs)"
  by (induction xs) auto

text \<open>Both lookups: the row with this id, when it satisfies the rest of the condition.\<close>

lemma scalar_select_conversations:
  assumes "distinct (map cm_id (db_conversations db))"
  shows "scalar_one_or_none (select_conversations (\<lambda>r. cm_id r = v \<and> Q r) db) =
    Inr (case find (\<lambda>r. cm_id r = v) (db_conversations db) of None \<Rightarrow> None
         | Some r \<Rightarrow> if Q r then Some (r, participants_of db (cm_id r)) else None)"
proof -
  let ?cs = "db_conversations db"
  let ?pair = "\<lambda>r. (r, participants_of db (cm_id r))"
  note filter_key_find [OF assms, of v]
  moreover have "filter (\<lambda>r. cm_id r = v \<and> Q r) ?cs = filter Q (filter (\<lambda>r. cm_id r = v) ?cs)"
    by (simp add: conj_commute)
  ultimately show ?thesis by (simp add: select_conversations_def split: option.splits)
qed

lemma conversation_row_title:
  "db_wf db \<Longrightarrow> find P (db_conversations db) = Some r \<Longrightarrow> title_wf (ConversationTitle (cm_title r))"
  by (auto simp: db_wf_def conversations_wf_def dest: find_Some_D)

lemma conversation_get_including_deleted_clean:
  assumes "clean s"
  shows "conversation_get_including_deleted cid s = (Inr (db_conversation (s_db s) cid), s)"
proof -
  have wf: "db_wf (s_db s)" "distinct (map cm_id (db_conversations (s_db s)))" "s_new s = []"
    using assms by (auto simp: clean_def db_wf_def conversations_wf_def)
  from scalar_select_conversations [OF wf(2), of "conversation_id_value cid" "\<lambda>_. True"] wf
    conversation_row_title [OF wf(1)]
  show ?thesis
    by (auto simp: conversation_get_including_deleted_def select_empty proc_simps db_conversation_def
        optional_to_domain_def conversation_to_domain_wf split: option.splits)
qed

lemma conversation_get_clean:
  assumes "clean s"
  shows "conversation_get cid s = (Inr (visible (db_conversation (s_db s) cid)), s)"
proof -
  have wf: "db_wf (s_db s)" "distinct (map cm_id (db_conversations (s_db s)))" "s_new s = []"
    using assms by (auto simp: clean_def db_wf_def conversations_wf_def)
  from scalar_select_conversations [OF wf(2), of "conversation_id_value cid" "\<lambda>r. cm_deleted_at r = None"]
    wf conversation_row_title [OF wf(1)]
  show ?thesis
    by (auto simp: conversation_get_def select_empty proc_simps db_conversation_def visible_def
        conversation_of_row_def optional_to_domain_def conversation_to_domain_wf split: option.splits)
qed

lemma db_conversation_Some:
  assumes "db_conversation db cid = Some c"
  obtains r where "r \<in> set (db_conversations db)" and "cm_id r = conversation_id_value cid"
    and "find (\<lambda>r. cm_id r = conversation_id_value cid) (db_conversations db) = Some r"
    and "c = conversation_of_row r (participants_of db (cm_id r))"
proof -
  from assms obtain r where "find (\<lambda>r. cm_id r = conversation_id_value cid) (db_conversations db) = Some r"
    "c = conversation_of_row r (participants_of db (cm_id r))"
    by (auto simp: db_conversation_def)
  with find_Some_D [OF this(1)] that show thesis by blast
qed

lemma db_conversation_None:
  "db_conversation db cid = None \<longleftrightarrow> conversation_id_value cid \<notin> cm_id ` set (db_conversations db)"
  by (simp add: db_conversation_def find_None_key)

text \<open>The four writes, as updates of the view.\<close>

lemma insert_participants_ok:
  assumes "distinct (map pm_key ps)" and "set (map pm_key ps) \<inter> set (map pm_key (db_participants db)) = {}"
    and "\<forall>p \<in> set ps. pm_conversation_id p \<in> cm_id ` set (db_conversations db)"
  shows "insert_participants ps db = Inr (db\<lparr>db_participants := db_participants db @ ps\<rparr>)"
  using assms
proof (induction ps arbitrary: db)
  case (Cons p ps)
  let ?db = "db\<lparr>db_participants := db_participants db @ [p]\<rparr>"
  have "insert_participant p db = Inr ?db"
    using Cons.prems by (auto simp: insert_participant_def pm_key_def image_iff)
  moreover have "insert_participants ps ?db = Inr (?db\<lparr>db_participants := db_participants ?db @ ps\<rparr>)"
    using Cons.prems by (intro Cons.IH) auto
  ultimately show ?case by (simp add: bindr_def)
qed simp

lemma db_conversation_created:
  assumes "cm_id r \<notin> cm_id ` set (db_conversations db)" and "participants_wf db"
    and "\<forall>p \<in> set ps. pm_conversation_id p = cm_id r"
  shows "db_conversation (db\<lparr>db_conversations := db_conversations db @ [r],
      db_participants := db_participants db @ ps\<rparr>) =
    (db_conversation db)(ConversationId (cm_id r) \<mapsto> conversation_of_row r ps)"
proof
  fix cid
  let ?db = "db\<lparr>db_conversations := db_conversations db @ [r], db_participants := db_participants db @ ps\<rparr>"
  have new: "participants_of ?db (cm_id r) = ps"
  proof -
    have "filter (\<lambda>p. pm_conversation_id p = cm_id r) (db_participants db) = []"
      using assms(1,2) unfolding participants_wf_def filter_empty_conv by metis
    then show ?thesis using assms(3) by (simp add: participants_of_def)
  qed
  have old: "participants_of ?db i = participants_of db i" if "i \<noteq> cm_id r" for i
    using assms(3) that by (auto simp: participants_of_def filter_empty_conv)
  show "db_conversation ?db cid =
      ((db_conversation db)(ConversationId (cm_id r) \<mapsto> conversation_of_row r ps)) cid"
  proof (cases "find (\<lambda>r. cm_id r = conversation_id_value cid) (db_conversations db)")
    case None
    then show ?thesis by (auto simp: db_conversation_def find_append new conversation_id.expand)
  next
    case (Some q)
    then have q: "q \<in> set (db_conversations db)" "cm_id q = conversation_id_value cid"
      using find_Some_D [OF Some] by simp_all
    then have "cm_id q \<noteq> cm_id r" using assms(1) by (metis imageI)
    with Some q show ?thesis by (auto simp: db_conversation_def find_append old)
  qed
qed

lemma participants_of_conversations [simp]:
  "participants_of (db\<lparr>db_conversations := cs\<rparr>) = participants_of db"
  by (simp add: participants_of_def fun_eq_iff)

lemma db_conversation_updated:
  assumes "db_conversation db cid = Some c"
  shows "db_conversation (db\<lparr>db_conversations :=
      map (\<lambda>r. if cm_id r = conversation_id_value cid
               then r\<lparr>cm_title := conversation_title_value t, cm_updated_at := u, cm_deleted_at := d\<rparr>
               else r) (db_conversations db)\<rparr>) =
    (db_conversation db)(cid \<mapsto> c\<lparr>c_title := t, c_updated_at := u, c_deleted_at := d\<rparr>)"
proof -
  from assms obtain r where r: "find (\<lambda>r. cm_id r = conversation_id_value cid) (db_conversations db) = Some r"
    "c = conversation_of_row r (participants_of db (cm_id r))" "cm_id r = conversation_id_value cid"
    by (rule db_conversation_Some)
  show ?thesis
    by (auto simp: fun_eq_iff db_conversation_def find_map_update r conversation_of_row_def
        conversation_id.expand)
qed

lemma db_conversation_admitted:
  assumes "db_conversation db cid = Some c"
  shows "db_conversation (db\<lparr>db_participants := db_participants db @
      [\<lparr>pm_conversation_id = conversation_id_value cid, pm_user_id = participant_id_value p,
        pm_joined_at = at\<rparr>]\<rparr>) =
    (db_conversation db)(cid \<mapsto> c\<lparr>c_participant_ids := c_participant_ids c \<union> {p}\<rparr>)"
proof -
  from assms obtain r where r: "find (\<lambda>r. cm_id r = conversation_id_value cid) (db_conversations db) = Some r"
    "c = conversation_of_row r (participants_of db (cm_id r))" "cm_id r = conversation_id_value cid"
    by (rule db_conversation_Some)
  show ?thesis
  proof
    fix cid'
    show "db_conversation (db\<lparr>db_participants := db_participants db @
          [\<lparr>pm_conversation_id = conversation_id_value cid, pm_user_id = participant_id_value p,
            pm_joined_at = at\<rparr>]\<rparr>) cid' =
        ((db_conversation db)(cid \<mapsto> c\<lparr>c_participant_ids := c_participant_ids c \<union> {p}\<rparr>)) cid'"
      using r
      by (cases "find (\<lambda>r. cm_id r = conversation_id_value cid') (db_conversations db)")
        (auto simp: db_conversation_def conversation_of_row_def participants_of_def
          conversation_id.expand dest: find_Some_D)
  qed
qed

lemma db_conversation_expelled:
  assumes "db_conversation db cid = Some c"
  shows "db_conversation (db\<lparr>db_participants :=
      filter (\<lambda>q. pm_conversation_id q = conversation_id_value cid \<longrightarrow>
                    pm_user_id q \<noteq> participant_id_value p) (db_participants db)\<rparr>) =
    (db_conversation db)(cid \<mapsto> c\<lparr>c_participant_ids := c_participant_ids c - {p}\<rparr>)"
proof -
  from assms obtain r where r: "find (\<lambda>r. cm_id r = conversation_id_value cid) (db_conversations db) = Some r"
    "c = conversation_of_row r (participants_of db (cm_id r))" "cm_id r = conversation_id_value cid"
    by (rule db_conversation_Some)
  let ?db = "db\<lparr>db_participants :=
      filter (\<lambda>q. pm_conversation_id q = conversation_id_value cid \<longrightarrow>
                    pm_user_id q \<noteq> participant_id_value p) (db_participants db)\<rparr>"
  have other: "participants_of ?db i = participants_of db i" if "i \<noteq> conversation_id_value cid" for i
    using that by (auto simp: participants_of_def intro: filter_cong)
  have expelled: "(\<lambda>q. ParticipantId (pm_user_id q)) ` set (participants_of ?db (conversation_id_value cid)) =
      (\<lambda>q. ParticipantId (pm_user_id q)) ` set (participants_of db (conversation_id_value cid)) - {p}"
    by (cases p) (auto simp: participants_of_def)
  show ?thesis
  proof
    fix cid'
    show "db_conversation ?db cid' =
        ((db_conversation db)(cid \<mapsto> c\<lparr>c_participant_ids := c_participant_ids c - {p}\<rparr>)) cid'"
    proof (cases "cid' = cid")
      case True
      with r expelled show ?thesis by (simp add: db_conversation_def conversation_of_row_def)
    next
      case False
      then have "conversation_id_value cid' \<noteq> conversation_id_value cid"
        by (auto intro: conversation_id.expand)
      with False show ?thesis
        by (cases "find (\<lambda>r. cm_id r = conversation_id_value cid') (db_conversations db)")
          (auto simp: db_conversation_def other dest: find_Some_D)
    qed
  qed
qed


interpretation ct: conversation_store sql_conversations clean ready_to_commit "\<lambda>s. db_conversation (flushed s)"
proof
  fix s cid
  assume "clean s"
  then show "cr_get_including_deleted sql_conversations cid s = (Inr (db_conversation (flushed s) cid), s)"
    using conversation_get_including_deleted_clean [of s cid]
    by (simp add: sql_conversations_def clean_def)
next
  fix s cid
  assume "clean s"
  then show "cr_get sql_conversations cid s = (Inr (visible (db_conversation (flushed s) cid)), s)"
    using conversation_get_clean [of s cid] by (simp add: sql_conversations_def clean_def)
next
  fix s cid and c :: conversation
  assume clean: "clean s" and "db_conversation (flushed s) cid = Some c"
  then obtain r where "r \<in> set (db_conversations (s_db s))" "cm_id r = conversation_id_value cid"
    "c = conversation_of_row r (participants_of (s_db s) (cm_id r))"
    by (auto simp: clean_def elim: db_conversation_Some)
  with clean show "c_id c = cid \<and> title_wf (c_title c)"
    by (simp add: conversation_of_row_def clean_def db_wf_def conversations_wf_def)
next
  fix s cid t owner created updated and ps :: "participant_id set"
  assume clean: "clean s" and new: "db_conversation (flushed s) cid = None" and t: "title_wf t"
    and fin: "finite ps"
  let ?db = "s_db s"
  let ?r = "\<lparr>cm_id = conversation_id_value cid, cm_owner_id = owner_id_value owner,
      cm_title = conversation_title_value t, cm_created_at = created, cm_updated_at = updated,
      cm_deleted_at = None\<rparr>"
  let ?ps = "participant_rows cid created ps"
  let ?db' = "?db\<lparr>db_conversations := db_conversations ?db @ [?r], db_participants := db_participants ?db @ ?ps\<rparr>"
  have wf: "participants_wf ?db" and fresh: "conversation_id_value cid \<notin> cm_id ` set (db_conversations ?db)"
    using clean new by (auto simp: clean_def db_wf_def db_conversation_None)
  have key: "map pm_key ?ps =
      map (Pair (conversation_id_value cid)) (sorted_list_of_set (participant_id_value ` ps))"
    by (simp add: participant_rows_def pm_key_def comp_def)
  have "(conversation_id_value cid, u) \<notin> pm_key ` set (db_participants ?db)" for u
  proof -
    have "\<forall>q \<in> set (db_participants ?db). pm_conversation_id q \<noteq> conversation_id_value cid"
      using wf fresh unfolding participants_wf_def by metis
    then show ?thesis by (auto simp: pm_key_def)
  qed
  then have "insert_participants ?ps (?db\<lparr>db_conversations := db_conversations ?db @ [?r]\<rparr>) = Inr ?db'"
    by (intro trans [OF insert_participants_ok])
      (auto simp: key distinct_map inj_on_def simp del: set_map, auto simp: participant_rows_def key)
  then have "flushed (s\<lparr>s_new := [PendingConversation ?r ?ps]\<rparr>) = ?db'"
    and "ready_to_commit (s\<lparr>s_new := [PendingConversation ?r ?ps]\<rparr>)"
    using t fresh by (cases t; simp add: flushed_def ready_to_commit_def bindr_def insert_conversation_def
        title_wf_iff)+
  moreover have "db_conversation ?db' = (db_conversation ?db)(cid \<mapsto> conversation_of_row ?r ?ps)"
    using db_conversation_created [of ?r ?db ?ps] fresh wf
    by (simp add: participant_rows_def)
  moreover have "conversation_of_row ?r ?ps = \<lparr>c_id = cid, c_owner_id = owner, c_title = t,
      c_created_at = created, c_updated_at = updated, c_deleted_at = None, c_participant_ids = ps\<rparr>"
    using fin by (auto simp: conversation_of_row_def participant_rows_def image_image)
  ultimately show "\<exists>s'. cr_create sql_conversations cid owner t created updated ps s = (Inr (), s') \<and> ready_to_commit s' \<and>
      db_conversation (flushed s') = (db_conversation (flushed s))(cid \<mapsto>
        \<lparr>c_id = cid, c_owner_id = owner, c_title = t, c_created_at = created, c_updated_at = updated,
          c_deleted_at = None, c_participant_ids = ps\<rparr>)"
    using clean by (simp add: sql_conversations_def conversation_create_def session_add_def clean_def)
next
  fix s cid and c :: conversation and t updated deleted
  assume "clean s" and "db_conversation (flushed s) cid = Some c"
  then show "\<exists>s'. cr_update sql_conversations cid t updated deleted s = (Inr (), s') \<and> ready_to_commit s' \<and>
      db_conversation (flushed s') = (db_conversation (flushed s))
        (cid \<mapsto> c\<lparr>c_title := t, c_updated_at := updated, c_deleted_at := deleted\<rparr>)"
    by (simp add: sql_conversations_def conversation_update_def write_empty clean_def db_conversation_updated)
next
  fix s cid and c :: conversation and p joined
  assume clean: "clean s" and c: "db_conversation (flushed s) cid = Some c" and p: "p \<notin> c_participant_ids c"
  let ?db = "s_db s"
  let ?r = "\<lparr>pm_conversation_id = conversation_id_value cid, pm_user_id = participant_id_value p,
      pm_joined_at = joined\<rparr>"
  from c clean obtain r where r: "r \<in> set (db_conversations ?db)" "cm_id r = conversation_id_value cid"
    "c = conversation_of_row r (participants_of ?db (cm_id r))"
    by (auto simp: clean_def elim: db_conversation_Some)
  have "\<forall>q \<in> set (db_participants ?db). pm_key q \<noteq> pm_key ?r"
    using p r by (cases p) (auto simp: conversation_of_row_def participants_of_def pm_key_def image_iff)
  moreover have "conversation_id_value cid \<in> cm_id ` set (db_conversations ?db)"
    using r(1,2) by (metis imageI)
  ultimately have "insert_participants [?r] ?db = Inr (?db\<lparr>db_participants := db_participants ?db @ [?r]\<rparr>)"
    by (intro insert_participants_ok) auto
  then have "flushed (s\<lparr>s_new := [PendingParticipant ?r]\<rparr>) = ?db\<lparr>db_participants := db_participants ?db @ [?r]\<rparr>"
    and "ready_to_commit (s\<lparr>s_new := [PendingParticipant ?r]\<rparr>)"
    by (auto simp: flushed_def ready_to_commit_def bindr_def split: sum.splits)
  with c clean show "\<exists>s'. cr_add_participant sql_conversations cid p joined s = (Inr (), s') \<and> ready_to_commit s' \<and>
      db_conversation (flushed s') = (db_conversation (flushed s))
        (cid \<mapsto> c\<lparr>c_participant_ids := c_participant_ids c \<union> {p}\<rparr>)"
    by (simp add: sql_conversations_def conversation_insert_participant_def session_add_def clean_def
        db_conversation_admitted)
next
  fix s cid and c :: conversation and p
  assume "clean s" and "db_conversation (flushed s) cid = Some c"
  then show "\<exists>s'. cr_remove_participant sql_conversations cid p s = (Inr (), s') \<and> ready_to_commit s' \<and>
      db_conversation (flushed s') = (db_conversation (flushed s))
        (cid \<mapsto> c\<lparr>c_participant_ids := c_participant_ids c - {p}\<rparr>)"
    by (simp add: sql_conversations_def conversation_delete_participant_def write_empty clean_def
        db_conversation_expelled)
qed

subsection \<open>The identity stores of a session\<close>

interpretation it: identity_store sql_users sql_refresh_tokens clean ready_to_commit
  "\<lambda>s. db_registered (flushed s)" "\<lambda>s. db_free_id (flushed s)" "\<lambda>s. db_token (flushed s)"
  "\<lambda>s. db_known_user (flushed s)"
proof unfold_locales
  fix s e u
  assume "clean s" and "db_registered (flushed s) e = Some u"
  then obtain r where "r \<in> set (db_users (flushed s))" "u = user_of_row r"
    by (auto simp: db_registered_def dest: find_Some_D)
  then show "db_known_user (flushed s) (u_id u)" by (simp add: db_known_user_def user_of_row_def)
qed

end
