(* ===== verification/SqlMessageStore.thy ===== *)
theory SqlMessageStore
  imports SqlStores
begin

section \<open>The SQL message repository meets its contract\<close>

text \<open>
  Ids increase strictly along the \<open>messages\<close> table, so sorting a selection of it by id, in either
  direction, is the selection or its reverse; what \<open>list_since\<close> and \<open>list_history\<close> return is then a
  cut of the conversation's history.
\<close>

lemma message_of_row_id [simp]: "m_id (message_of_row r) = MessageId (mm_id r)"
  by (simp add: message_of_row_def)

lemma message_to_domain_wf: "message_row_wf r \<Longrightarrow> message_to_domain r = Inr (message_of_row r)"
  by (auto simp: message_to_domain_def message_row_wf_def mk_message_role_def content_wf_def
      message_of_row_def bindr_def)

lemma messages_facts:
  assumes "clean s"
  shows "s_new s = []" and "sorted_wrt (<) (map mm_id (db_messages (s_db s)))"
    and "\<And>r. r \<in> set (db_messages (s_db s)) \<Longrightarrow> message_row_wf r"
    and "distinct (map mm_key (filter (\<lambda>r. mm_client_message_id r \<noteq> None) (db_messages (s_db s))))"
  using assms by (simp_all add: clean_def db_wf_def messages_wf_def)

lemma sort_selection:
  assumes "sorted_wrt (<) (map mm_id xs)"
  shows "sort_key mm_id xs = xs" and "sort_key (\<lambda>r. - mm_id r) xs = rev xs"
proof -
  show "sort_key mm_id xs = xs"
    using assms by (intro sort_key_id_if_sorted) (simp add: strict_sorted_iff)
  have "distinct (map (\<lambda>r. - mm_id r) xs)"
    using sorted_wrt_less_distinct [OF assms] by (auto simp: distinct_map inj_on_def)
  then have "distinct (map (\<lambda>r. - mm_id r) (sort_key (\<lambda>r. - mm_id r) xs))"
    by (simp add: distinct_map)
  then have "sorted_wrt (<) (map (\<lambda>r. - mm_id r) (sort_key (\<lambda>r. - mm_id r) xs))"
    by (simp add: strict_sorted_iff)
  moreover have "sorted_wrt (<) (map (\<lambda>r. - mm_id r) (rev xs))"
    using assms by (simp add: rev_map [symmetric] sorted_wrt_rev sorted_wrt_map)
  ultimately show "sort_key (\<lambda>r. - mm_id r) xs = rev xs"
    by (rule sorted_key_filter_eq) simp
qed

lemma map_result_messages:
  "(\<And>r. r \<in> set xs \<Longrightarrow> message_row_wf r) \<Longrightarrow>
    map_result message_to_domain xs = Inr (map message_of_row xs)"
  by (rule map_result_Inr) (rule message_to_domain_wf)

lemma db_history_sorted:
  assumes "messages_wf db"
  shows "sorted_wrt (<) (map m_id (db_history db cid))"
proof -
  have "sorted_wrt (<) (map mm_id (filter (\<lambda>r. mm_conversation_id r = conversation_id_value cid) (db_messages db)))"
    using assms by (intro sorted_wrt_filter_map) (simp add: messages_wf_def)
  then show ?thesis by (simp add: db_history_def sorted_wrt_map)
qed

lemma filter_history:
  "filter P (db_history db cid) =
    map message_of_row (filter (\<lambda>r. mm_conversation_id r = conversation_id_value cid \<and> P (message_of_row r))
      (db_messages db))"
  by (simp add: db_history_def filter_map comp_def conj_commute)

lemma message_list_since_clean:
  assumes "clean s"
  shows "message_list_since cid after n s =
    (Inr (take n (filter (id_above after) (db_history (s_db s) cid))), s)"
proof -
  note facts = messages_facts [OF assms]
  let ?rows = "filter (\<lambda>r. mm_conversation_id r = conversation_id_value cid \<and>
      (case after of None \<Rightarrow> True | Some a \<Rightarrow> message_id_value a < mm_id r)) (db_messages (s_db s))"
  have rows: "filter (id_above after) (db_history (s_db s) cid) = map message_of_row ?rows"
    by (cases after) (simp_all add: filter_history id_above_simps less_message_id_def)
  have "map_result message_to_domain (take n ?rows) = Inr (take n (map message_of_row ?rows))"
    using facts(3) by (subst map_result_messages) (auto simp: take_map dest: in_set_takeD)
  moreover have "sort_key mm_id ?rows = ?rows"
    by (intro sort_selection sorted_wrt_filter_map facts(2))
  ultimately show ?thesis
    by (simp add: message_list_since_def select_empty facts(1) rows proc_simps)
qed

lemma message_list_history_clean:
  assumes "clean s"
  shows "message_list_history cid before n s =
    (Inr (take n (rev (filter (id_below before) (db_history (s_db s) cid)))), s)"
proof -
  note facts = messages_facts [OF assms]
  let ?rows = "filter (\<lambda>r. mm_conversation_id r = conversation_id_value cid \<and>
      (case before of None \<Rightarrow> True | Some b \<Rightarrow> mm_id r < message_id_value b)) (db_messages (s_db s))"
  have rows: "filter (id_below before) (db_history (s_db s) cid) = map message_of_row ?rows"
    by (cases before) (simp_all add: filter_history id_below_simps less_message_id_def)
  have "map_result message_to_domain (take n (rev ?rows)) = Inr (take n (rev (map message_of_row ?rows)))"
    using facts(3) by (subst map_result_messages) (auto simp: take_map rev_map dest: in_set_takeD)
  moreover have "sort_key (\<lambda>r. - mm_id r) ?rows = rev ?rows"
    by (intro sort_selection sorted_wrt_filter_map facts(2))
  ultimately show ?thesis
    by (simp add: message_list_history_def select_empty facts(1) rows proc_simps)
qed

lemma find_key_history:
  "find (has_client_id k) (db_history db cid) =
    map_option message_of_row (find (\<lambda>r. mm_conversation_id r = conversation_id_value cid \<and>
      mm_client_message_id r = Some (client_message_id_value k)) (db_messages db))"
proof -
  have "has_client_id k (message_of_row r) \<longleftrightarrow> mm_client_message_id r = Some (client_message_id_value k)" for r
    by (cases k) (auto simp: has_client_id_def message_of_row_def)
  then show ?thesis by (simp add: db_history_def find_map find_filter comp_def)
qed

lemma message_find_clean:
  assumes "clean s"
  shows "message_find_by_client_message_id cid k s =
    (Inr (find (has_client_id k) (db_history (s_db s) cid)), s)"
proof -
  note facts = messages_facts [OF assms]
  let ?P = "\<lambda>r. mm_conversation_id r = conversation_id_value cid \<and>
      mm_client_message_id r = Some (client_message_id_value k)"
  let ?v = "(conversation_id_value cid, Some (client_message_id_value k))"
  let ?keyed = "filter (\<lambda>r. mm_client_message_id r \<noteq> None) (db_messages (s_db s))"
  have "filter ?P (db_messages (s_db s)) = filter (\<lambda>r. mm_key r = ?v) ?keyed"
    by (auto simp: mm_key_def intro!: filter_cong)
  moreover have "find ?P (db_messages (s_db s)) = find (\<lambda>r. mm_key r = ?v) ?keyed"
    unfolding find_filter by (rule find_cong) (auto simp: mm_key_def)
  ultimately have one: "scalar_one_or_none (filter ?P (db_messages (s_db s))) =
      Inr (find ?P (db_messages (s_db s)))"
    using scalar_filter_key [OF facts(4)] by simp
  have "optional_to_domain message_to_domain (find ?P (db_messages (s_db s))) =
      Inr (map_option message_of_row (find ?P (db_messages (s_db s))))"
    by (rule optional_to_domain_eq) (auto dest!: find_Some_D intro!: message_to_domain_wf facts(3))
  with one show ?thesis
    by (simp add: message_find_by_client_message_id_def select_empty facts(1) find_key_history proc_simps)
qed

lemma key_taken_iff:
  "key_taken (conversation_id_value cid) (map_option client_message_id_value ck) (db_messages db) \<longleftrightarrow>
    (\<exists>k. ck = Some k \<and> find (has_client_id k) (db_history db cid) \<noteq> None)"
  by (cases ck) (auto simp: key_taken_def find_key_history find_None_iff)

lemma find_taken:
  "find (has_client_id k) (db_history db cid) \<noteq> None \<longleftrightarrow>
    key_taken (conversation_id_value cid) (Some (client_message_id_value k)) (db_messages db)"
  using key_taken_iff [of cid "Some k" db] by simp

text \<open>The row \<open>create\<close> builds, before the database numbers it.\<close>

definition new_message_row ::
    "conversation_id \<Rightarrow> sender_id option \<Rightarrow> message_role \<Rightarrow> message_content \<Rightarrow> datetime \<Rightarrow>
     client_message_id option \<Rightarrow> message_row" where
  "new_message_row cid sender role content at ck =
     \<lparr>mm_id = 0, mm_conversation_id = conversation_id_value cid,
      mm_sender_id = map_option sender_id_value sender, mm_role = message_role_value role,
      mm_content = message_content_value content, mm_created_at = at,
      mm_client_message_id = map_option client_message_id_value ck\<rparr>"

lemma new_message_row_wf: "content_wf content \<Longrightarrow> message_row_wf (new_message_row cid sender role content at ck)"
  by (cases role) (simp_all add: new_message_row_def message_row_wf_def)

lemma message_of_new_row:
  "message_of_row ((new_message_row cid sender role content at ck)\<lparr>mm_id := n\<rparr>) =
    \<lparr>m_id = MessageId n, m_conversation_id = cid, m_sender_id = sender, m_role = role,
     m_content = content, m_created_at = at, m_client_message_id = ck\<rparr>"
  by (cases role) (simp_all add: new_message_row_def message_of_row_def option.map_comp comp_def
      option.map_ident)

lemma message_create_eq:
  "message_create cid sender role content at ck =
    bindp (session_insert_message (new_message_row cid sender role content at ck))
      (\<lambda>model. lift (message_to_domain model))"
  by (simp add: message_create_def new_message_row_def)

lemma message_create_ok:
  assumes "clean s" and "db_known_conversation (s_db s) cid" and "content_wf content"
    and "\<not> key_taken (conversation_id_value cid) (map_option client_message_id_value ck) (db_messages (s_db s))"
  shows "\<exists>db r. message_create cid sender role content at ck s =
      (Inr (message_of_row r), s\<lparr>s_db := db\<rparr>) \<and> db_wf db \<and>
    r = (new_message_row cid sender role content at ck)\<lparr>mm_id := db_message_seq (s_db s) + 1\<rparr> \<and>
    db = (s_db s)\<lparr>db_message_seq := db_message_seq (s_db s) + 1, db_messages := db_messages (s_db s) @ [r]\<rparr>"
proof -
  let ?new = "new_message_row cid sender role content at ck"
  let ?r = "?new\<lparr>mm_id := db_message_seq (s_db s) + 1\<rparr>"
  let ?db = "(s_db s)\<lparr>db_message_seq := db_message_seq (s_db s) + 1, db_messages := db_messages (s_db s) @ [?r]\<rparr>"
  have wf: "message_row_wf ?new" using assms(3) by (rule new_message_row_wf)
  then have wf': "message_row_wf ?r" by (simp add: message_row_wf_def)
  have "length (mm_role ?new) \<le> 16" by (cases role) (simp_all add: new_message_row_def)
  then have ins: "insert_message ?new (s_db s) = (Inr ?r, ?db)"
    using assms(2,4) by (simp add: insert_message_def Let_def db_known_conversation_def)
      (simp add: new_message_row_def)
  then have "db_wf ?db" using assms(1) wf by (simp add: insert_message_wf(1) clean_def)
  moreover have "message_create cid sender role content at ck s = (Inr (message_of_row ?r), s\<lparr>s_db := ?db\<rparr>)"
    using assms(1) ins message_to_domain_wf [OF wf']
    by (simp add: message_create_eq session_insert_message_def proc_simps clean_def)
  ultimately show ?thesis by blast
qed

interpretation mt: message_store sql_messages clean "\<lambda>s. db_history (flushed s)"
  "\<lambda>s. db_known_conversation (flushed s)"
proof
  fix s cid
  assume "clean s"
  then show "sorted_wrt (<) (map m_id (db_history (flushed s) cid))"
    by (simp add: clean_def db_wf_def db_history_sorted)
next
  fix s cid after n
  assume "clean s"
  then show "mr_list_since sql_messages cid after n s =
      (Inr (take n (filter (id_above after) (db_history (flushed s) cid))), s)"
    using message_list_since_clean [of s] by (simp add: sql_messages_def clean_def)
next
  fix s cid before n
  assume "clean s"
  then show "mr_list_history sql_messages cid before n s =
      (Inr (take n (rev (filter (id_below before) (db_history (flushed s) cid)))), s)"
    using message_list_history_clean [of s] by (simp add: sql_messages_def clean_def)
next
  fix s cid k
  assume "clean s"
  then show "mr_find_by_client_message_id sql_messages cid k s =
      (Inr (find (has_client_id k) (db_history (flushed s) cid)), s)"
    using message_find_clean [of s] by (simp add: sql_messages_def clean_def)
next
  fix s cid content ck sender role and at :: datetime
  assume clean: "clean s" and known: "db_known_conversation (flushed s) cid" and content: "content_wf content"
    and fresh: "\<forall>k. ck = Some k \<longrightarrow> find (has_client_id k) (db_history (flushed s) cid) = None"
  have nk: "\<not> key_taken (conversation_id_value cid) (map_option client_message_id_value ck) (db_messages (s_db s))"
    using fresh clean by (auto simp: key_taken_iff clean_def)
  from message_create_ok [OF clean _ content this, of sender role at] known clean obtain db r where
    c: "message_create cid sender role content at ck s = (Inr (message_of_row r), s\<lparr>s_db := db\<rparr>)" "db_wf db"
    and r: "r = (new_message_row cid sender role content at ck)\<lparr>mm_id := db_message_seq (s_db s) + 1\<rparr>"
    and db: "db = (s_db s)\<lparr>db_message_seq := db_message_seq (s_db s) + 1, db_messages := db_messages (s_db s) @ [r]\<rparr>"
    by (auto simp: clean_def)
  have m: "message_of_row r = \<lparr>m_id = MessageId (db_message_seq (s_db s) + 1), m_conversation_id = cid,
      m_sender_id = sender, m_role = role, m_content = content, m_created_at = at, m_client_message_id = ck\<rparr>"
    unfolding r by (rule message_of_new_row)
  have "mm_conversation_id r = conversation_id_value cid" by (simp add: r new_message_row_def)
  then have h: "db_history db = (db_history (s_db s))(cid := db_history (s_db s) cid @ [message_of_row r])"
    by (auto simp: db db_history_def fun_eq_iff conversation_id.expand)
  show "\<exists>s' i. mr_create sql_messages cid sender role content at ck s =
        (Inr \<lparr>m_id = i, m_conversation_id = cid, m_sender_id = sender, m_role = role,
           m_content = content, m_created_at = at, m_client_message_id = ck\<rparr>, s') \<and> clean s' \<and>
      db_known_conversation (flushed s') = db_known_conversation (flushed s) \<and>
      db_history (flushed s') = (db_history (flushed s))(cid := db_history (flushed s) cid @
        [\<lparr>m_id = i, m_conversation_id = cid, m_sender_id = sender, m_role = role,
           m_content = content, m_created_at = at, m_client_message_id = ck\<rparr>])"
    by (rule exI [of _ "s\<lparr>s_db := db\<rparr>"], rule exI [of _ "MessageId (db_message_seq (s_db s) + 1)"])
      (use c clean h m in \<open>simp add: sql_messages_def clean_def fun_eq_iff db_known_conversation_def db\<close>)
next
  fix s cid content k sender role and at :: datetime
  assume clean: "clean s" and known: "db_known_conversation (flushed s) cid" and content: "content_wf content"
    and taken: "find (has_client_id k) (db_history (flushed s) cid) \<noteq> None"
  let ?new = "new_message_row cid sender role content at (Some k)"
  have "length (mm_role ?new) \<le> 16" by (cases role) (simp_all add: new_message_row_def)
  moreover have "key_taken (conversation_id_value cid) (Some (client_message_id_value k)) (db_messages (s_db s))"
    using taken clean find_taken [of k "s_db s" cid] by (simp add: clean_def)
  ultimately have "fst (insert_message ?new (s_db s)) = Inl IntegrityError"
    by (simp add: insert_message_def Let_def) (simp add: new_message_row_def)
  with clean show "fst (mr_create sql_messages cid sender role content at (Some k) s) = Inl IntegrityError"
    by (auto simp: sql_messages_def message_create_eq session_insert_message_def proc_simps clean_def
        split: prod.splits sum.splits)
qed

interpretation st: messaging_store sql_conversations sql_messages clean ready_to_commit
  "\<lambda>s. db_conversation (flushed s)" "\<lambda>s. db_history (flushed s)" "\<lambda>s. db_known_conversation (flushed s)"
  by unfold_locales (auto simp: clean_def db_conversation_None db_known_conversation_def)

end
