(* ===== verification/StoreKept.thy ===== *)
theory StoreKept
  imports SqlMessageStore
begin

section \<open>Every use case keeps the database's invariant\<close>

text \<open>
  \<open>session_ok n\<close>: a transaction begun when the sequence was \<open>n\<close> holds tables that satisfy the invariant
  and pending rows with valid values. Every operation of the repositories keeps it, so does every use
  case, whether it returns or raises; a unit of work therefore takes a database that satisfies
  \<open>db_wf\<close> to one that does.
\<close>

definition session_ok :: "int \<Rightarrow> session \<Rightarrow> bool" where
  "session_ok n s = (db_wf (s_db s) \<and> (\<forall>p \<in> set (s_new s). pending_wf p) \<and> n \<le> db_message_seq (s_db s))"

text \<open>After a query nothing is pending.\<close>

definition session_clean :: "int \<Rightarrow> session \<Rightarrow> bool" where
  "session_clean n s = (session_ok n s \<and> clean s)"

lemma session_cleanD: "session_clean n s \<Longrightarrow> session_ok n s"
  by (simp add: session_clean_def)

lemma session_ok_open: "db_wf db \<Longrightarrow> session_ok (db_message_seq db) (open_session db)"
  by (simp add: session_ok_def open_session_def)

subsection \<open>Statements\<close>

lemma hoare_flush [hoare_rules]:
  "hoare (session_ok n) session_flush (\<lambda>_. session_clean n) (session_ok n)"
  by (rule hoareI) (auto simp: session_flush_def session_clean_def session_ok_def clean_def
      insert_all_wf insert_all_seq split: sum.splits)

lemma hoare_add:
  "pending_wf p \<Longrightarrow> hoare (session_ok n) (session_add p) (\<lambda>_. session_ok n) E"
  by (rule hoareI) (auto simp: session_add_def session_ok_def)

text \<open>A query behaves as it does after the flush, where what it returns is the view of the tables.\<close>

lemma hoare_query:
  assumes "m = bindp (session_select q) f" and "\<And>s. clean s \<Longrightarrow> m s = (Inr (g (s_db s)), s)"
  shows "hoare (session_ok n) m (\<lambda>x s. session_clean n s \<and> x = g (s_db s)) (session_ok n)"
proof -
  have "m s = thenp session_flush m s" for s
    by (cases "insert_all (s_new s) (s_db s)")
      (simp_all add: assms(1) session_select_def session_flush_def proc_simps)
  then have eq: "m = thenp session_flush m" by (rule ext)
  have "hoare (session_clean n) m (\<lambda>x s. session_clean n s \<and> x = g (s_db s)) (session_ok n)"
    using assms(2) by (auto simp: hoare_def session_clean_def)
  then show ?thesis by (subst eq) (rule hoare_thenp [OF hoare_flush])
qed

lemmas hoare_user_get = hoare_query [OF user_get_by_email_def user_get_by_email_clean]
lemmas hoare_token_get = hoare_query [OF refresh_token_get_by_jti_def refresh_token_get_by_jti_clean]
lemmas hoare_conversation_get = hoare_query [OF conversation_get_def conversation_get_clean]
lemmas hoare_conversation_get_deleted =
  hoare_query [OF conversation_get_including_deleted_def conversation_get_including_deleted_clean]
lemmas hoare_message_find = hoare_query [OF message_find_by_client_message_id_def message_find_clean]
lemmas hoare_list_history = hoare_query [OF message_list_history_def message_list_history_clean]
lemmas hoare_list_since = hoare_query [OF message_list_since_def message_list_since_clean]

lemma hoare_select_any:
  "hoare (session_ok n) (bindp (session_select q) (\<lambda>x. lift (f x))) (\<lambda>_. session_ok n) (session_ok n)"
  unfolding session_select_def
  by (rule hoare_bindp [OF hoare_thenp [OF hoare_flush, where Q = "\<lambda>_. session_ok n"]])
    (auto simp: hoare_def lift_def session_clean_def split: sum.splits)

subsection \<open>Writes\<close>

lemma hoare_user_add:
  "email_wf (u_email u) \<Longrightarrow> password_hash_value (u_password_hash u) \<noteq> [] \<Longrightarrow>
    hoare (session_ok n) (user_add u) (\<lambda>_. session_ok n) (session_ok n)"
  unfolding user_add_def by (rule hoare_add) (simp add: user_row_wf_def user_to_model_def)

lemma hoare_token_add: "hoare (session_ok n) (refresh_token_add t) (\<lambda>_. session_ok n) (session_ok n)"
  unfolding refresh_token_add_def by (rule hoare_add) simp

text \<open>The token saved is one that was read, so its user is there.\<close>

lemma hoare_token_save:
  "hoare (\<lambda>s. session_clean n s \<and> db_known_user (s_db s) (rt_user_id t)) (refresh_token_save t)
     (\<lambda>_. session_ok n) (session_ok n)"
proof (rule hoareI)
  fix s s' x
  assume "session_clean n s \<and> db_known_user (s_db s) (rt_user_id t)" and "refresh_token_save t s = (Inr x, s')"
  then show "session_ok n s'"
    by (auto simp: refresh_token_save_def session_merge_refresh_token_def session_add_def session_ok_def
        session_clean_def clean_def db_wf_defs db_known_user_def simp del: map_map split: if_splits)
qed (auto simp: refresh_token_save_def session_merge_refresh_token_def session_add_def split: if_splits)

lemma owner_row_participant:
  "(conversation_id_value cid, owner_id_value ow) \<in>
     pm_key ` set (participant_rows cid at {ParticipantId (owner_id_value ow)})"
  by (simp add: participant_rows_def pm_key_def)

lemma hoare_conversation_create:
  "title_wf t \<Longrightarrow> hoare (session_ok n)
     (conversation_create cid owner t c u {ParticipantId (owner_id_value owner)})
     (\<lambda>_. session_ok n) (session_ok n)"
  unfolding conversation_create_def
  by (rule hoare_add) (cases t, simp add: owner_row_participant)

lemma hoare_write:
  assumes "\<And>db. db_wf db \<Longrightarrow> P db \<Longrightarrow> db_wf (f db) \<and> db_message_seq (f db) = db_message_seq db"
  shows "hoare (\<lambda>s. session_clean n s \<and> P (s_db s)) (session_write f) (\<lambda>_. session_ok n) (session_ok n)"
  by (rule hoareI) (auto simp: write_empty session_clean_def clean_def session_ok_def dest: assms)

lemma conversations_update_wf:
  assumes "db_wf db" and "\<And>r. cm_id (f r) = cm_id r \<and> cm_owner_id (f r) = cm_owner_id r"
    and "\<And>r. r \<in> set (db_conversations db) \<Longrightarrow> title_wf (ConversationTitle (cm_title (f r)))"
  shows "db_wf (db\<lparr>db_conversations := map f (db_conversations db)\<rparr>)"
proof -
  have ids: "map cm_id (map f xs) = map cm_id xs" "cm_id ` f ` A = cm_id ` A" for xs A
    using assms(2) by (auto simp: image_image)
  have "cm_id \<circ> f = cm_id" using assms(2) by auto
  with assms show ?thesis by (simp add: db_wf_defs image_image)
qed

lemma hoare_conversation_update:
  assumes "title_wf t"
  shows "hoare (session_clean n) (conversation_update cid t u d) (\<lambda>_. session_ok n) (session_ok n)"
proof -
  have "hoare (\<lambda>s. session_clean n s \<and> True) (conversation_update cid t u d) (\<lambda>_. session_ok n) (session_ok n)"
    unfolding conversation_update_def
    using assms by (intro hoare_write conjI conversations_update_wf)
      (auto simp: db_wf_def conversations_wf_def)
  then show ?thesis by simp
qed

lemma hoare_insert_participant:
  "hoare (session_ok n) (conversation_insert_participant cid p at) (\<lambda>_. session_ok n) (session_ok n)"
  unfolding conversation_insert_participant_def by (rule hoare_add) simp

lemma distinct_key_eq:
  "distinct (map k xs) \<Longrightarrow> x \<in> set xs \<Longrightarrow> y \<in> set xs \<Longrightarrow> k x = k y \<Longrightarrow> x = y"
  by (auto simp: distinct_map inj_on_def)

text \<open>Deleting a membership row that is not the owner's.\<close>

lemma participants_delete_wf:
  assumes wf: "db_wf db" and c: "db_conversation db cid = Some c"
    and p: "participant_id_value p \<noteq> owner_id_value (c_owner_id c)"
  shows "db_wf (db\<lparr>db_participants :=
    filter (\<lambda>q. \<not> (pm_conversation_id q = conversation_id_value cid \<and>
                    pm_user_id q = participant_id_value p)) (db_participants db)\<rparr>)"
    (is "db_wf (db\<lparr>db_participants := filter ?keep _\<rparr>)")
proof -
  let ?ps = "db_participants db"
  from c obtain r where r: "find (\<lambda>r. cm_id r = conversation_id_value cid) (db_conversations db) = Some r"
    "c = conversation_of_row r (participants_of db (cm_id r))" "r \<in> set (db_conversations db)"
    "cm_id r = conversation_id_value cid"
    by (rule db_conversation_Some)
  have owner: "owner_id_value (c_owner_id c) = cm_owner_id r" by (simp add: r(2) conversation_of_row_def)
  have "(cm_id q, cm_owner_id q) \<in> pm_key ` set (filter ?keep ?ps)" if q: "q \<in> set (db_conversations db)" for q
  proof -
    obtain a where a: "a \<in> set ?ps" "pm_key a = (cm_id q, cm_owner_id q)"
    proof -
      have "(cm_id q, cm_owner_id q) \<in> pm_key ` set ?ps"
        using wf q by (simp add: db_wf_def owners_admitted_def)
      then show ?thesis using that by auto
    qed
    have "cm_id q = conversation_id_value cid \<Longrightarrow> q = r"
      using distinct_key_eq [of cm_id "db_conversations db" q r] wf q r(3,4)
      by (simp add: db_wf_def conversations_wf_def)
    moreover have "pm_conversation_id a = cm_id q" "pm_user_id a = cm_owner_id q"
      using a(2) by (simp_all add: pm_key_def)
    ultimately have "\<not> (pm_conversation_id a = conversation_id_value cid \<and>
        pm_user_id a = participant_id_value p)"
      using p owner by auto
    with a(1) have "a \<in> set (filter ?keep ?ps)" by simp
    then show ?thesis unfolding a(2) [symmetric] by (rule imageI)
  qed
  then have "owners_admitted (db\<lparr>db_participants := filter ?keep ?ps\<rparr>)"
    by (simp add: owners_admitted_def)
  with wf show ?thesis
    by (simp add: db_wf_def users_wf_def tokens_wf_def conversations_wf_def participants_wf_def
        messages_wf_def distinct_map_filter del: de_Morgan_conj)
qed

lemma hoare_delete_participant:
  "hoare (\<lambda>s. session_clean n s \<and> (\<exists>c. db_conversation (s_db s) cid = Some c \<and>
       participant_id_value p \<noteq> owner_id_value (c_owner_id c)))
     (conversation_delete_participant cid p) (\<lambda>_. session_ok n) (session_ok n)"
  unfolding conversation_delete_participant_def
  by (rule hoare_write) (auto simp: participants_delete_wf simp del: de_Morgan_conj)

lemma hoare_message_create:
  assumes "content_wf content"
  shows "hoare (session_ok n) (message_create cid sender role content at ck) (\<lambda>_. session_ok n) (session_ok n)"
proof -
  let ?new = "new_message_row cid sender role content at ck"
  have wf: "message_row_wf ?new" using assms by (rule new_message_row_wf)
  have "hoare (session_clean n) (\<lambda>s. case insert_message ?new (s_db s) of (x, db) \<Rightarrow> (x, s\<lparr>s_db := db\<rparr>))
      (\<lambda>_. session_ok n) (session_ok n)"
    by (rule hoareI) (auto simp: session_clean_def session_ok_def clean_def
        insert_message_wf(1,2) [OF _ _ wf] split: prod.splits)
  then have "hoare (session_ok n) (session_insert_message ?new) (\<lambda>_. session_ok n) (session_ok n)"
    unfolding session_insert_message_def by (rule hoare_thenp [OF hoare_flush])
  then show ?thesis
    unfolding message_create_eq by (rule hoare_bindp) (rule hoare_lift, assumption+)
qed

end
