(* ===== verification/Security.thy ===== *)
theory Security
  imports IdentityServices
begin

section \<open>The identity security adapters\<close>

text \<open>
  \<open>infrastructure/outbound/security\<close>: the argon2 password hasher and the JWT / opaque-refresh token
  service. argon2, PyJWT and SHA-256 are libraries, so their functions are parameters
  (\<open>security_backend\<close>); what a theorem needs of them is stated as a hypothesis, in the documented terms
  (\<open>jwt_documented\<close>, \<open>argon2_documented\<close>). The random values a call draws (\<open>uuid4()\<close>,
  \<open>token_urlsafe(32)\<close>) and the clock reading it takes are arguments.
\<close>

datatype claim = ClaimText string | ClaimNumber int

type_synonym jwt_payload = "(string \<times> claim) list"

record security_backend =
  jwt_encode :: "jwt_payload \<Rightarrow> string \<Rightarrow> string \<Rightarrow> string"
  jwt_decode :: "datetime \<Rightarrow> string \<Rightarrow> string \<Rightarrow> string \<Rightarrow> jwt_payload outcome"
  sha256_hex :: "string \<Rightarrow> string"
  argon2_hash :: "string \<Rightarrow> string outcome"
  argon2_verify :: "string \<Rightarrow> string \<Rightarrow> bool outcome"

subsection \<open>Argon2PasswordHasher\<close>

definition hasher_hash :: "security_backend \<Rightarrow> string \<Rightarrow> password_hash outcome" where
  "hasher_hash backend plaintext_password = bindr (argon2_hash backend plaintext_password) mk_password_hash"

text \<open>\<open>VerifyMismatchError\<close> is an \<open>Argon2Error\<close>.\<close>

definition hasher_verify :: "security_backend \<Rightarrow> string \<Rightarrow> password_hash \<Rightarrow> bool outcome" where
  "hasher_verify backend candidate password_hash =
     (case argon2_verify backend (password_hash_value password_hash) candidate of
        Inl Argon2Error \<Rightarrow> Inr False
      | r \<Rightarrow> r)"

definition argon2_password_hasher :: "security_backend \<Rightarrow> password_hasher" where
  "argon2_password_hasher backend = \<lparr>ph_hash = hasher_hash backend, ph_verify = hasher_verify backend\<rparr>"

subsection \<open>JwtTokenService\<close>

definition issue_access ::
    "security_backend \<Rightarrow> string \<Rightarrow> string \<Rightarrow> timedelta \<Rightarrow> datetime \<Rightarrow> user_id \<Rightarrow> string outcome" where
  "issue_access backend secret_key algorithm access_ttl now user_id =
     (let payload = [(''sub'', ClaimText (uuid_str (user_id_value user_id))),
                     (''iat'', ClaimNumber (int_timestamp now)),
                     (''exp'', ClaimNumber (int_timestamp (now + access_ttl)))]
      in Inr (jwt_encode backend payload secret_key algorithm))"

text \<open>\<open>UserId(UUID(payload["sub"]))\<close>; a claim that is not a text has no \<open>replace\<close> method.\<close>

definition subject_of :: "jwt_payload \<Rightarrow> access_claims outcome" where
  "subject_of payload =
     (case map_of payload ''sub'' of
        None \<Rightarrow> Inl KeyError
      | Some (ClaimNumber _) \<Rightarrow> Inl (OtherError 0)
      | Some (ClaimText sub) \<Rightarrow>
          (case uuid_parse sub of None \<Rightarrow> Inl ValueError | Some u \<Rightarrow> Inr \<lparr>ac_user_id = UserId u\<rparr>))"

definition decode_access ::
    "security_backend \<Rightarrow> string \<Rightarrow> string \<Rightarrow> datetime \<Rightarrow> string \<Rightarrow> access_claims outcome" where
  "decode_access backend secret_key algorithm now token =
     (case bindr (jwt_decode backend now token secret_key algorithm) subject_of of
        Inl e \<Rightarrow>
          (if e = PyJWTError \<or> e = KeyError \<or> is_value_error e then Inl InvalidAccessToken else Inl e)
      | Inr claims \<Rightarrow> Inr claims)"

definition hash_secret :: "security_backend \<Rightarrow> string \<Rightarrow> string" where
  "hash_secret backend secret = sha256_hex backend secret"

definition generate_refresh :: "security_backend \<Rightarrow> uuid \<Rightarrow> string \<Rightarrow> generated_refresh_token outcome" where
  "generate_refresh backend new_uuid secret =
     (let jti = uuid_hex new_uuid
      in Inr \<lparr>gr_jti = jti, gr_token = jti @ ''.'' @ secret, gr_token_hash = hash_secret backend secret\<rparr>)"

definition parse_refresh :: "string \<Rightarrow> (string \<times> string) outcome" where
  "parse_refresh token =
     (case str_partition CHR ''.'' token of (jti, separator, secret) \<Rightarrow>
        if separator = [] \<or> jti = [] \<or> secret = [] then Inl InvalidRefreshToken else Inr (jti, secret))"

definition verify_refresh :: "security_backend \<Rightarrow> string \<Rightarrow> string \<Rightarrow> bool outcome" where
  "verify_refresh backend secret token_hash = Inr (hash_secret backend secret = token_hash)"

definition jwt_token_service ::
    "security_backend \<Rightarrow> string \<Rightarrow> string \<Rightarrow> timedelta \<Rightarrow> datetime \<Rightarrow> uuid \<Rightarrow> string \<Rightarrow> token_service" where
  "jwt_token_service backend secret_key algorithm access_ttl now new_uuid secret =
     \<lparr>ts_issue_access = issue_access backend secret_key algorithm access_ttl now,
      ts_decode_access = decode_access backend secret_key algorithm now,
      ts_generate_refresh = generate_refresh backend new_uuid secret,
      ts_parse_refresh = parse_refresh,
      ts_verify_refresh = verify_refresh backend\<rparr>"

subsection \<open>What the libraries document\<close>

text \<open>PyJWT, under the key and the algorithm configured and for payloads with the three claims the program
  sets, a text as \<open>sub\<close> and whole seconds as \<open>iat\<close> and \<open>exp\<close>: a token decodes to its payload from its
  \<open>iat\<close> on, before which it raises \<open>ImmatureSignatureError\<close>, and until its \<open>exp\<close>, from which on it raises
  \<open>ExpiredSignatureError\<close>. Both are a \<open>PyJWTError\<close>. The times meant are those after 1970.\<close>

definition access_payload :: "string \<Rightarrow> int \<Rightarrow> int \<Rightarrow> jwt_payload" where
  "access_payload sub issued expiry =
     [(''sub'', ClaimText sub), (''iat'', ClaimNumber issued), (''exp'', ClaimNumber expiry)]"

definition jwt_documented :: "security_backend \<Rightarrow> string \<Rightarrow> string \<Rightarrow> bool" where
  "jwt_documented b key alg =
     (\<forall>sub issued expiry now. 0 \<le> now \<longrightarrow>
        jwt_decode b now (jwt_encode b (access_payload sub issued expiry) key alg) key alg =
          (if issued \<le> int_timestamp now \<and> int_timestamp now < expiry
           then Inr (access_payload sub issued expiry) else Inl PyJWTError))"

text \<open>argon2: a password verifies against its own hash, another one raises the mismatch error; the hash
  is not empty.\<close>

definition argon2_documented :: "security_backend \<Rightarrow> bool" where
  "argon2_documented b =
     (\<forall>password h. argon2_hash b password = Inr h \<longrightarrow> h \<noteq> [] \<and>
        (\<forall>candidate. argon2_verify b h candidate =
           (if candidate = password then Inr True else Inl Argon2Error)))"

subsection \<open>Facts\<close>

lemma token_service_simps [simp]:
  "ts_issue_access (jwt_token_service b k a ttl now i r) = issue_access b k a ttl now"
  "ts_decode_access (jwt_token_service b k a ttl now i r) = decode_access b k a now"
  "ts_generate_refresh (jwt_token_service b k a ttl now i r) = generate_refresh b i r"
  "ts_parse_refresh (jwt_token_service b k a ttl now i r) = parse_refresh"
  "ts_verify_refresh (jwt_token_service b k a ttl now i r) = verify_refresh b"
  by (simp_all add: jwt_token_service_def)

lemma hasher_simps [simp]:
  "ph_hash (argon2_password_hasher b) = hasher_hash b"
  "ph_verify (argon2_password_hasher b) = hasher_verify b"
  by (simp_all add: argon2_password_hasher_def)

lemma hasher_hash_ok:
  "argon2_documented b \<Longrightarrow> argon2_hash b p = Inr h \<Longrightarrow> hasher_hash b p = Inr (PasswordHash h) \<and> h \<noteq> []"
  by (auto simp: argon2_documented_def hasher_hash_def mk_password_hash_def bindr_def)

lemma hasher_hash_nonempty: "hasher_hash b p = Inr h \<Longrightarrow> password_hash_value h \<noteq> []"
  by (auto simp: hasher_hash_def mk_password_hash_def bindr_def split: sum.splits if_splits)

lemma hasher_verify_own:
  "argon2_documented b \<Longrightarrow> argon2_hash b p = Inr h \<Longrightarrow>
    hasher_verify b candidate (PasswordHash h) = Inr (candidate = p)"
  by (auto simp: argon2_documented_def hasher_verify_def)

lemma parse_generated:
  assumes "secret \<noteq> []"
  shows "parse_refresh (uuid_hex i @ ''.'' @ secret) = Inr (uuid_hex i, secret)"
proof -
  have "uuid_hex i \<noteq> []" by (metis length_uuid_hex list.size(3) zero_neq_numeral)
  with assms show ?thesis by (simp add: parse_refresh_def str_partition_app uuid_hex_no_dot)
qed

lemma parse_refresh_Inr:
  "parse_refresh t = Inr (j, s) \<longleftrightarrow> t = j @ ''.'' @ s \<and> CHR ''.'' \<notin> set j \<and> j \<noteq> [] \<and> s \<noteq> []"
proof
  assume parsed: "parse_refresh t = Inr (j, s)"
  obtain a m b where p: "str_partition CHR ''.'' t = (a, m, b)" by (rule prod_cases3)
  with parsed have "m \<noteq> []" "a = j" "b = s" "j \<noteq> []" "s \<noteq> []"
    by (simp_all add: parse_refresh_def split: if_splits)
  with str_partition_found [OF p] show "t = j @ ''.'' @ s \<and> CHR ''.'' \<notin> set j \<and> j \<noteq> [] \<and> s \<noteq> []"
    by simp
next
  assume "t = j @ ''.'' @ s \<and> CHR ''.'' \<notin> set j \<and> j \<noteq> [] \<and> s \<noteq> []"
  then show "parse_refresh t = Inr (j, s)"
    by (simp add: parse_refresh_def str_partition_app)
qed

lemma parse_refresh_Inl: "parse_refresh t = Inl e \<Longrightarrow> e = InvalidRefreshToken"
  by (auto simp: parse_refresh_def split: prod.splits if_splits)

lemma decode_issued:
  assumes "jwt_documented b k a" and "issue_access b k a ttl t u = Inr tok" and "0 \<le> now"
  shows "decode_access b k a now tok =
    (if int_timestamp t \<le> int_timestamp now \<and> int_timestamp now < int_timestamp (t + ttl)
     then Inr \<lparr>ac_user_id = u\<rparr> else Inl InvalidAccessToken)"
proof -
  let ?p = "access_payload (uuid_str (user_id_value u)) (int_timestamp t) (int_timestamp (t + ttl))"
  have "jwt_decode b now (jwt_encode b ?p k a) k a =
      (if int_timestamp t \<le> int_timestamp now \<and> int_timestamp now < int_timestamp (t + ttl) then Inr ?p else Inl PyJWTError)"
    using assms(1,3) unfolding jwt_documented_def by blast
  with assms(2) show ?thesis
    by (auto simp: issue_access_def decode_access_def subject_of_def bindr_def access_payload_def)
qed

end
