(* ===== verification/UseCasesKeep.thy ===== *)
theory UseCasesKeep
  imports StoreKept Security
begin

section \<open>The use cases over the SQL repositories keep the invariant\<close>

text \<open>
  The triples of the repositories, composed along each use case. \<open>keeps\<close> is the shape they all have:
  from a transaction that satisfies the invariant, the call ends, however it ends, in one that does.
\<close>

definition keeps :: "int \<Rightarrow> ('a, session) op \<Rightarrow> bool" where
  "keeps n m = hoare (session_ok n) m (\<lambda>_. session_ok n) (session_ok n)"

lemma keepsD: "keeps n m \<Longrightarrow> session_ok n s \<Longrightarrow> session_ok n (snd (m s))"
  by (cases "m s") (auto simp: keeps_def hoare_def split: prod.splits sum.splits)

lemma sql_simps [simp]:
  "ur_add sql_users = user_add" "ur_get_by_email sql_users = user_get_by_email"
  "rr_add sql_refresh_tokens = refresh_token_add" "rr_get_by_jti sql_refresh_tokens = refresh_token_get_by_jti"
  "rr_save sql_refresh_tokens = refresh_token_save"
  "cr_create sql_conversations = conversation_create" "cr_update sql_conversations = conversation_update"
  "cr_get sql_conversations = conversation_get"
  "cr_get_including_deleted sql_conversations = conversation_get_including_deleted"
  "cr_list_for_participant sql_conversations = conversation_list_for_participant"
  "cr_add_participant sql_conversations = conversation_insert_participant"
  "cr_remove_participant sql_conversations = conversation_delete_participant"
  "cr_list_participants sql_conversations = conversation_list_participants"
  "mr_create sql_messages = message_create"
  "mr_find_by_client_message_id sql_messages = message_find_by_client_message_id"
  "mr_list_history sql_messages = message_list_history" "mr_list_since sql_messages = message_list_since"
  by (simp_all add: sql_users_def sql_refresh_tokens_def sql_conversations_def sql_messages_def)

text \<open>A value computed without the session.\<close>

lemma hoare_lift_bind:
  "(\<And>x. r = Inr x \<Longrightarrow> hoare P (f x) Q E) \<Longrightarrow> (\<And>s. P s \<Longrightarrow> E s) \<Longrightarrow> hoare P (bindp (lift r) f) Q E"
  by (cases r) (auto simp: hoare_def throw_def)

lemma lift_Inr: "lift (Inr x) = ret x"
  by (rule ext) (simp add: lift_def ret_def)

lemma hoare_lift_then:
  "(r = Inr () \<Longrightarrow> hoare P k Q E) \<Longrightarrow> (\<And>s. P s \<Longrightarrow> E s) \<Longrightarrow> hoare P (thenp (lift r) k) Q E"
  unfolding thenp_def by (rule hoare_lift_bind) simp_all

lemma hoare_pre: "hoare P m Q E \<Longrightarrow> (\<And>s. P' s \<Longrightarrow> P s) \<Longrightarrow> hoare P' m Q E"
  by (auto simp: hoare_def)

lemma hoare_clean: "keeps n m \<Longrightarrow> hoare (\<lambda>s. session_clean n s \<and> R s) m (\<lambda>_. session_ok n) (session_ok n)"
  unfolding keeps_def by (erule hoare_pre) (auto dest: session_cleanD)

lemma keeps_throw: "keeps n (throw e)" and keeps_ret: "keeps n (ret x)"
  by (simp_all add: keeps_def hoare_rules)

lemma keeps_bindp: "keeps n m \<Longrightarrow> (\<And>x. keeps n (f x)) \<Longrightarrow> keeps n (bindp m f)"
  unfolding keeps_def by (rule hoare_bindp)

lemma keeps_thenp: "keeps n m \<Longrightarrow> keeps n k \<Longrightarrow> keeps n (thenp m k)"
  unfolding thenp_def by (rule keeps_bindp)

lemma keeps_lift_bind: "(\<And>x. r = Inr x \<Longrightarrow> keeps n (f x)) \<Longrightarrow> keeps n (bindp (lift r) f)"
  unfolding keeps_def by (rule hoare_lift_bind)

lemma keeps_lift_then: "keeps n k \<Longrightarrow> keeps n (thenp (lift r) k)"
  unfolding thenp_def by (rule keeps_lift_bind)

text \<open>After a query that shows the tables, the rest may use what it showed.\<close>

lemma keeps_query:
  assumes "hoare (session_ok n) m (\<lambda>x s. session_clean n s \<and> x = g (s_db s)) (session_ok n)"
    and "\<And>x. hoare (\<lambda>s. session_clean n s \<and> x = g (s_db s)) (f x) (\<lambda>_. session_ok n) (session_ok n)"
  shows "keeps n (bindp m f)"
  unfolding keeps_def using assms by (rule hoare_bindp)

lemma keeps_of_query:
  assumes "hoare (session_ok n) m (\<lambda>x s. session_clean n s \<and> x = g (s_db s)) (session_ok n)"
  shows "keeps n m"
  unfolding keeps_def using assms by (rule hoare_weaken) (auto dest: session_cleanD)

lemmas keeps_queries = keeps_of_query [OF hoare_user_get] keeps_of_query [OF hoare_token_get]
  keeps_of_query [OF hoare_conversation_get] keeps_of_query [OF hoare_message_find]
  keeps_of_query [OF hoare_list_history] keeps_of_query [OF hoare_list_since]

lemmas keeps_writes = hoare_user_add [folded keeps_def] hoare_token_add [folded keeps_def]
  hoare_conversation_create [folded keeps_def] hoare_insert_participant [folded keeps_def]
  hoare_message_create [folded keeps_def]

lemma keeps_list_for_participant: "keeps n (conversation_list_for_participant p)"
  unfolding keeps_def conversation_list_for_participant_def by (rule hoare_select_any)

lemma keeps_list_participants: "keeps n (conversation_list_participants cid)"
  unfolding keeps_def conversation_list_participants_def
  using hoare_select_any [of n _ "\<lambda>x. Inr (map (\<lambda>p. \<lparr>p_id = ParticipantId (pm_user_id p), p_joined_at = pm_joined_at p\<rparr>) x)"]
  by (simp add: lift_Inr)

subsection \<open>Identity\<close>

lemma keeps_register:
  assumes "\<And>p h. ph_hash hasher p = Inr h \<Longrightarrow> password_hash_value h \<noteq> []"
  shows "keeps n (register_user sql_users hasher now i email password)"
  unfolding register_user_def
  by (intro keeps_lift_bind keeps_bindp keeps_thenp keeps_ret)
    (auto simp: user_register_def bindr_def mk_email_wf split: sum.splits
      intro!: keeps_queries keeps_throw keeps_lift_bind keeps_thenp keeps_ret keeps_writes dest: assms)

lemma keeps_authenticate:
  "keeps n (authenticate_user sql_users sql_refresh_tokens hasher tokens now ttl email password)"
proof -
  have "keeps n (try_except (lift r) (\<lambda>e. case e of InvalidEmail _ \<Rightarrow> throw InvalidCredentials | _ \<Rightarrow> throw e))"
    for r :: "email outcome"
    by (auto simp: keeps_def hoare_def proc_simps split: sum.splits exn.splits)
  then show ?thesis
    unfolding authenticate_user_def
    by (intro keeps_bindp) (auto split: option.splits intro!: keeps_queries keeps_throw keeps_lift_bind
        keeps_thenp keeps_ret keeps_writes)
qed

lemma keeps_refresh: "keeps n (refresh_access_token sql_refresh_tokens tokens now ttl tok)"
proof -
  let ?read = "\<lambda>x s. session_clean n s \<and> db_known_user (s_db s) (rt_user_id x)"
  have known: "clean s \<Longrightarrow> db_token (s_db s) j = Some t \<Longrightarrow> db_known_user (s_db s) (rt_user_id t)" for s j t
    using rt.stored_jti [of s j t] by (simp add: clean_def)
  have found: "hoare (\<lambda>s. session_clean n s \<and> found = db_token (s_db s) j)
      (case found of None \<Rightarrow> throw InvalidRefreshToken
        | Some stored \<Rightarrow> bindp (lift (ts_verify_refresh tokens secret (rt_token_hash stored)))
            (\<lambda>verified. if \<not> verified then throw InvalidRefreshToken else ret stored))
      ?read (session_ok n)" for found :: "refresh_token option" and j secret
    by (cases found) (auto simp: session_clean_def intro!: hoare_throw hoare_ret hoare_lift_bind
        intro: known [OF _ sym] split: if_splits)
  have read: "hoare (session_ok n) (refresh_lookup sql_refresh_tokens tokens tok) ?read (session_ok n)"
    unfolding refresh_lookup_def sql_simps
    by (rule hoare_lift_bind) (auto intro!: hoare_bindp [OF hoare_token_get found])
  show ?thesis
    unfolding keeps_def refresh_access_token_def
  proof (rule hoare_bindp [OF read])
    fix t :: refresh_token
    have save: "hoare (\<lambda>s. session_clean n s \<and> db_known_user (s_db s) (rt_user_id t))
        (refresh_token_save (refresh_token_revoke t now)) (\<lambda>_. session_ok n) (session_ok n)"
      using hoare_token_save [of n "refresh_token_revoke t now"] by simp
    show "hoare (\<lambda>s. session_clean n s \<and> db_known_user (s_db s) (rt_user_id t))
        (refresh_rotate sql_refresh_tokens tokens now ttl t) (\<lambda>_. session_ok n) (session_ok n)"
      unfolding refresh_rotate_def
      by (rule hoare_lift_bind, rule hoare_lift_bind)
        (auto simp: rotate_Inr_iff intro!: hoare_thenp [OF save] hoare_thenp [OF hoare_token_add]
          hoare_lift_bind hoare_ret dest: session_cleanD)
  qed
qed

subsection \<open>Conversations and messages\<close>

lemma keeps_require:
  "keeps n m \<Longrightarrow> keeps n (require_conversation m cid)"
  unfolding require_conversation_def by (intro keeps_bindp) (auto split: option.splits intro: keeps_throw keeps_ret)

text \<open>What follows the lookup runs with the conversation it found, in a state that still shows it.\<close>

lemma keeps_found:
  assumes "hoare (session_ok n) m (\<lambda>x s. session_clean n s \<and> x = g (s_db s)) (session_ok n)"
    and "\<And>c. hoare (\<lambda>s. session_clean n s \<and> g (s_db s) = Some c) (f c) (\<lambda>_. session_ok n) (session_ok n)"
  shows "keeps n (bindp (require_conversation m cid) f)"
proof -
  have "hoare (session_ok n) (require_conversation m cid)
      (\<lambda>c s. session_clean n s \<and> g (s_db s) = Some c) (session_ok n)"
    unfolding require_conversation_def using assms(1)
    by (rule hoare_bindp) (auto split: option.splits intro!: hoare_throw hoare_ret dest: session_cleanD)
  then show ?thesis unfolding keeps_def using assms(2) by (rule hoare_bindp)
qed

lemmas keeps_visible = keeps_found [OF hoare_conversation_get]
lemmas keeps_stored = keeps_found [OF hoare_conversation_get_deleted]

lemma stored_title:
  "clean s \<Longrightarrow> db_conversation (s_db s) cid = Some c \<Longrightarrow> title_wf (c_title c)"
  using ct.stored_id [of s cid c] by (simp add: clean_def)

text \<open>A pure condition on what was read is a hypothesis of what runs next.\<close>

lemma hoare_given:
  "(\<And>s. P s \<Longrightarrow> A) \<Longrightarrow> (A \<Longrightarrow> hoare P m Q E) \<Longrightarrow> hoare P m Q E"
  by (auto simp: hoare_def)

lemma keeps_create: "keeps n (create_conversation sql_conversations now i owner title)"
  unfolding create_conversation_def Let_def
  by (intro keeps_lift_bind keeps_thenp keeps_ret)
    (auto simp: conversation_start_def mk_conversation_title_wf intro!: keeps_writes)

lemma hoare_update_clean:
  assumes "title_wf t"
  shows "hoare (\<lambda>s. session_clean n s \<and> R s) (conversation_update cid t u d) (\<lambda>_. session_ok n) (session_ok n)"
  using hoare_conversation_update [OF assms] by (rule hoare_pre) simp

lemma keeps_rename: "keeps n (rename_conversation sql_conversations now cid owner title)"
  unfolding rename_conversation_def sql_simps Let_def
  by (rule keeps_visible) (auto simp: conversation_rename_def mk_conversation_title_wf
      intro!: hoare_lift_then hoare_lift_bind hoare_thenp [OF hoare_update_clean] hoare_ret dest: session_cleanD)

lemma keeps_delete: "keeps n (delete_conversation sql_conversations now cid owner)"
  unfolding delete_conversation_def sql_simps Let_def
proof (rule keeps_visible)
  fix c
  show "hoare (\<lambda>s. session_clean n s \<and> visible (db_conversation (s_db s) cid) = Some c)
      (thenp (lift (ensure_owned_by c owner))
        (conversation_update (c_id (conversation_delete c now)) (c_title (conversation_delete c now))
          (c_updated_at (conversation_delete c now)) (c_deleted_at (conversation_delete c now))))
      (\<lambda>_. session_ok n) (session_ok n)"
    by (rule hoare_given [of _ "title_wf (c_title c)"])
      ((auto simp: session_clean_def dest!: visible_SomeD elim: stored_title)[1],
        auto simp: conversation_delete_def intro!: hoare_lift_then hoare_update_clean dest: session_cleanD)
qed

lemma keeps_restore: "keeps n (restore_conversation sql_conversations now cid owner)"
  unfolding restore_conversation_def sql_simps Let_def
proof (rule keeps_stored)
  fix c
  show "hoare (\<lambda>s. session_clean n s \<and> db_conversation (s_db s) cid = Some c)
      (thenp (lift (ensure_owned_by c owner))
        (thenp (conversation_update (c_id (conversation_restore c now)) (c_title (conversation_restore c now))
          (c_updated_at (conversation_restore c now)) (c_deleted_at (conversation_restore c now)))
          (ret (conversation_restore c now))))
      (\<lambda>_. session_ok n) (session_ok n)"
    by (rule hoare_given [of _ "title_wf (c_title c)"])
      ((auto simp: session_clean_def elim: stored_title)[1],
        auto simp: conversation_restore_def intro!: hoare_lift_then hoare_thenp [OF hoare_update_clean]
          hoare_ret dest: session_cleanD)
qed

lemma keeps_access: "keeps n (ensure_conversation_access sql_conversations cid p)"
  unfolding ensure_conversation_access_def sql_simps
  by (intro keeps_bindp keeps_require keeps_queries) (auto simp: keeps_def intro!: hoare_lift)

lemma keeps_directory: "keeps n (find_id_by_email email)"
  unfolding find_id_by_email_def
  by (auto split: sum.splits exn.splits intro!: keeps_bindp keeps_queries keeps_ret keeps_throw)

lemma keeps_add_participant:
  "keeps n (add_participant sql_conversations find_id_by_email now cid owner email)"
  unfolding add_participant_def sql_simps Let_def
  by (intro keeps_bindp keeps_require keeps_queries keeps_lift_then keeps_directory)
    (auto split: option.splits intro!: keeps_throw keeps_ret keeps_thenp keeps_writes)

lemma keeps_participants: "keeps n (list_participants sql_conversations cid p)"
  unfolding list_participants_def sql_simps
  by (intro keeps_bindp keeps_require keeps_queries keeps_lift_then keeps_list_participants)

lemma keeps_remove_participant: "keeps n (remove_participant sql_conversations cid actor p)"
  unfolding remove_participant_def sql_simps Let_def
proof (rule keeps_visible)
  fix c
  let ?P = "\<lambda>s. session_clean n s \<and> visible (db_conversation (s_db s) cid) = Some c"
  have "hoare ?P (thenp (lift (conversation_remove_participant c p)) (conversation_delete_participant cid p))
      (\<lambda>_. session_ok n) (session_ok n)"
    unfolding thenp_def
    by (rule hoare_lift_bind, rule hoare_pre [OF hoare_delete_participant])
      (auto simp: conversation_remove_participant_def dest: visible_SomeD session_cleanD split: if_splits)
  then show "hoare ?P
      (if c_owner_id c \<noteq> OwnerId (participant_id_value actor) \<and> actor \<noteq> p then throw NotConversationOwner
       else thenp (lift (conversation_remove_participant c p)) (conversation_delete_participant cid p))
      (\<lambda>_. session_ok n) (session_ok n)"
    by (auto intro!: hoare_throw dest: session_cleanD)
qed

lemma keeps_history:
  "keeps n (get_conversation_history sql_conversations sql_messages cid p before limit)"
  unfolding get_conversation_history_def sql_simps Let_def
  by (intro keeps_bindp keeps_require keeps_queries keeps_lift_then keeps_ret)

lemma keeps_post_check:
  "keeps n (post_message_check sql_conversations sql_messages cid sender key)"
  unfolding post_message_check_def sql_simps
  by (intro keeps_bindp keeps_require keeps_queries keeps_lift_then)
    (auto split: option.splits intro: keeps_ret keeps_queries)

lemma keeps_post_user:
  assumes "content_wf content"
  shows "keeps n (post_message_from_user sql_conversations sql_messages now cid sender content key)"
  unfolding post_message_from_user_def sql_simps
  by (intro keeps_bindp keeps_post_check)
    (auto split: option.splits intro!: keeps_ret keeps_bindp keeps_writes assms)

lemma keeps_post_assistant:
  "content_wf content \<Longrightarrow> keeps n (post_message_from_assistant sql_messages now cid content)"
  unfolding post_message_from_assistant_def sql_simps by (rule keeps_writes)

subsection \<open>A unit of work\<close>

lemma rollback_wf: "db_wf db \<Longrightarrow> session_ok (db_message_seq db) s \<Longrightarrow> db_wf (rollback db s)"
  unfolding rollback_def by (rule db_wf_seq) (simp_all add: session_ok_def)

theorem unit_of_work_keeps:
  assumes m: "\<And>n. keeps n m" and wf: "db_wf db"
  shows "db_wf (snd (unit_of_work m db))" and "db_message_seq db \<le> db_message_seq (snd (unit_of_work m db))"
proof -
  have s: "session_ok (db_message_seq db) (snd (m (open_session db)))"
    using m session_ok_open [OF wf] by (rule keepsD)
  obtain r s where ms: "m (open_session db) = (r, s)" by (cases "m (open_session db)")
  with s have ok: "session_ok (db_message_seq db) s" by simp
  have "db_wf (snd (unit_of_work m db)) \<and> db_message_seq db \<le> db_message_seq (snd (unit_of_work m db))"
  proof (cases r)
    case (Inl e)
    with ms show ?thesis using rollback_wf [OF wf ok] ok
      by (simp add: unit_of_work_error) (simp add: rollback_def session_ok_def)
  next
    case (Inr x)
    show ?thesis
    proof (cases "insert_all (s_new s) (s_db s)")
      case (Inr db')
      with \<open>r = Inr x\<close> ms ok show ?thesis
        by (auto simp: unit_of_work_ok session_ok_def insert_all_wf insert_all_seq)
    next
      case (Inl e)
      with \<open>r = Inr x\<close> ms have "unit_of_work m db = (Inl e, rollback db s)"
        by (simp add: unit_of_work_def session_commit_def session_flush_def proc_simps)
      then show ?thesis using rollback_wf [OF wf ok] ok by (simp add: rollback_def session_ok_def)
    qed
  qed
  then show "db_wf (snd (unit_of_work m db))" and
    "db_message_seq db \<le> db_message_seq (snd (unit_of_work m db))" by auto
qed

end
