(* ===== verification/SessionScoped.thy ===== *)
theory SessionScoped
  imports UseCasesKeep
begin

section \<open>The session-scoped adapters of the WebSocket\<close>

text \<open>
  \<open>infrastructure/outbound/persistence/session_scoped_*\<close>: the writer, the access check and the
  replayer, each opening a session of its own. The writer commits one transaction per message. The
  facts state what they do to the database and return; the replay is shown to end, so the value the
  adapter would have if it did not is never taken.
\<close>

definition sql_message_writer :: "datetime \<Rightarrow> datetime \<Rightarrow> database message_writer" where
  "sql_message_writer now later =
     \<lparr>mw_from_user = (\<lambda>conversation_id sender_id content client_message_id.
        unit_of_work (post_message_from_user sql_conversations sql_messages now conversation_id sender_id
          content client_message_id)),
      mw_from_assistant = (\<lambda>conversation_id content.
        unit_of_work (post_message_from_assistant sql_messages later conversation_id content))\<rparr>"

definition sql_conversation_access :: "database conversation_access" where
  "sql_conversation_access conversation_id participant_id =
     read_session (ensure_conversation_access sql_conversations conversation_id participant_id)"

definition sql_message_replayer :: "database message_replayer" where
  "sql_message_replayer conversation_id after db =
     (case replay_messages sql_messages conversation_id after (open_session db) of
        None \<Rightarrow> (Inl (OtherError 1), db)
      | Some (r, s) \<Rightarrow> (r, rollback db s))"

subsection \<open>Reading\<close>

lemma sql_access:
  assumes "db_wf db"
  shows "sql_conversation_access cid p db =
    (case visible (db_conversation db cid) of
       None \<Rightarrow> Inl (ConversationNotFound cid)
     | Some c \<Rightarrow> if p \<in> c_participant_ids c then Inr () else Inl NotConversationParticipant, db)"
  using ct.access_iff [of "open_session db" cid p] assms
  by (simp add: sql_conversation_access_def read_session_def)

lemma sql_replay_ends:
  assumes "db_wf db"
  shows "replay_messages sql_messages cid after (open_session db) =
    Some (Inr (filter (id_above after) (db_history db cid)), open_session db)"
  using mt.replay_loop_complete [of "open_session db" cid after "[]"] assms
  by (simp add: replay_messages_def)

lemma sql_replay:
  assumes "db_wf db"
  shows "sql_message_replayer cid after db = (Inr (filter (id_above after) (db_history db cid)), db)"
  using sql_replay_ends [OF assms] by (simp add: sql_message_replayer_def)

subsection \<open>Writing\<close>

lemma writer_simps [simp]:
  "mw_from_user (sql_message_writer now later) cid sender content key =
     unit_of_work (post_message_from_user sql_conversations sql_messages now cid sender content key)"
  "mw_from_assistant (sql_message_writer now later) cid content =
     unit_of_work (post_message_from_assistant sql_messages later cid content)"
  by (simp_all add: sql_message_writer_def)

definition member :: "database \<Rightarrow> conversation_id \<Rightarrow> uuid \<Rightarrow> bool" where
  "member db cid u =
     (case visible (db_conversation db cid) of
        None \<Rightarrow> False | Some c \<Rightarrow> ParticipantId u \<in> c_participant_ids c)"

lemma memberE:
  assumes "member db cid u"
  obtains c where "visible (db_conversation db cid) = Some c" and "ParticipantId u \<in> c_participant_ids c"
  using assms by (auto simp: member_def split: option.splits)

lemma commit_clean: "clean s \<Longrightarrow> m (open_session db) = (Inr x, s) \<Longrightarrow> unit_of_work m db = (Inr x, s_db s)"
  by (simp add: unit_of_work_ready clean_def)

lemma unit_of_work_read: "m (open_session db) = (Inr x, open_session db) \<Longrightarrow> unit_of_work m db = (Inr x, db)"
  using unit_of_work_ready [of m db x "open_session db"] by simp

lemma unit_of_work_refused:
  "m (open_session db) = (Inl e, open_session db) \<Longrightarrow> unit_of_work m db = (Inl e, db)"
  using unit_of_work_error [of m db e "open_session db"] by simp

lemma writer_new:
  assumes "db_wf db" and "member db cid (sender_id_value sender)" and "content_wf content"
    and "\<forall>k. key = Some k \<longrightarrow> find (has_client_id k) (db_history db cid) = None"
  shows "\<exists>db' m. mw_from_user (sql_message_writer now later) cid sender content key db = (Inr (m, True), db') \<and>
    db_wf db' \<and> db_history db' = (db_history db)(cid := db_history db cid @ [m]) \<and>
    m = \<lparr>m_id = m_id m, m_conversation_id = cid, m_sender_id = Some sender, m_role = USER,
         m_content = content, m_created_at = now, m_client_message_id = key\<rparr>"
proof -
  from assms(2) obtain c where c: "visible (db_conversation db cid) = Some c"
    "ParticipantId (sender_id_value sender) \<in> c_participant_ids c" by (rule memberE)
  have "clean (open_session db)" using assms(1) by simp
  from st.from_user_new [where key = key and now = now and cid = cid, OF this _ c(2) assms(3)] c(1) assms(4)
  obtain s' m where m: "post_message_from_user sql_conversations sql_messages now cid sender content key
      (open_session db) = (Inr (m, True), s')" "clean s'"
    "db_history (flushed s') = (db_history db)(cid := db_history db cid @ [m])"
    "m = \<lparr>m_id = m_id m, m_conversation_id = cid, m_sender_id = Some sender, m_role = USER,
         m_content = content, m_created_at = now, m_client_message_id = key\<rparr>"
    by auto
  have "unit_of_work (post_message_from_user sql_conversations sql_messages now cid sender content key) db =
      (Inr (m, True), s_db s')"
    by (intro commit_clean m(1,2))
  with m(2-4) show ?thesis
    by (intro exI [of _ "s_db s'"] exI [of _ m]) (simp add: clean_def)
qed

lemma writer_duplicate:
  assumes "db_wf db" and "member db cid (sender_id_value sender)"
    and "find (has_client_id k) (db_history db cid) = Some m"
  shows "mw_from_user (sql_message_writer now later) cid sender content (Some k) db = (Inr (m, False), db)"
proof -
  from assms(2) obtain c where c: "visible (db_conversation db cid) = Some c"
    "ParticipantId (sender_id_value sender) \<in> c_participant_ids c" by (rule memberE)
  have clean: "clean (open_session db)" using assms(1) by simp
  from st.from_user_duplicate [OF clean _ c(2)] c(1) assms(3)
  have "post_message_from_user sql_conversations sql_messages now cid sender content (Some k)
      (open_session db) = (Inr (m, False), open_session db)"
    by simp
  then show ?thesis unfolding writer_simps by (rule unit_of_work_read)
qed

lemma writer_refused:
  assumes "db_wf db" and "\<not> member db cid (sender_id_value sender)"
  shows "mw_from_user (sql_message_writer now later) cid sender content key db =
    (Inl (if visible (db_conversation db cid) = None then ConversationNotFound cid
          else NotConversationParticipant), db)"
proof -
  have clean: "clean (open_session db)" using assms(1) by simp
  have "post_message_from_user sql_conversations sql_messages now cid sender content key (open_session db) =
      (Inl (if visible (db_conversation db cid) = None then ConversationNotFound cid
            else NotConversationParticipant), open_session db)"
  proof (cases "visible (db_conversation db cid)")
    case None
    with st.from_user_missing [OF clean] show ?thesis by simp
  next
    case (Some c)
    with assms(2) st.from_user_outsider [OF clean] show ?thesis
      by (simp add: member_def)
  qed
  then show ?thesis unfolding writer_simps by (rule unit_of_work_refused)
qed

text \<open>The assistant's message goes in whenever the conversation's row exists, deleted or not.\<close>

lemma writer_assistant:
  assumes "db_wf db" and "db_known_conversation db cid" and "content_wf content"
  shows "\<exists>db' m. mw_from_assistant (sql_message_writer now later) cid content db = (Inr m, db') \<and>
    db_wf db' \<and> db_history db' = (db_history db)(cid := db_history db cid @ [m]) \<and>
    m = \<lparr>m_id = m_id m, m_conversation_id = cid, m_sender_id = None, m_role = ASSISTANT,
         m_content = content, m_created_at = later, m_client_message_id = None\<rparr>"
proof -
  have clean: "clean (open_session db)" using assms(1) by simp
  from mt.create_law [OF clean _ assms(3), of cid None None ASSISTANT later] assms(2)
  obtain s' i where m: "message_create cid None ASSISTANT content later None (open_session db) =
      (Inr \<lparr>m_id = i, m_conversation_id = cid, m_sender_id = None, m_role = ASSISTANT,
        m_content = content, m_created_at = later, m_client_message_id = None\<rparr>, s')" "clean s'"
    "db_history (flushed s') = (db_history db)(cid := db_history db cid @
      [\<lparr>m_id = i, m_conversation_id = cid, m_sender_id = None, m_role = ASSISTANT,
        m_content = content, m_created_at = later, m_client_message_id = None\<rparr>])"
    by auto
  then have "unit_of_work (post_message_from_assistant sql_messages later cid content) db =
      (Inr \<lparr>m_id = i, m_conversation_id = cid, m_sender_id = None, m_role = ASSISTANT,
        m_content = content, m_created_at = later, m_client_message_id = None\<rparr>, s_db s')"
    by (intro commit_clean) (simp_all add: post_message_from_assistant_def)
  with m(2,3) show ?thesis by (auto simp: clean_def)
qed

text \<open>Whatever its outcome, a write touches the messages alone.\<close>

definition only_messages :: "database \<Rightarrow> database \<Rightarrow> bool" where
  "only_messages db db' = (db_users db' = db_users db \<and> db_refresh_tokens db' = db_refresh_tokens db \<and>
     db_conversations db' = db_conversations db \<and> db_participants db' = db_participants db)"

lemma only_messages_views:
  assumes "only_messages db db'"
  shows "db_conversation db' = db_conversation db" and "member db' cid u = member db cid u"
    and "db_known_conversation db' cid = db_known_conversation db cid"
  using assms by (simp_all add: only_messages_def db_conversation_def participants_of_def fun_eq_iff
      member_def db_known_conversation_def)

lemma only_messages_refl [simp]: "only_messages db db"
  by (simp add: only_messages_def)

lemma only_messages_trans: "only_messages a b \<Longrightarrow> only_messages b c \<Longrightarrow> only_messages a c"
  by (simp add: only_messages_def)

lemma message_create_frame:
  assumes "s_new s = []" and "message_create cid sender role content at ck s = (r, s')"
  shows "s_new s' = [] \<and> only_messages (s_db s) (s_db s')"
  using assms by (auto simp: message_create_def session_insert_message_def insert_message_def Let_def
      only_messages_def proc_simps split: sum.splits prod.splits if_splits)

lemma unit_of_work_frame:
  assumes "m (open_session db) = (r, s)" and "s_new s = [] \<and> only_messages db (s_db s)"
  shows "only_messages db (snd (unit_of_work m db))"
proof (cases r)
  case (Inl e)
  with assms(1) unit_of_work_error [of m db e s] show ?thesis by (simp add: rollback_def only_messages_def)
next
  case (Inr x)
  with assms unit_of_work_ready [of m db x s] show ?thesis by simp
qed

lemma post_leaves:
  assumes "db_wf db"
    and "post_message_from_user sql_conversations sql_messages now cid sender content key (open_session db) = (r, s)"
  shows "s = open_session db \<or>
    (\<exists>r'. message_create cid (Some sender) USER content now key (open_session db) = (r', s))"
proof -
  obtain x where x: "post_message_check sql_conversations sql_messages cid sender key (open_session db) =
      (x, open_session db)"
    using st.check_result [of "open_session db" cid sender key] assms(1) by auto
  show ?thesis
  proof (cases "x = Inr None")
    case True
    obtain r' s' where "message_create cid (Some sender) USER content now key (open_session db) = (r', s')"
      by (cases "message_create cid (Some sender) USER content now key (open_session db)")
    with True assms(2) x show ?thesis
      by (auto simp: post_message_from_user_def bindp_def ret_def split: sum.splits)
  next
    case False
    with assms(2) x show ?thesis
      by (auto simp: post_message_from_user_def bindp_def ret_def split: sum.splits option.splits)
  qed
qed

lemma writer_frame:
  assumes "db_wf db"
  shows "only_messages db (snd (mw_from_user (sql_message_writer now later) cid sender content key db))"
proof -
  let ?m = "post_message_from_user sql_conversations sql_messages now cid sender content key"
  obtain r s where m: "?m (open_session db) = (r, s)" by (cases "?m (open_session db)")
  have "s_new s = [] \<and> only_messages db (s_db s)"
    using post_leaves [OF assms m] by (auto dest: message_create_frame [rotated])
  with unit_of_work_frame [where m = ?m, OF m] show ?thesis by simp
qed

lemma writer_assistant_frame:
  "only_messages db (snd (mw_from_assistant (sql_message_writer now later) cid content db))"
proof -
  obtain r s where m: "message_create cid None ASSISTANT content later None (open_session db) = (r, s)"
    by (cases "message_create cid None ASSISTANT content later None (open_session db)")
  from message_create_frame [OF _ m] have "s_new s = [] \<and> only_messages db (s_db s)" by simp
  with m show ?thesis
    using unit_of_work_frame [of "post_message_from_assistant sql_messages later cid content" db r s]
    by (simp add: post_message_from_assistant_def)
qed

end
