(* ===== verification/Routing.thy ===== *)
theory Routing
  imports Database
begin

section \<open>Routes and the request's transaction\<close>

text \<open>
  \<open>shared/infrastructure/inbound/api\<close>: the request-scoped session (\<open>get_session\<close>), the route class
  that commits it before responding (\<open>TransactionalRoute\<close>), and the check the composition root makes of
  all routers. A route's dependency tree is what the framework resolves; a route is known to the check
  by its class and that tree. The routes of the two routers are written out with their trees.
\<close>

subsection \<open>The transaction of a request\<close>

text \<open>
  \<open>get_session\<close> opens a session around the handler and never commits: without a commit the block ends
  in a rollback, as it does when the handler raises.
\<close>

definition plain_route :: "('a, session) op \<Rightarrow> ('a, database) op" where
  "plain_route handler db = (case handler (open_session db) of (r, s) \<Rightarrow> (r, rollback db s))"

text \<open>\<open>commit_before_responding\<close>: the handler, then the commit when a session was opened.\<close>

definition transactional_route :: "bool \<Rightarrow> ('a, session) op \<Rightarrow> ('a, database) op" where
  "transactional_route db_session handler db =
     (case handler (open_session db) of
        (Inl e, s) \<Rightarrow> (Inl e, rollback db s)
      | (Inr response, s) \<Rightarrow>
          (if db_session
           then (case session_commit s of
                   (Inl e, s') \<Rightarrow> (Inl e, rollback db s')
                 | (Inr _, s') \<Rightarrow> (Inr response, s_db s'))
           else (Inr response, rollback db s)))"

lemma transactional_route_session: "transactional_route True m = unit_of_work m"
  by (rule ext) (auto simp: transactional_route_def unit_of_work_def proc_simps
      split: prod.splits sum.splits)

lemma plain_route_tables: "snd (plain_route m db) = db\<lparr>db_message_seq := db_message_seq (snd (plain_route m db))\<rparr>"
  by (simp add: plain_route_def rollback_def split: prod.splits)

lemma transactional_route_Inl:
  "transactional_route b m db = (Inl e, db') \<Longrightarrow> \<exists>n. db' = db\<lparr>db_message_seq := n\<rparr>"
  by (auto simp: transactional_route_def rollback_def split: prod.splits sum.splits if_splits)

subsection \<open>The composition root's check\<close>

datatype dependant = Dependant (call_is_get_session: bool) (dependencies: "dependant list")

datatype route =
    ApiRoute (route_methods: "string list") (route_path: string) (is_transactional: bool)
      (route_dependant: dependant)
  | IncludedRouter "route list"
  | OtherRoute string

fun depends_on_session :: "dependant \<Rightarrow> bool" where
  "depends_on_session (Dependant is_get_session subs) =
     (is_get_session \<or> (\<exists>sub \<in> set subs. depends_on_session sub))"

text \<open>\<open>_api_routes\<close>: every API route, following any nesting.\<close>

fun api_routes :: "route list \<Rightarrow> route list" where
  "api_routes [] = []"
| "api_routes (ApiRoute methods path transactional dependant # rest) =
     ApiRoute methods path transactional dependant # api_routes rest"
| "api_routes (IncludedRouter nested # rest) = api_routes nested @ api_routes rest"
| "api_routes (OtherRoute _ # rest) = api_routes rest"

definition offenders :: "route list list \<Rightarrow> route list" where
  "offenders routers =
     filter (\<lambda>route. \<not> is_transactional route \<and> depends_on_session (route_dependant route))
       (concat (map api_routes routers))"

definition assert_session_routes_are_transactional :: "route list list \<Rightarrow> unit outcome" where
  "assert_session_routes_are_transactional routers =
     (if offenders routers \<noteq> [] then Inl RuntimeError else Inr ())"

text \<open>A route is reachable from a list of routes when it is in it or in a router nested in it.\<close>

inductive reachable_route :: "route list \<Rightarrow> route \<Rightarrow> bool" where
  here: "ApiRoute ms p t d \<in> set rs \<Longrightarrow> reachable_route rs (ApiRoute ms p t d)"
| nested: "IncludedRouter ns \<in> set rs \<Longrightarrow> reachable_route ns r \<Longrightarrow> reachable_route rs r"

inductive_cases reachable_routeE: "reachable_route rs r"

lemma reachable_Cons: "reachable_route rs r \<Longrightarrow> reachable_route (x # rs) r"
  by (erule reachable_routeE) (auto intro: reachable_route.intros)

lemma api_routes_sound: "r \<in> set (api_routes rs) \<Longrightarrow> reachable_route rs r"
proof (induction rs rule: api_routes.induct)
  case (2 ms p t d rest)
  then have "r = ApiRoute ms p t d \<or> reachable_route rest r" by auto
  then show ?case
  proof
    assume "r = ApiRoute ms p t d"
    then show ?thesis by (simp add: reachable_route.here)
  qed (rule reachable_Cons)
next
  case (3 ns rest)
  then have "reachable_route ns r \<or> reachable_route rest r" by auto
  then show ?case
  proof
    assume "reachable_route ns r"
    then show ?thesis by (rule reachable_route.nested [rotated]) simp
  qed (rule reachable_Cons)
qed (simp_all add: reachable_Cons)

lemma api_routes_complete: "reachable_route rs r \<Longrightarrow> r \<in> set (api_routes rs)"
proof (induction rule: reachable_route.induct)
  case (here ms p t d rs)
  then show ?case by (induction rs rule: api_routes.induct) auto
next
  case (nested ns rs r)
  from nested(1) have "set (api_routes ns) \<subseteq> set (api_routes rs)"
    by (induction rs rule: api_routes.induct) auto
  with nested(3) show ?case by blast
qed

lemma api_routes_member: "r \<in> set (api_routes rs) \<longleftrightarrow> reachable_route rs r"
  using api_routes_sound api_routes_complete by blast

subsection \<open>The routes of the two routers\<close>

definition session_dep :: dependant where
  "session_dep = Dependant True []"

definition plain_dep :: dependant where
  "plain_dep = Dependant False []"

text \<open>\<open>get_current_user(credentials, tokens)\<close>, where \<open>tokens\<close> needs the settings.\<close>

definition token_service_dep :: dependant where
  "token_service_dep = Dependant False [plain_dep]"

definition current_user_dep :: dependant where
  "current_user_dep = Dependant False [plain_dep, token_service_dep]"

text \<open>\<open>provide_register_user\<close>, \<open>provide_authenticate_user\<close>, \<open>provide_refresh_access_token\<close>\<close>

definition provide_register_user :: dependant where
  "provide_register_user = Dependant False [session_dep, plain_dep, plain_dep]"

definition provide_authenticate_user :: dependant where
  "provide_authenticate_user =
     Dependant False [session_dep, plain_dep, token_service_dep, plain_dep, plain_dep]"

definition provide_refresh_access_token :: dependant where
  "provide_refresh_access_token =
     Dependant False [session_dep, token_service_dep, plain_dep, plain_dep]"

definition identity_router :: "route list" where
  "identity_router =
     [ApiRoute [''POST''] ''/auth/signup'' True (Dependant False [provide_register_user]),
      ApiRoute [''POST''] ''/auth/login'' True (Dependant False [provide_authenticate_user]),
      ApiRoute [''POST''] ''/auth/refresh'' True (Dependant False [provide_refresh_access_token]),
      ApiRoute [''GET''] ''/auth/me'' True (Dependant False [current_user_dep])]"

text \<open>The messaging providers take a session and a clock, or a session alone.\<close>

definition session_and_clock :: dependant where
  "session_and_clock = Dependant False [session_dep, plain_dep]"

definition session_only :: dependant where
  "session_only = Dependant False [session_dep]"

definition conversations_router :: "route list" where
  "conversations_router =
     (let with = (\<lambda>provider. Dependant False [current_user_dep, provider]);
          one = ''/conversations/{conversation_id}''
      in [ApiRoute [''POST''] ''/conversations'' True (with session_and_clock),
          ApiRoute [''GET''] ''/conversations'' True (with session_only),
          ApiRoute [''PATCH''] one True (with session_and_clock),
          ApiRoute [''DELETE''] one True (with session_and_clock),
          ApiRoute [''POST''] (one @ ''/restore'') True (with session_and_clock),
          ApiRoute [''GET''] (one @ ''/messages'') True (with session_only),
          ApiRoute [''POST''] (one @ ''/participants'') True (with session_and_clock),
          ApiRoute [''GET''] (one @ ''/participants'') True (with session_only),
          ApiRoute [''DELETE''] (one @ ''/participants/{user_id}'') True (with session_only)])"

definition health_router :: "route list" where
  "health_router = [ApiRoute [''GET''] ''/health'' False (Dependant False [])]"

definition ws_router :: "route list" where
  "ws_router = [OtherRoute ''/ws/conversations/{conversation_id}'']"

end
