(* ===== verification/Settings.thy ===== *)
theory Settings
  imports Errors
begin

section \<open>Settings\<close>

text \<open>
  \<open>config.py\<close> and \<open>main.py\<close>: the fields of \<open>Settings\<close> with their defaults and the bound on the signing
  key, the cached \<open>get_settings\<close>, and what the process entry hands to the server. Finding a variable in
  the environment or the \<open>.env\<close> file and reading its text as a value of the field's type is
  pydantic-settings; a variable is absent, unreadable, or gives a value. A \<open>float\<close> of seconds is a
  \<open>timedelta\<close>.
\<close>

record settings =
  set_environment :: string
  set_log_level :: string
  set_host :: string
  set_port :: int
  set_database_url :: string
  set_redis_url :: string
  set_jwt_secret_key :: string
  set_jwt_algorithm :: string
  set_access_token_ttl_seconds :: int
  set_refresh_token_ttl_seconds :: int
  set_ws_auth_timeout_seconds :: timedelta
  set_ws_rate_limit_messages :: int
  set_ws_rate_limit_window_seconds :: int
  set_shutdown_drain_timeout_seconds :: timedelta
  set_cors_allow_origins :: "string list"

datatype 'a variable = Absent | Unreadable | Given 'a

record environment =
  var_environment :: "string variable"
  var_log_level :: "string variable"
  var_host :: "string variable"
  var_port :: "int variable"
  var_database_url :: "string variable"
  var_redis_url :: "string variable"
  var_jwt_secret_key :: "string variable"
  var_jwt_algorithm :: "string variable"
  var_access_token_ttl_seconds :: "int variable"
  var_refresh_token_ttl_seconds :: "int variable"
  var_ws_auth_timeout_seconds :: "timedelta variable"
  var_ws_rate_limit_messages :: "int variable"
  var_ws_rate_limit_window_seconds :: "int variable"
  var_shutdown_drain_timeout_seconds :: "timedelta variable"
  var_cors_allow_origins :: "string list variable"

text \<open>A field with a default, and one without.\<close>

fun defaulting :: "'a \<Rightarrow> 'a variable \<Rightarrow> 'a outcome" where
  "defaulting d Absent = Inr d"
| "defaulting d Unreadable = Inl ValidationError"
| "defaulting d (Given x) = Inr x"

fun required :: "'a variable \<Rightarrow> 'a outcome" where
  "required Absent = Inl ValidationError"
| "required Unreadable = Inl ValidationError"
| "required (Given x) = Inr x"

definition long_enough :: "string \<Rightarrow> string outcome" where
  "long_enough key = (if length key < 32 then Inl ValidationError else Inr key)"

definition read_settings :: "environment \<Rightarrow> settings outcome" where
  "read_settings env =
     bindr (defaulting ''development'' (var_environment env)) (\<lambda>environment.
     bindr (defaulting ''INFO'' (var_log_level env)) (\<lambda>log_level.
     bindr (defaulting ''0.0.0.0'' (var_host env)) (\<lambda>host.
     bindr (defaulting 8000 (var_port env)) (\<lambda>port.
     bindr (required (var_database_url env)) (\<lambda>database_url.
     bindr (required (var_redis_url env)) (\<lambda>redis_url.
     bindr (bindr (required (var_jwt_secret_key env)) long_enough) (\<lambda>jwt_secret_key.
     bindr (defaulting ''HS256'' (var_jwt_algorithm env)) (\<lambda>jwt_algorithm.
     bindr (defaulting 900 (var_access_token_ttl_seconds env)) (\<lambda>access_ttl.
     bindr (defaulting 1209600 (var_refresh_token_ttl_seconds env)) (\<lambda>refresh_ttl.
     bindr (defaulting 5000000 (var_ws_auth_timeout_seconds env)) (\<lambda>auth_timeout.
     bindr (defaulting 20 (var_ws_rate_limit_messages env)) (\<lambda>limit.
     bindr (defaulting 10 (var_ws_rate_limit_window_seconds env)) (\<lambda>window.
     bindr (defaulting 10000000 (var_shutdown_drain_timeout_seconds env)) (\<lambda>drain_timeout.
     bindr (defaulting [] (var_cors_allow_origins env)) (\<lambda>origins.
       Inr \<lparr>set_environment = environment, set_log_level = log_level, set_host = host, set_port = port,
            set_database_url = database_url, set_redis_url = redis_url, set_jwt_secret_key = jwt_secret_key,
            set_jwt_algorithm = jwt_algorithm, set_access_token_ttl_seconds = access_ttl,
            set_refresh_token_ttl_seconds = refresh_ttl, set_ws_auth_timeout_seconds = auth_timeout,
            set_ws_rate_limit_messages = limit, set_ws_rate_limit_window_seconds = window,
            set_shutdown_drain_timeout_seconds = drain_timeout, set_cors_allow_origins = origins\<rparr>)))))))))))))))"

text \<open>\<open>@lru_cache\<close>: the first instance is kept, an exception is not.\<close>

definition get_settings :: "environment \<Rightarrow> (settings, settings option) op" where
  "get_settings env cache =
     (case cache of
        Some st \<Rightarrow> (Inr st, cache)
      | None \<Rightarrow> (case read_settings env of Inl e \<Rightarrow> (Inl e, None) | Inr st \<Rightarrow> (Inr st, Some st)))"

lemma read_settings_key: "read_settings env = Inr st \<Longrightarrow> 32 \<le> length (set_jwt_secret_key st)"
  by (auto simp: read_settings_def bindr_def long_enough_def split: sum.splits if_splits)

lemma get_settings_once:
  "get_settings env cache = (Inr st, cache') \<Longrightarrow> get_settings env' cache' = (Inr st, cache')"
  by (auto simp: get_settings_def split: option.splits sum.splits)

subsection \<open>The console entry\<close>

record uvicorn_run =
  uv_app :: string
  uv_host :: string
  uv_port :: int
  uv_log_config :: "string option"

definition main_run :: "environment \<Rightarrow> (uvicorn_run, settings option) op" where
  "main_run env =
     bindp (get_settings env) (\<lambda>settings.
       ret \<lparr>uv_app = ''dizzchat.app:app'', uv_host = set_host settings, uv_port = set_port settings,
            uv_log_config = None\<rparr>)"

end
