(* ===== verification/HttpApi.thy ===== *)
theory HttpApi
  imports Routing UseCasesKeep Settings
begin

section \<open>The HTTP API\<close>

text \<open>
  Request and response schemas, controllers, the current-user dependency and the error
  handlers of both contexts, composed the way the framework runs them: the dependencies are resolved
  (a refused bearer token ends the request with 401), then the request is validated against its
  schema (422), then the controller runs inside the route's transaction, and an exception becomes the
  response its handler gives it. Path and query parameters arrive already typed; how they and the bodies
  stand on the wire is HttpWire. The framework and pydantic are not under \<open>src/\<close>.
\<close>

subsection \<open>What a request sees of the process\<close>

text \<open>\<open>allow_credentials = "*" not in settings.cors_allow_origins\<close>\<close>

definition cors_allow_credentials :: "settings \<Rightarrow> bool" where
  "cors_allow_credentials st = (''*'' \<notin> set (set_cors_allow_origins st))"

text \<open>Settings, libraries, clock, and the values a request draws.\<close>

record api_env =
  ae_settings :: settings
  ae_backend :: security_backend
  ae_now :: datetime
  ae_uuid :: uuid
  ae_secret :: string

definition get_password_hasher :: "api_env \<Rightarrow> password_hasher" where
  "get_password_hasher env = argon2_password_hasher (ae_backend env)"

definition get_token_service :: "api_env \<Rightarrow> token_service" where
  "get_token_service env =
     jwt_token_service (ae_backend env) (set_jwt_secret_key (ae_settings env))
       (set_jwt_algorithm (ae_settings env))
       (timedelta_seconds (set_access_token_ttl_seconds (ae_settings env)))
       (ae_now env) (ae_uuid env) (ae_secret env)"

definition refresh_ttl :: "api_env \<Rightarrow> timedelta" where
  "refresh_ttl env = timedelta_seconds (set_refresh_token_ttl_seconds (ae_settings env))"

subsection \<open>Requests and responses\<close>

datatype api_request =
    Health
  | Signup string string
  | Login string string
  | Refresh string
  | Me
  | CreateConversation string
  | ListConversations
  | RenameConversation uuid string
  | DeleteConversation uuid
  | RestoreConversation uuid
  | GetHistory uuid "int option" int
  | AddParticipant uuid string
  | ListParticipants uuid
  | RemoveParticipant uuid uuid

text \<open>The \<open>Field\<close> and \<open>Query\<close> bounds of the schemas.\<close>

definition text_field :: "nat \<Rightarrow> nat \<Rightarrow> string \<Rightarrow> bool" where
  "text_field min_length max_length v = (min_length \<le> length v \<and> length v \<le> max_length)"

fun request_valid :: "api_request \<Rightarrow> bool" where
  "request_valid (Signup email password) = (text_field 1 320 email \<and> text_field 1 1024 password)"
| "request_valid (Login email password) = (text_field 1 320 email \<and> text_field 1 1024 password)"
| "request_valid (Refresh refresh_token) = (1 \<le> length refresh_token)"
| "request_valid (CreateConversation title) = text_field 1 200 title"
| "request_valid (RenameConversation _ title) = text_field 1 200 title"
| "request_valid (GetHistory _ before limit) =
     ((case before of None \<Rightarrow> True | Some b \<Rightarrow> 1 \<le> b) \<and> 1 \<le> limit \<and> limit \<le> 100)"
| "request_valid (AddParticipant _ email) = text_field 3 320 email"
| "request_valid _ = True"

record conversation_response =
  cv_id :: uuid
  cv_owner_id :: uuid
  cv_title :: string
  cv_created_at :: datetime
  cv_updated_at :: datetime

definition conversation_from_domain :: "conversation \<Rightarrow> conversation_response" where
  "conversation_from_domain conversation =
     \<lparr>cv_id = conversation_id_value (c_id conversation), cv_owner_id = owner_id_value (c_owner_id conversation),
      cv_title = conversation_title_value (c_title conversation),
      cv_created_at = c_created_at conversation, cv_updated_at = c_updated_at conversation\<rparr>"

record message_response =
  mv_id :: int
  mv_conversation_id :: uuid
  mv_sender_id :: "uuid option"
  mv_role :: string
  mv_content :: string
  mv_created_at :: datetime

definition message_from_domain :: "message \<Rightarrow> message_response" where
  "message_from_domain message =
     \<lparr>mv_id = message_id_value (m_id message),
      mv_conversation_id = conversation_id_value (m_conversation_id message),
      mv_sender_id = map_option sender_id_value (m_sender_id message),
      mv_role = message_role_value (m_role message), mv_content = message_content_value (m_content message),
      mv_created_at = m_created_at message\<rparr>"

datatype response_body =
    NoContent
  | Healthy string
  | UserResponse uuid string datetime
  | TokenResponse string string string
  | CurrentUserResponse uuid
  | ConversationResponse conversation_response
  | ConversationsResponse "conversation_response list"
  | MessagePageResponse "message_response list" "int option" bool
  | ParticipantsResponse "(uuid \<times> datetime) list"
  | Detail string

definition page_from_domain :: "message_page \<Rightarrow> response_body" where
  "page_from_domain page =
     MessagePageResponse (map message_from_domain (mp_items page))
       (map_option message_id_value (mp_next_cursor page)) (mp_has_more page)"

record response =
  rs_status :: nat
  rs_www_authenticate :: bool
  rs_body :: response_body

subsection \<open>The current user\<close>

definition get_current_user :: "api_env \<Rightarrow> string option \<Rightarrow> user_id outcome" where
  "get_current_user env credentials =
     (case credentials of
        None \<Rightarrow> Inl (HTTPException 401 ''missing bearer token'')
      | Some token \<Rightarrow>
          (case ts_decode_access (get_token_service env) token of
             Inl InvalidAccessToken \<Rightarrow> Inl (HTTPException 401 ''invalid or expired access token'')
           | Inl e \<Rightarrow> Inl e
           | Inr claims \<Rightarrow> Inr (ac_user_id claims)))"

subsection \<open>Identity controllers\<close>

definition signup :: "api_env \<Rightarrow> string \<Rightarrow> string \<Rightarrow> (response_body, session) op" where
  "signup env email password =
     bindp (register_user sql_users (get_password_hasher env) (ae_now env) (ae_uuid env) email password)
       (\<lambda>user. ret (UserResponse (user_id_value (u_id user)) (email_value (u_email user)) (u_created_at user)))"

definition token_response :: "token_pair \<Rightarrow> response_body" where
  "token_response pair = TokenResponse (tp_access_token pair) (tp_refresh_token pair) ''bearer''"

definition login :: "api_env \<Rightarrow> string \<Rightarrow> string \<Rightarrow> (response_body, session) op" where
  "login env email password =
     bindp (authenticate_user sql_users sql_refresh_tokens (get_password_hasher env) (get_token_service env)
              (ae_now env) (refresh_ttl env) email password) (\<lambda>pair. ret (token_response pair))"

definition refresh :: "api_env \<Rightarrow> string \<Rightarrow> (response_body, session) op" where
  "refresh env refresh_token =
     bindp (refresh_access_token sql_refresh_tokens (get_token_service env) (ae_now env) (refresh_ttl env)
              refresh_token) (\<lambda>pair. ret (token_response pair))"

definition current_user :: "user_id \<Rightarrow> (response_body, session) op" where
  "current_user caller = ret (CurrentUserResponse (user_id_value caller))"

subsection \<open>Messaging controllers\<close>

definition api_create_conversation :: "api_env \<Rightarrow> user_id \<Rightarrow> string \<Rightarrow> (response_body, session) op" where
  "api_create_conversation env caller title =
     bindp (create_conversation sql_conversations (ae_now env) (ae_uuid env) (OwnerId (user_id_value caller)) title)
       (\<lambda>c. ret (ConversationResponse (conversation_from_domain c)))"

definition api_list_conversations :: "user_id \<Rightarrow> (response_body, session) op" where
  "api_list_conversations caller =
     bindp (list_conversations sql_conversations (ParticipantId (user_id_value caller)))
       (\<lambda>cs. ret (ConversationsResponse (map conversation_from_domain cs)))"

definition api_rename_conversation :: "api_env \<Rightarrow> user_id \<Rightarrow> uuid \<Rightarrow> string \<Rightarrow> (response_body, session) op" where
  "api_rename_conversation env caller conversation_id title =
     bindp (rename_conversation sql_conversations (ae_now env) (ConversationId conversation_id)
              (OwnerId (user_id_value caller)) title)
       (\<lambda>c. ret (ConversationResponse (conversation_from_domain c)))"

definition api_delete_conversation :: "api_env \<Rightarrow> user_id \<Rightarrow> uuid \<Rightarrow> (response_body, session) op" where
  "api_delete_conversation env caller conversation_id =
     thenp (delete_conversation sql_conversations (ae_now env) (ConversationId conversation_id)
              (OwnerId (user_id_value caller))) (ret NoContent)"

definition api_restore_conversation :: "api_env \<Rightarrow> user_id \<Rightarrow> uuid \<Rightarrow> (response_body, session) op" where
  "api_restore_conversation env caller conversation_id =
     bindp (restore_conversation sql_conversations (ae_now env) (ConversationId conversation_id)
              (OwnerId (user_id_value caller)))
       (\<lambda>c. ret (ConversationResponse (conversation_from_domain c)))"

definition api_get_history :: "user_id \<Rightarrow> uuid \<Rightarrow> int option \<Rightarrow> int \<Rightarrow> (response_body, session) op" where
  "api_get_history caller conversation_id before limit =
     bindp (get_conversation_history sql_conversations sql_messages (ConversationId conversation_id)
              (ParticipantId (user_id_value caller)) (map_option MessageId before) (nat limit))
       (\<lambda>page. ret (page_from_domain page))"

definition api_add_participant :: "api_env \<Rightarrow> user_id \<Rightarrow> uuid \<Rightarrow> string \<Rightarrow> (response_body, session) op" where
  "api_add_participant env caller conversation_id email =
     thenp (add_participant sql_conversations find_id_by_email (ae_now env) (ConversationId conversation_id)
              (OwnerId (user_id_value caller)) email) (ret NoContent)"

definition api_list_participants :: "user_id \<Rightarrow> uuid \<Rightarrow> (response_body, session) op" where
  "api_list_participants caller conversation_id =
     bindp (list_participants sql_conversations (ConversationId conversation_id)
              (ParticipantId (user_id_value caller)))
       (\<lambda>ps. ret (ParticipantsResponse (map (\<lambda>p. (participant_id_value (p_id p), p_joined_at p)) ps)))"

definition api_remove_participant :: "user_id \<Rightarrow> uuid \<Rightarrow> uuid \<Rightarrow> (response_body, session) op" where
  "api_remove_participant caller conversation_id user_id =
     thenp (remove_participant sql_conversations (ConversationId conversation_id)
              (ParticipantId (user_id_value caller)) (ParticipantId user_id)) (ret NoContent)"

subsection \<open>Dispatch\<close>

text \<open>The status a route answers with when its controller returns.\<close>

fun success_status :: "api_request \<Rightarrow> nat" where
  "success_status (Signup _ _) = 201"
| "success_status (CreateConversation _) = 201"
| "success_status (DeleteConversation _) = 204"
| "success_status (AddParticipant _ _) = 204"
| "success_status (RemoveParticipant _ _) = 204"
| "success_status _ = 200"

fun public_controller :: "api_env \<Rightarrow> api_request \<Rightarrow> (response_body, session) op option" where
  "public_controller env Health = Some (ret (Healthy ''ok''))"
| "public_controller env (Signup email password) = Some (signup env email password)"
| "public_controller env (Login email password) = Some (login env email password)"
| "public_controller env (Refresh refresh_token) = Some (refresh env refresh_token)"
| "public_controller env _ = None"

fun caller_controller :: "api_env \<Rightarrow> user_id \<Rightarrow> api_request \<Rightarrow> (response_body, session) op" where
  "caller_controller env caller (CreateConversation title) = api_create_conversation env caller title"
| "caller_controller env caller ListConversations = api_list_conversations caller"
| "caller_controller env caller (RenameConversation cid title) = api_rename_conversation env caller cid title"
| "caller_controller env caller (DeleteConversation cid) = api_delete_conversation env caller cid"
| "caller_controller env caller (RestoreConversation cid) = api_restore_conversation env caller cid"
| "caller_controller env caller (GetHistory cid before limit) = api_get_history caller cid before limit"
| "caller_controller env caller (AddParticipant cid email) = api_add_participant env caller cid email"
| "caller_controller env caller (ListParticipants cid) = api_list_participants caller cid"
| "caller_controller env caller (RemoveParticipant cid user_id) = api_remove_participant caller cid user_id"
| "caller_controller env caller _ = current_user caller"

definition handler :: "api_env \<Rightarrow> string option \<Rightarrow> api_request \<Rightarrow> (response_body, session) op" where
  "handler env credentials req =
     (case public_controller env req of
        Some controller \<Rightarrow> if \<not> request_valid req then throw ValidationError else controller
      | None \<Rightarrow>
          bindp (lift (get_current_user env credentials)) (\<lambda>caller.
          if \<not> request_valid req then throw ValidationError else caller_controller env caller req))"

fun uses_session :: "api_request \<Rightarrow> bool" where
  "uses_session Health = False"
| "uses_session Me = False"
| "uses_session _ = True"

subsection \<open>Error responses\<close>

fun identity_status :: "exn \<Rightarrow> nat" where
  "identity_status (EmailAlreadyRegistered _) = 409"
| "identity_status (InvalidEmail _) = 422"
| "identity_status InvalidCredentials = 401"
| "identity_status InvalidRefreshToken = 401"
| "identity_status InvalidAccessToken = 401"
| "identity_status _ = 400"

fun messaging_status :: "exn \<Rightarrow> nat" where
  "messaging_status (ConversationNotFound _) = 404"
| "messaging_status (ParticipantUserNotFound _) = 404"
| "messaging_status NotConversationOwner = 403"
| "messaging_status NotConversationParticipant = 403"
| "messaging_status CannotRemoveConversationOwner = 409"
| "messaging_status (InvalidConversationTitle _) = 422"
| "messaging_status InvalidMessageContent = 422"
| "messaging_status _ = 400"

text \<open>The handler of each context, and the framework's for its own exceptions\<close>

definition identity_handle :: "exn \<Rightarrow> response" where
  "identity_handle exc =
     \<lparr>rs_status = identity_status exc, rs_www_authenticate = (identity_status exc = 401), rs_body = Detail (exn_str exc)\<rparr>"

definition messaging_handle :: "exn \<Rightarrow> response" where
  "messaging_handle exc =
     \<lparr>rs_status = messaging_status exc, rs_www_authenticate = False, rs_body = Detail (exn_str exc)\<rparr>"

declare identity_handle_def [simp] messaging_handle_def [simp]

definition error_response :: "exn \<Rightarrow> response" where
  "error_response exc =
     (if is_identity_error exc then identity_handle exc
      else if is_messaging_error exc then messaging_handle exc
      else case exc of
          HTTPException status detail \<Rightarrow>
            \<lparr>rs_status = status, rs_www_authenticate = (status = 401), rs_body = Detail detail\<rparr>
        | ValidationError \<Rightarrow> \<lparr>rs_status = 422, rs_www_authenticate = False, rs_body = Detail []\<rparr>
        | _ \<Rightarrow> \<lparr>rs_status = 500, rs_www_authenticate = False, rs_body = Detail ''Internal Server Error''\<rparr>)"

text \<open>One request, from its arrival to its response.\<close>

definition api :: "api_env \<Rightarrow> string option \<Rightarrow> api_request \<Rightarrow> database \<Rightarrow> response \<times> database" where
  "api env credentials req db =
     (case transactional_route (uses_session req) (handler env credentials req) db of
        (Inl e, db') \<Rightarrow> (error_response e, db')
      | (Inr body, db') \<Rightarrow>
          (\<lparr>rs_status = success_status req, rs_www_authenticate = False, rs_body = body\<rparr>, db'))"

lemmas controller_defs = signup_def login_def refresh_def current_user_def api_create_conversation_def
  api_list_conversations_def api_rename_conversation_def api_delete_conversation_def
  api_restore_conversation_def api_get_history_def api_add_participant_def api_list_participants_def
  api_remove_participant_def

end
