(* ===== verification/Cluster.thy ===== *)
theory Cluster
  imports Delivery RateLimiter SocketProtocol SessionScoped HttpApi
begin

section \<open>Replicas over one database and one Redis\<close>

text \<open>
  The state the replicas share, \<open>RedisMessageBroadcaster\<close>, and the wiring of the WebSocket endpoint
  (\<open>realtime/dependencies.py\<close>, and what \<open>lifespan\<close> puts on \<open>app.state\<close>): which operation each injected
  dependency is. A payload published on a channel goes to every replica whose pub/sub connection is
  subscribed to it at that moment, in order, and waits there until the replica's reader takes it.
\<close>

subsection \<open>State\<close>

text \<open>\<open>cl_clock\<close> gives the value of each reading of the clock; \<open>cl_input\<close> what the coming reads of a socket
  give (none left: the client is gone).\<close>

record cluster =
  cl_database :: database
  cl_counters :: redis_counters
  cl_replica :: "nat \<Rightarrow> replica"
  cl_inbox :: "nat \<Rightarrow> json list"
  cl_publish_faults :: "redis_fault list"
  cl_published :: "(conversation_id \<times> message) list"
  cl_clock :: "nat \<Rightarrow> datetime"
  cl_reads :: nat
  cl_input :: "nat \<Rightarrow> connection \<Rightarrow> (exn + json) list"

definition on_database :: "('a, database) op \<Rightarrow> ('a, cluster) op" where
  "on_database m w = (case m (cl_database w) of (r, db) \<Rightarrow> (r, w\<lparr>cl_database := db\<rparr>))"

definition on_replica :: "nat \<Rightarrow> ('a, replica) op \<Rightarrow> ('a, cluster) op" where
  "on_replica i m w =
     (case m (cl_replica w i) of (r, s) \<Rightarrow> (r, w\<lparr>cl_replica := (cl_replica w)(i := s)\<rparr>))"

definition on_counters :: "('a, redis_counters) op \<Rightarrow> ('a, cluster) op" where
  "on_counters m w = (case m (cl_counters w) of (r, c) \<Rightarrow> (r, w\<lparr>cl_counters := c\<rparr>))"

text \<open>\<open>SystemClock.now\<close>\<close>

definition clock_now :: "(datetime, cluster) op" where
  "clock_now w = (Inr (cl_clock w (cl_reads w)), w\<lparr>cl_reads := cl_reads w + 1\<rparr>)"

subsection \<open>RedisMessageBroadcaster\<close>

definition redis_publish :: "string \<Rightarrow> json \<Rightarrow> cluster \<Rightarrow> cluster" where
  "redis_publish channel data w =
     w\<lparr>cl_inbox := \<lambda>i. if channel \<in> rp_pubsub (cl_replica w i) then cl_inbox w i @ [data] else cl_inbox w i\<rparr>"

text \<open>\<open>cl_published\<close> keeps what has been published, for the statements about it.\<close>

definition publish :: "cluster message_broadcaster" where
  "publish conversation_id message w =
     (let sent = redis_publish (conversation_channel conversation_id) (encode message) w
            \<lparr>cl_published := cl_published w @ [(conversation_id, message)]\<rparr>
      in case cl_publish_faults w of
           [] \<Rightarrow> (Inr (), sent)
         | Served # rest \<Rightarrow> (Inr (), sent\<lparr>cl_publish_faults := rest\<rparr>)
         | Refused # rest \<Rightarrow> (Inl RedisError, w\<lparr>cl_publish_faults := rest\<rparr>)
         | Unanswered # rest \<Rightarrow> (Inl RedisError, sent\<lparr>cl_publish_faults := rest\<rparr>))"

text \<open>The reader of a replica takes the next payload, if it is at a read and there is one; what waited on the
  connection it gives up is gone with it, and so is what waits on a connection that is lost.\<close>

definition reader_turn :: "nat \<Rightarrow> cluster \<Rightarrow> cluster" where
  "reader_turn i w =
     (if \<not> at_read (cl_replica w i) then w
      else case cl_inbox w i of
        [] \<Rightarrow> w\<lparr>cl_replica := (cl_replica w)(i := read_turn NothingRead (cl_replica w i))\<rparr>
      | data # rest \<Rightarrow>
          w\<lparr>cl_replica := (cl_replica w)(i := read_turn (Payload data) (cl_replica w i)),
            cl_inbox := (cl_inbox w)(i := rest)\<rparr>)"

definition connection_lost :: "nat \<Rightarrow> cluster \<Rightarrow> cluster" where
  "connection_lost i w =
     w\<lparr>cl_replica := (cl_replica w)(i := lose_connection (cl_replica w i)), cl_inbox := (cl_inbox w)(i := [])\<rparr>"

definition reader_rebuilds :: "string list \<Rightarrow> nat \<Rightarrow> cluster \<Rightarrow> cluster" where
  "reader_rebuilds order i w =
     (let r = cl_replica w i
      in w\<lparr>cl_replica := (cl_replica w)(i := run_turn order ReadRaised r),
           cl_inbox := (cl_inbox w)(i := if at_read r \<or> reading r \<and> rp_link r = Rebuilding then [] else cl_inbox w i)\<rparr>)"

subsection \<open>The injected dependencies\<close>

definition provide_message_writer :: "cluster message_writer" where
  "provide_message_writer =
     \<lparr>mw_from_user = (\<lambda>conversation_id sender_id content client_message_id.
        bindp clock_now (\<lambda>now.
          on_database (mw_from_user (sql_message_writer now now) conversation_id sender_id content client_message_id))),
      mw_from_assistant = (\<lambda>conversation_id content.
        bindp clock_now (\<lambda>now.
          on_database (mw_from_assistant (sql_message_writer now now) conversation_id content)))\<rparr>"

definition provide_assistant_responder :: "cluster assistant_responder" where
  "provide_assistant_responder = mock_reply_to"

definition provide_conversation_access :: "cluster conversation_access" where
  "provide_conversation_access conversation_id participant_id =
     on_database (sql_conversation_access conversation_id participant_id)"

definition provide_message_replayer :: "cluster message_replayer" where
  "provide_message_replayer conversation_id after = on_database (sql_message_replayer conversation_id after)"

definition provide_message_exchange ::
    "conversation_id \<Rightarrow> sender_id \<Rightarrow> message_content \<Rightarrow> client_message_id option \<Rightarrow> (message, cluster) op" where
  "provide_message_exchange =
     exchange provide_message_writer provide_assistant_responder publish"

text \<open>The limiter \<open>lifespan\<close> builds from the settings.\<close>

definition app_rate_limiter :: "settings \<Rightarrow> redis_rate_limiter" where
  "app_rate_limiter st =
     \<lparr>rl_limit = set_ws_rate_limit_messages st, rl_window_seconds = set_ws_rate_limit_window_seconds st\<rparr>"

definition provide_rate_limiter :: "settings \<Rightarrow> uuid \<Rightarrow> (bool, cluster) op" where
  "provide_rate_limiter st user_id =
     bindp clock_now (\<lambda>now. on_counters (rate_limit_allow (app_rate_limiter st) now user_id))"

definition read_input :: "nat \<Rightarrow> connection \<Rightarrow> (json, cluster) op" where
  "read_input i c w =
     (case cl_input w i c of
        [] \<Rightarrow> (Inl WebSocketDisconnect, w)
      | x # rest \<Rightarrow> (x, w\<lparr>cl_input := (cl_input w)(i := (cl_input w i)(c := rest))\<rparr>))"

text \<open>The endpoint as it is called for connection \<open>c\<close> of replica \<open>i\<close>.\<close>

definition app_deps :: "settings \<Rightarrow> security_backend \<Rightarrow> nat \<Rightarrow> connection \<Rightarrow> cluster ws_deps" where
  "app_deps st backend i c =
     \<lparr>ws_accept = ret (),
      ws_receive_first = read_input i c,
      ws_receive = read_input i c,
      ws_close = (\<lambda>status. on_replica i (connection_close status c)),
      ws_send = (\<lambda>frame. on_replica i (connection_send c frame)),
      ws_connection_close = (\<lambda>status. on_replica i (connection_close status c)),
      ws_decode_access = (\<lambda>token. bindp clock_now (\<lambda>now.
        lift (decode_access backend (set_jwt_secret_key st) (set_jwt_algorithm st) now token))),
      ws_ensure = provide_conversation_access,
      ws_join = (\<lambda>conversation_id. on_replica i (join conversation_id c)),
      ws_leave = (\<lambda>conversation_id. on_replica i (leave conversation_id c)),
      ws_replay_since = provide_message_replayer,
      ws_allow = provide_rate_limiter st,
      ws_exchange = provide_message_exchange\<rparr>"

end
