(* ===== verification/ClusterFacts.thy ===== *)
theory ClusterFacts
  imports Cluster
begin

section \<open>The send flow and the fan-out over the cluster\<close>

text \<open>
  One inbound message from the exchange to the sockets: what is written, what is published, what waits
  at each replica, and what its readers deliver.
\<close>

subsection \<open>Writing\<close>

lemma member_known: "member db cid u \<Longrightarrow> db_known_conversation db cid"
  by (auto simp: member_def db_known_conversation_def db_conversation_def visible_def dest!: find_Some_D
      split: option.splits intro: rev_image_eqI)

lemma from_user_cases:
  assumes "db_wf db" and "content_wf content"
    and "mw_from_user (sql_message_writer now later) cid sender content key db = (r, db')"
  shows "(\<exists>m. r = Inr (m, True) \<and> db_wf db' \<and> only_messages db db' \<and> member db cid (sender_id_value sender) \<and>
      db_history db' = (db_history db)(cid := db_history db cid @ [m]) \<and> m_conversation_id m = cid \<and>
      m_content m = content \<and> m_sender_id m = Some sender \<and> m_client_message_id m = key \<and> m_created_at m = now) \<or>
    (\<exists>m k. r = Inr (m, False) \<and> db' = db \<and> key = Some k \<and> find (has_client_id k) (db_history db cid) = Some m) \<or>
    (\<exists>e. r = Inl e \<and> db' = db)"
proof (cases "member db cid (sender_id_value sender)")
  case False
  from writer_refused [OF assms(1) this, of now later content key] assms(3) show ?thesis
    by (intro disjI2) (simp only: prod.inject, metis)
next
  case True
  show ?thesis
  proof (cases "\<exists>k m. key = Some k \<and> find (has_client_id k) (db_history db cid) = Some m")
    case dup: True
    then obtain k m where k: "key = Some k" "find (has_client_id k) (db_history db cid) = Some m" by blast
    from writer_duplicate [OF assms(1) True k(2), of now later content] assms(3) k show ?thesis by auto
  next
    case False
    then have "\<forall>k. key = Some k \<longrightarrow> find (has_client_id k) (db_history db cid) = None" by (metis option.exhaust)
    from writer_new [OF assms(1) True assms(2) this, of now later] assms(3) obtain m where
      m: "r = Inr (m, True)" "db_wf db'" "db_history db' = (db_history db)(cid := db_history db cid @ [m])"
        "m = \<lparr>m_id = m_id m, m_conversation_id = cid, m_sender_id = Some sender, m_role = USER,
           m_content = content, m_created_at = now, m_client_message_id = key\<rparr>" by auto
    have "m_conversation_id m = cid" "m_content m = content" "m_sender_id m = Some sender"
      "m_client_message_id m = key" "m_created_at m = now" by (subst m(4), simp)+
    moreover have "only_messages db db'"
      using writer_frame [OF assms(1), of now later cid sender content key] assms(3) by simp
    ultimately show ?thesis using m True by blast
  qed
qed

subsection \<open>Publishing\<close>

lemma publish_frame:
  "cl_database (snd (publish cid m w)) = cl_database w" "cl_replica (snd (publish cid m w)) = cl_replica w"
  "cl_clock (snd (publish cid m w)) = cl_clock w"
  by (simp_all add: publish_def redis_publish_def Let_def split: list.split redis_fault.split)

definition subscribed :: "cluster \<Rightarrow> nat \<Rightarrow> conversation_id \<Rightarrow> bool" where
  "subscribed w i cid = (conversation_channel cid \<in> rp_pubsub (cl_replica w i))"

lemma publish_cases:
  assumes "publish cid m w = (r, w')"
  obtains pub where "cl_published w' = cl_published w @ map (Pair cid) pub" and "pub = [] \<or> pub = [m]"
    and "r = Inr () \<longrightarrow> pub = [m]" and "cl_database w' = cl_database w" and "cl_replica w' = cl_replica w"
    and "cl_clock w' = cl_clock w"
    and "cl_inbox w' = (\<lambda>i. cl_inbox w i @ (if subscribed w i cid then map encode pub else []))"
proof -
  have "(cl_published w' = cl_published w \<and> cl_inbox w' = cl_inbox w \<and> r \<noteq> Inr ()) \<or>
      (cl_published w' = cl_published w @ [(cid, m)] \<and>
       cl_inbox w' = (\<lambda>i. cl_inbox w i @ (if subscribed w i cid then [encode m] else [])))"
    using assms by (auto simp: publish_def redis_publish_def subscribed_def fun_eq_iff Let_def
        split: list.splits redis_fault.splits)
  then show ?thesis
  proof
    assume "cl_published w' = cl_published w \<and> cl_inbox w' = cl_inbox w \<and> r \<noteq> Inr ()"
    with publish_frame [of cid m w] assms that [of "[]"] show ?thesis by (simp cong: if_cong)
  next
    assume "cl_published w' = cl_published w @ [(cid, m)] \<and>
       cl_inbox w' = (\<lambda>i. cl_inbox w i @ (if subscribed w i cid then [encode m] else []))"
    with publish_frame [of cid m w] assms that [of "[m]"] show ?thesis by (simp add: fun_eq_iff)
  qed
qed

lemma clock_simps [simp]:
  "cl_database (w\<lparr>cl_reads := n\<rparr>) = cl_database w" "cl_published (w\<lparr>cl_reads := n\<rparr>) = cl_published w"
  by simp_all

subsection \<open>The exchange\<close>

definition reply_text :: "message_content \<Rightarrow> message_content" where
  "reply_text content = MessageContent (''You said: '' @ message_content_value content)"

lemma reply_text_wf: "content_wf (reply_text content)"
  using mock_reply_ok [of content "()"] by (auto simp: reply_text_def content_wf_def mock_reply_to_def lift_def)

text \<open>What operations of the cluster add to the history of a conversation and to its channel.\<close>

definition grew :: "conversation_id \<Rightarrow> message list \<Rightarrow> message list \<Rightarrow> cluster \<Rightarrow> cluster \<Rightarrow> bool" where
  "grew cid new pub w w' =
     (db_wf (cl_database w') \<and> only_messages (cl_database w) (cl_database w') \<and>
      db_history (cl_database w') = (db_history (cl_database w))(cid := db_history (cl_database w) cid @ new) \<and>
      cl_published w' = cl_published w @ map (Pair cid) pub \<and> cl_replica w' = cl_replica w \<and> cl_clock w' = cl_clock w \<and>
      cl_inbox w' = (\<lambda>i. cl_inbox w i @ (if subscribed w i cid then map encode pub else [])) \<and>
      (\<forall>m \<in> set new. m_conversation_id m = cid \<and> content_wf (m_content m) \<and> (\<exists>n. m_created_at m = cl_clock w n)))"

lemma grew_trans: "grew cid new1 pub1 w w1 \<Longrightarrow> grew cid new2 pub2 w1 w2 \<Longrightarrow> grew cid (new1 @ new2) (pub1 @ pub2) w w2"
  by (auto simp: grew_def subscribed_def fun_eq_iff intro: only_messages_trans)

lemma publish_grows:
  assumes "publish cid m w = (r, w')" and "db_wf (cl_database w)"
  obtains pub where "grew cid [] pub w w'" and "pub = [] \<or> pub = [m]" and "r = Inr () \<longrightarrow> pub = [m]"
proof (rule publish_cases [OF assms(1)])
  fix pub
  assume "cl_published w' = cl_published w @ map (Pair cid) pub" "cl_database w' = cl_database w"
    "cl_replica w' = cl_replica w" "cl_clock w' = cl_clock w"
    "cl_inbox w' = (\<lambda>i. cl_inbox w i @ (if subscribed w i cid then map encode pub else []))"
  with assms(2) have "grew cid [] pub w w'" by (simp add: grew_def only_messages_def)
  moreover assume "pub = [] \<or> pub = [m]" "r = Inr () \<longrightarrow> pub = [m]"
  ultimately show thesis by (rule that)
qed

lemma user_grows:
  assumes "db_wf (cl_database w)" and "content_wf content"
    and "mw_from_user provide_message_writer cid sender content key w = (q, w')"
  shows "case q of
      Inl _ \<Rightarrow> grew cid [] [] w w'
    | Inr (m, created) \<Rightarrow>
        if created then grew cid [m] [] w w' \<and> member (cl_database w') cid (sender_id_value sender) \<and>
          m_content m = content \<and> m_sender_id m = Some sender \<and> m_client_message_id m = key
        else grew cid [] [] w w' \<and> m \<in> set (db_history (cl_database w) cid) \<and> key \<noteq> None \<and> m_client_message_id m = key"
proof -
  let ?now = "cl_clock w (cl_reads w)"
  obtain db1 where q: "mw_from_user (sql_message_writer ?now ?now) cid sender content key (cl_database w) = (q, db1)"
    "w' = w\<lparr>cl_reads := cl_reads w + 1, cl_database := db1\<rparr>"
    using assms(3) by (auto simp: provide_message_writer_def clock_now_def bindp_def on_database_def split: prod.splits)
  from from_user_cases [OF assms(1,2) q(1)] show ?thesis
    using q(2) assms(1,2)
    by (auto simp: grew_def only_messages_views(2) only_messages_def [of x x for x] has_client_id_def
        dest: find_Some_D cong: if_cong)
qed

lemma reply_grows:
  assumes "db_wf (cl_database w)" and "db_known_conversation (cl_database w) cid"
  obtains reply w' where "mw_from_assistant provide_message_writer cid (reply_text content) w = (Inr reply, w')"
    and "grew cid [reply] [] w w'" and "m_sender_id reply = None" and "m_content reply = reply_text content"
proof -
  let ?now = "cl_clock w (cl_reads w)"
  from writer_assistant [OF assms reply_text_wf, of ?now ?now content] obtain db1 reply where
    reply: "mw_from_assistant (sql_message_writer ?now ?now) cid (reply_text content) (cl_database w) = (Inr reply, db1)"
      "db_wf db1" "db_history db1 = (db_history (cl_database w))(cid := db_history (cl_database w) cid @ [reply])"
      "reply = \<lparr>m_id = m_id reply, m_conversation_id = cid, m_sender_id = None, m_role = ASSISTANT,
         m_content = reply_text content, m_created_at = ?now, m_client_message_id = None\<rparr>" by blast
  have fields: "m_sender_id reply = None" "m_content reply = reply_text content" "m_conversation_id reply = cid"
    "m_created_at reply = ?now" by (subst reply(4), simp)+
  have frame: "only_messages (cl_database w) db1"
    using writer_assistant_frame [of "cl_database w" ?now ?now cid "reply_text content"] reply(1) by simp
  show thesis
  proof (rule that)
    show "mw_from_assistant provide_message_writer cid (reply_text content) w =
        (Inr reply, w\<lparr>cl_reads := cl_reads w + 1, cl_database := db1\<rparr>)"
      using reply(1) by (simp add: provide_message_writer_def clock_now_def bindp_def on_database_def)
    show "grew cid [reply] [] w (w\<lparr>cl_reads := cl_reads w + 1, cl_database := db1\<rparr>)"
      using reply(2,3) frame fields reply_text_wf by (auto simp: grew_def)
  qed (rule fields)+
qed

lemma exchange_outcome:
  assumes "db_wf (cl_database w)" and "content_wf content"
    and "provide_message_exchange cid sender content key w = (r, w')"
  shows "\<exists>new pub. db_wf (cl_database w') \<and> only_messages (cl_database w) (cl_database w') \<and>
    db_history (cl_database w') = (db_history (cl_database w))(cid := db_history (cl_database w) cid @ new) \<and>
    cl_published w' = cl_published w @ map (Pair cid) pub \<and> prefix pub new \<and>
    cl_replica w' = cl_replica w \<and>
    cl_inbox w' = (\<lambda>i. cl_inbox w i @ (if subscribed w i cid then map encode pub else [])) \<and>
    (\<forall>m \<in> set new. m_conversation_id m = cid \<and> content_wf (m_content m) \<and> (\<exists>n. m_created_at m = cl_clock w n)) \<and>
    (case r of
       Inl _ \<Rightarrow> length new \<le> 2
     | Inr m \<Rightarrow>
         (new = [] \<and> m \<in> set (db_history (cl_database w) cid) \<and> key \<noteq> None \<and> m_client_message_id m = key) \<or>
         (\<exists>reply. new = [m, reply] \<and> pub = new \<and> m_content m = content \<and> m_sender_id m = Some sender \<and>
            m_client_message_id m = key \<and> m_sender_id reply = None \<and> m_content reply = reply_text content))"
    (is "\<exists>new pub. ?out new pub")
proof -
  have out: "?out new pub" if "grew cid new pub w w'" "prefix pub new" "case r of Inl _ \<Rightarrow> length new \<le> 2
     | Inr m \<Rightarrow> (new = [] \<and> m \<in> set (db_history (cl_database w) cid) \<and> key \<noteq> None \<and> m_client_message_id m = key) \<or>
         (\<exists>reply. new = [m, reply] \<and> pub = new \<and> m_content m = content \<and> m_sender_id m = Some sender \<and>
            m_client_message_id m = key \<and> m_sender_id reply = None \<and> m_content reply = reply_text content)" for new pub
    using that unfolding grew_def by blast
  obtain q w1 where q: "mw_from_user provide_message_writer cid sender content key w = (q, w1)"
    by (cases "mw_from_user provide_message_writer cid sender content key w")
  show ?thesis
  proof (cases "\<exists>m. q = Inr (m, True)")
    case False
    then have rw: "r = map_sum id fst q" "w' = w1"
      using assms(3) q
      by (auto simp: provide_message_exchange_def exchange_def bindp_def ret_def split: sum.splits if_splits)
    with user_grows [OF assms(1,2) q] False show ?thesis by (intro exI [of _ "[]"], intro out) (auto split: sum.splits)
  next
    case True
    then obtain m where m: "q = Inr (m, True)" by blast
    note user = user_grows [OF assms(1,2) q, unfolded m, simplified]
    have wf: "db_wf (cl_database w1)" using user by (simp add: grew_def)
    obtain x w2 where x: "publish cid m w1 = (x, w2)" by (cases "publish cid m w1")
    obtain pub1 where pub1: "grew cid [] pub1 w1 w2" "pub1 = [] \<or> pub1 = [m]" "x = Inr () \<longrightarrow> pub1 = [m]"
      by (rule publish_grows [OF x wf])
    have first: "grew cid [m] pub1 w w2" using grew_trans [OF _ pub1(1), of "[m]" "[]"] user by simp
    show ?thesis
    proof (cases x)
      case (Inl e)
      with assms(3) q m x have "r = Inl e" "w' = w2"
        by (simp_all add: provide_message_exchange_def exchange_def bindp_def thenp_def)
      with first pub1(2) show ?thesis by (intro exI [of _ "[m]"] exI [of _ pub1], intro out) auto
    next
      case (Inr u)
      have "db_known_conversation (cl_database w2) cid"
        using user pub1(1) only_messages_views(3) by (auto simp: grew_def dest!: member_known)
      moreover have "db_wf (cl_database w2)" using first by (simp add: grew_def)
      ultimately obtain reply w3 where reply: "grew cid [reply] [] w2 w3" "m_sender_id reply = None"
        "m_content reply = reply_text content"
        "mw_from_assistant provide_message_writer cid (reply_text content) w2 = (Inr reply, w3)"
        by (metis reply_grows)
      obtain y w4 where y: "publish cid reply w3 = (y, w4)" by (cases "publish cid reply w3")
      obtain pub2 where pub2: "grew cid [] pub2 w3 w4" "pub2 = [] \<or> pub2 = [reply]" "y = Inr () \<longrightarrow> pub2 = [reply]"
        by (rule publish_grows [OF y]) (use reply(1) in \<open>simp add: grew_def\<close>)
      have run: "r = (case y of Inl e \<Rightarrow> Inl e | Inr _ \<Rightarrow> Inr m)" "w' = w4"
        using assms(3) q m x Inr reply(4) y mock_reply_ok [of content w2]
        by (auto simp: provide_message_exchange_def exchange_def bindp_def thenp_def ret_def
            provide_assistant_responder_def reply_text_def split: sum.splits)
      have "grew cid [m, reply] (pub1 @ pub2) w w4"
        using grew_trans [OF grew_trans [OF first reply(1)] pub2(1)] by simp
      with run Inr pub1 pub2 user reply(2,3) show ?thesis
        by (intro exI [of _ "[m, reply]"] exI [of _ "pub1 @ pub2"], intro out) (auto split: sum.split)
    qed
  qed
qed

text \<open>A participant's send with a fresh key succeeds when Redis serves the calls.\<close>

lemma publish_served:
  "cl_publish_faults w = [] \<Longrightarrow> \<exists>w'. publish cid m w = (Inr (), w') \<and> cl_publish_faults w' = [] \<and>
    cl_database w' = cl_database w"
  by (simp add: publish_def redis_publish_def Let_def)

lemma exchange_succeeds:
  assumes "db_wf (cl_database w)" and "member (cl_database w) cid (sender_id_value sender)" and "content_wf content"
    and "\<forall>k. key = Some k \<longrightarrow> find (has_client_id k) (db_history (cl_database w) cid) = None"
    and "cl_publish_faults w = []"
  shows "\<exists>m w'. provide_message_exchange cid sender content key w = (Inr m, w')"
proof -
  let ?db = "cl_database w" and ?now = "cl_clock w (cl_reads w)"
  obtain m db1 where user: "mw_from_user (sql_message_writer ?now ?now) cid sender content key ?db = (Inr (m, True), db1)"
    "db_wf db1"
    using writer_new [OF assms(1-4), of ?now ?now] by blast
  let ?w2 = "w\<lparr>cl_reads := cl_reads w + 1, cl_database := db1\<rparr>"
  obtain w3 where w3: "publish cid m ?w2 = (Inr (), w3)" "cl_publish_faults w3 = []" "cl_database w3 = db1"
    using publish_served [of ?w2 cid m] assms(5) by auto
  have "only_messages ?db db1" using writer_frame [OF assms(1), of ?now ?now cid sender content key] user by simp
  then have "db_known_conversation db1 cid"
    using only_messages_views(2) assms(2) by (intro member_known) simp
  let ?later = "cl_clock w3 (cl_reads w3)"
  obtain db2 reply where reply: "mw_from_assistant (sql_message_writer ?later ?later) cid (reply_text content) db1 = (Inr reply, db2)"
    using writer_assistant [OF user(2) \<open>db_known_conversation db1 cid\<close> reply_text_wf, of ?later ?later content] by blast
  let ?w5 = "w3\<lparr>cl_reads := cl_reads w3 + 1, cl_database := db2\<rparr>"
  obtain w6 where w6: "publish cid reply ?w5 = (Inr (), w6)"
    using publish_served [of ?w5 cid reply] w3(2) by auto
  have "mw_from_user provide_message_writer cid sender content key w = (Inr (m, True), ?w2)"
    using user(1) by (simp add: provide_message_writer_def clock_now_def bindp_def on_database_def)
  moreover have "mw_from_assistant provide_message_writer cid (reply_text content) w3 = (Inr reply, ?w5)"
    using reply w3(3) by (simp add: provide_message_writer_def clock_now_def bindp_def on_database_def)
  ultimately show ?thesis
    using w3(1) w6 mock_reply_ok [of content w3]
    by (simp add: provide_message_exchange_def exchange_def bindp_def thenp_def ret_def
        provide_assistant_responder_def reply_text_def)
qed

subsection \<open>The fan-out\<close>

text \<open>A replica's reader takes everything that waits for it.\<close>

lemma read_turn_keeps:
  assumes "replica_ok r" and "at_read r"
  shows "replica_ok (read_turn (Payload data) r) \<and> at_read (read_turn (Payload data) r)"
proof -
  obtain r' where r': "deliver data r = (Inr (), r')" "replica_ok r'" "rp_channels r' = rp_channels r"
    "rp_running r' = rp_running r" "rp_reader r' = rp_reader r" "rp_link r' = rp_link r"
    using deliver_facts [OF assms(1), of data] by blast
  then have "read_turn (Payload data) r = r'" using assms(2) by (simp add: read_turn_def)
  with r' assms(2) show ?thesis by (simp add: at_read_def)
qed

lemma reader_turns:
  "replica_ok (cl_replica w i) \<Longrightarrow> at_read (cl_replica w i) \<Longrightarrow> length (cl_inbox w i) = n \<Longrightarrow>
    cl_replica ((reader_turn i ^^ n) w) i = read_all (cl_inbox w i) (cl_replica w i) \<and>
    cl_inbox ((reader_turn i ^^ n) w) i = []"
proof (induction n arbitrary: w)
  case 0
  then show ?case by simp
next
  case (Suc n)
  then obtain data rest where inbox: "cl_inbox w i = data # rest" "length rest = n" by (cases "cl_inbox w i") auto
  let ?w = "reader_turn i w"
  have w: "cl_inbox ?w i = rest" "cl_replica ?w i = read_turn (Payload data) (cl_replica w i)"
    using inbox(1) Suc.prems(2) by (simp_all add: reader_turn_def)
  from Suc.IH [of ?w] inbox w read_turn_keeps [OF Suc.prems(1,2), of data] show ?case
    by (simp add: funpow_swap1 [symmetric] funpow_Suc_right del: funpow.simps)
qed

text \<open>It delivers nothing when nothing waits, and a turn whose read raises delivers nothing either.\<close>

lemma idle_turns: "cl_inbox w i = [] \<Longrightarrow> (reader_turn i ^^ n) w = w"
proof (induction n)
  case (Suc n)
  then show ?case by (cases w) (simp add: reader_turn_def read_turn_def)
qed simp

lemma rebuild_sends_nothing: "rp_sockets (run_turn order ReadRaised r) = rp_sockets r"
  using reconnect_facts [of order "read_turn ReadRaised r"]
  by (cases "reconnect order (read_turn ReadRaised r)")
    (auto simp: run_turn_def reconnect_turn_def read_turn_def pubsub_only_def split: sum.split)

lemma rebuilt_turns:
  assumes "cl_inbox w i = []"
  shows "rp_sockets (cl_replica ((reader_turn i ^^ n) (reader_rebuilds order i w)) i) = rp_sockets (cl_replica w i)"
proof -
  have "cl_inbox (reader_rebuilds order i w) i = []" using assms by (simp add: reader_rebuilds_def Let_def)
  from idle_turns [OF this] show ?thesis by (simp add: reader_rebuilds_def Let_def rebuild_sends_nothing)
qed

text \<open>A replay after the last message a client has seen gives what was stored since.\<close>

lemma replay_new:
  assumes "db_wf (cl_database w)" and "db_history (cl_database w) cid = old @ new" and "old \<noteq> []"
  shows "fst (provide_message_replayer cid (Some (m_id (last old))) w) = Inr new"
proof -
  obtain before m where old: "old = before @ [m]" using assms(3) by (cases old rule: rev_cases) auto
  have "sorted_wrt (<) (map m_id ((before @ [m]) @ new))"
    using db_history_sorted [of "cl_database w" cid] assms(1,2) by (simp add: old db_wf_def)
  then have "filter (id_above (Some (m_id m))) ((before @ [m]) @ new) = new"
    by (auto simp: id_above_def sorted_wrt_append filter_empty_conv filter_id_conv)
  with sql_replay [OF assms(1), of cid "Some (m_id m)"] assms(2) show ?thesis
    by (simp add: provide_message_replayer_def on_database_def old)
qed

lemma live_wanted:
  assumes "replica_inv r" and "c \<in> members r cid" and "rp_registry r \<noteq> Joining cid c"
  shows "cid \<in> wanted r"
proof (cases "rp_registry r")
  case (Joining cid' c')
  with assms invD(2) [OF assms(1), of cid] invD(3) [OF assms(1)] show ?thesis by auto
qed (use assms invD(2) [OF assms(1), of cid] in auto)

lemma live_subscribed:
  assumes "replica_reachable (cl_replica w i)" and "reading (cl_replica w i)" and "rp_link (cl_replica w i) = Up"
    and "c \<in> members (cl_replica w i) cid" and "rp_registry (cl_replica w i) \<noteq> Joining cid c"
  shows "subscribed w i cid"
  using invD(4) [OF reachable_inv [OF assms(1)]] live_wanted [OF reachable_inv [OF assms(1)] assms(4,5)] assms(2,3)
  by (auto simp: reading_def subscribed_def wanted_def)

subsection \<open>What the dependencies leave alone\<close>

lemma preserves_on_database:
  "(\<And>w db. f (w\<lparr>cl_database := db\<rparr>) = f w) \<Longrightarrow> preserves f (on_database m)"
  by (simp add: preserves_def on_database_def split_beta)

lemma preserves_on_replica:
  "(\<And>w r. f (w\<lparr>cl_replica := r\<rparr>) = f w) \<Longrightarrow> preserves f (on_replica i m)"
  by (simp add: preserves_def on_replica_def split_beta)

lemma preserves_on_counters:
  "(\<And>w c. f (w\<lparr>cl_counters := c\<rparr>) = f w) \<Longrightarrow> preserves f (on_counters m)"
  by (simp add: preserves_def on_counters_def split_beta)

lemma preserves_clock: "(\<And>w n. f (w\<lparr>cl_reads := n\<rparr>) = f w) \<Longrightarrow> preserves f clock_now"
  by (simp add: preserves_def clock_now_def)

lemma preserves_publish_input: "preserves cl_input (publish cid m)"
  by (simp add: preserves_def publish_def redis_publish_def Let_def split: list.split redis_fault.split)

lemmas preserves_ops = preserves_on_database preserves_on_replica preserves_on_counters preserves_clock
  preserves_publish_input

lemma app_deps_simps [simp]:
  "ws_accept (app_deps st backend i c) = ret ()"
  "ws_receive_first (app_deps st backend i c) = read_input i c"
  "ws_receive (app_deps st backend i c) = read_input i c"
  "ws_close (app_deps st backend i c) status = on_replica i (connection_close status c)"
  "ws_send (app_deps st backend i c) frame = on_replica i (connection_send c frame)"
  "ws_connection_close (app_deps st backend i c) status = on_replica i (connection_close status c)"
  "ws_decode_access (app_deps st backend i c) token = bindp clock_now (\<lambda>now.
     lift (decode_access backend (set_jwt_secret_key st) (set_jwt_algorithm st) now token))"
  "ws_ensure (app_deps st backend i c) = provide_conversation_access"
  "ws_join (app_deps st backend i c) cid = on_replica i (join cid c)"
  "ws_leave (app_deps st backend i c) cid = on_replica i (leave cid c)"
  "ws_replay_since (app_deps st backend i c) = provide_message_replayer"
  "ws_allow (app_deps st backend i c) = provide_rate_limiter st"
  "ws_exchange (app_deps st backend i c) = provide_message_exchange"
  by (simp_all add: app_deps_def)

lemma preserves_exchange_input: "preserves cl_input (provide_message_exchange cid sender content key)"
  unfolding provide_message_exchange_def exchange_def provide_assistant_responder_def mock_reply_to_def
    provide_message_writer_def message_writer.simps
  by (intro preserves_rules preserves_ops) simp_all

lemma step_consumes:
  assumes "receive_step v (app_deps st backend i c) cid sn w = (Inr Continue, w')"
  shows "length (cl_input w' i c) < length (cl_input w i c)"
proof (cases "cl_input w i c")
  case Nil
  then have "read_input i c w = (Inl WebSocketDisconnect, w)" by (simp add: read_input_def)
  with assms show ?thesis
    by (simp add: receive_step_def receive_frame_def bindp_def try_except_def throw_def is_value_error_def)
next
  case (Cons x rest)
  let ?w1 = "w\<lparr>cl_input := (cl_input w)(i := (cl_input w i)(c := rest))\<rparr>"
  have read: "read_input i c w = (x, ?w1)" using Cons by (simp add: read_input_def)
  define body where "body raw = bindp (provide_rate_limiter st (sender_id_value (sn_sender_id sn))) (\<lambda>allowed.
     if \<not> allowed then thenp (ws_send (app_deps st backend i c) (error_frame ''rate limit exceeded'')) (ret Continue)
     else if raw = JNull then thenp (ws_send (app_deps st backend i c) (error_frame ''invalid JSON'')) (ret Continue)
     else case read_message v raw of
         Inl e \<Rightarrow>
           (if e = ValidationError \<or> e = InvalidMessageContent
            then thenp (ws_send (app_deps st backend i c) (error_frame ''invalid message frame'')) (ret Continue)
            else throw e)
       | Inr (content, client_message_id) \<Rightarrow>
           handle_message (app_deps st backend i c) cid sn content client_message_id)" for raw
  have keeps: "preserves cl_input (body raw)" for raw
    unfolding body_def handle_message_def token_still_valid_def provide_rate_limiter_def app_deps_simps
    by (intro preserves_rules preserves_ops preserves_exchange_input) simp_all
  have "\<exists>raw. body raw ?w1 = (Inr Continue, w')"
    using assms read
    by (auto simp: receive_step_def receive_frame_def body_def [symmetric] bindp_def [of "try_except _ _"] try_except_def
        ret_def throw_def split: sum.splits if_splits)
  then obtain raw where "body raw ?w1 = (Inr Continue, w')" ..
  from preservesD [OF keeps this] Cons show ?thesis by simp
qed

subsection \<open>Acknowledgements\<close>

definition sent_to :: "nat \<Rightarrow> connection \<Rightarrow> cluster \<Rightarrow> json list" where
  "sent_to i c w = so_sent (rp_sockets (cl_replica w i) c)"

lemma send_outcome:
  assumes "on_replica i (connection_send c frame) w = (r, w')"
  shows "cl_database w' = cl_database w \<and> (sent_to i c w' = sent_to i c w \<or> sent_to i c w' = sent_to i c w @ [frame])"
  using assms
  by (auto simp: on_replica_def connection_send_eq sent_to_def push_frame_def split: if_splits)

lemma preserves_sent:
  "preserves (sent_to i c) (on_database m)" "preserves (sent_to i c) (on_counters k)"
  "preserves (sent_to i c) clock_now" "preserves (sent_to i c) (read_input i' c')"
  "preserves (sent_to i c) (on_replica i' (connection_close status c'))"
  by (auto simp: preserves_def on_database_def on_counters_def clock_now_def read_input_def on_replica_def
      connection_close_def sent_to_def Let_def split: prod.split list.split)

lemma error_not_ack: "error_frame d \<noteq> message_ack m"
  by (simp add: error_frame_def message_ack_def)

lemma handle_message_acks:
  assumes "handle_message (app_deps st backend i c) cid sn content key w = (r, w')"
    and "db_wf (cl_database w)" and "content_wf content"
    and "sent_to i c w' = sent_to i c w @ [message_ack m]"
  shows "\<exists>m' \<in> set (db_history (cl_database w') cid). message_ack m' = message_ack m"
proof -
  let ?d = "app_deps st backend i c"
  define check where "check = token_still_valid ?d sn"
  have keep: "preserves (sent_to i c) check" and db: "preserves cl_database check"
    unfolding check_def token_still_valid_def app_deps_simps
    by (intro preserves_rules preserves_sent preserves_ops; simp)+
  obtain q w1 where q: "check w = (q, w1)" by (cases "check w")
  have w1: "sent_to i c w1 = sent_to i c w" "cl_database w1 = cl_database w"
    using preservesD [OF keep q] preservesD [OF db q] by simp_all
  show ?thesis
  proof (cases "q = Inr True")
    case False
    with assms(1) q have "w' = w1"
      by (auto simp: handle_message_def check_def [symmetric] bindp_def ret_def split: sum.splits)
    with w1 assms(4) show ?thesis by simp
  next
    case True
    obtain x w2 where x: "provide_message_exchange cid (sn_sender_id sn) content key w1 = (x, w2)"
      by (cases "provide_message_exchange cid (sn_sender_id sn) content key w1")
    from exchange_outcome [OF _ assms(3) x] assms(2) w1(2) obtain new pub where
      o: "cl_replica w2 = cl_replica w1"
        "db_history (cl_database w2) = (db_history (cl_database w1))(cid := db_history (cl_database w1) cid @ new)"
        "case x of Inl _ \<Rightarrow> length new \<le> 2
        | Inr m \<Rightarrow> (new = [] \<and> m \<in> set (db_history (cl_database w1) cid) \<and> key \<noteq> None \<and> m_client_message_id m = key) \<or>
           (\<exists>reply. new = [m, reply] \<and> pub = new \<and> m_content m = content \<and> m_sender_id m = Some (sn_sender_id sn) \<and>
              m_client_message_id m = key \<and> m_sender_id reply = None \<and> m_content reply = reply_text content)" by auto
    have w2: "sent_to i c w2 = sent_to i c w" using o(1) w1(1) by (simp add: sent_to_def)
    define frame where "frame = (case x of Inl _ \<Rightarrow> error_frame ''failed to handle message'' | Inr k \<Rightarrow> message_ack k)"
    obtain y w3 where y: "on_replica i (connection_send c frame) w2 = (y, w3)"
      by (cases "on_replica i (connection_send c frame) w2")
    have "w' = w3"
      using assms(1) q True x y
      by (auto simp: handle_message_def check_def [symmetric] frame_def bindp_def thenp_def try_except_def ret_def
          split: sum.splits option.splits)
    with send_outcome [OF y] w2 assms(4) have f: "frame = message_ack m" "cl_database w' = cl_database w2" by auto
    show ?thesis
    proof (cases x)
      case (Inl e)
      with f(1) show ?thesis by (simp add: frame_def error_not_ack)
    next
      case (Inr k)
      with o(2,3) f show ?thesis by (intro bexI [of _ k]) (auto simp: frame_def)
    qed
  qed
qed

lemma step_acks:
  assumes "receive_step v (app_deps st backend i c) cid sn w = (r, w')" and "db_wf (cl_database w)"
    and "sent_to i c w' = sent_to i c w @ [message_ack m]"
  shows "\<exists>m' \<in> set (db_history (cl_database w') cid). message_ack m' = message_ack m"
proof -
  define recv where "recv = receive_frame (app_deps st backend i c)"
  have "preserves (sent_to i c) recv" "preserves cl_database recv"
    unfolding recv_def receive_frame_def app_deps_simps by (intro preserves_rules preserves_sent; simp add: preserves_def read_input_def split: list.split)+
  moreover have "preserves (sent_to i c) (provide_rate_limiter st u)" "preserves cl_database (provide_rate_limiter st u)" for u
    unfolding provide_rate_limiter_def by (intro preserves_rules preserves_sent preserves_ops; simp)+
  moreover obtain q w1 where q: "recv w = (q, w1)" by (cases "recv w")
  moreover obtain b w2 where b: "provide_rate_limiter st (sender_id_value (sn_sender_id sn)) w1 = (b, w2)"
    by (cases "provide_rate_limiter st (sender_id_value (sn_sender_id sn)) w1")
  ultimately have same: "sent_to i c w1 = sent_to i c w" "sent_to i c w2 = sent_to i c w"
    "cl_database w2 = cl_database w"
    by (metis preservesD)+
  show ?thesis
  proof (cases "\<exists>raw content key. q = Inr raw \<and> b = Inr True \<and> raw \<noteq> JNull \<and> read_message v raw = Inr (content, key)")
    case True
    then obtain raw content key where h: "q = Inr raw" "b = Inr True" "raw \<noteq> JNull" "read_message v raw = Inr (content, key)" by blast
    then have run: "handle_message (app_deps st backend i c) cid sn content key w2 = (r, w')"
      using assms(1) q b by (simp add: receive_step_def recv_def [symmetric] bindp_def)
    have "content_wf content"
      using h(4) by (auto simp: read_message_def bindr_def intro: mk_message_content_wf split: sum.splits)
    with handle_message_acks [OF run] assms(2,3) same show ?thesis by simp
  next
    case False
    have "w' = w1 \<or> w' = w2 \<or> (\<exists>d y. on_replica i (connection_send c (error_frame d)) w2 = (y, w'))"
      using assms(1) q b False
      by (auto simp: receive_step_def recv_def [symmetric] bindp_def thenp_def ret_def throw_def
          split: sum.splits if_splits prod.splits)
    then show ?thesis
    proof (elim disjE exE)
      fix d y
      assume "on_replica i (connection_send c (error_frame d)) w2 = (y, w')"
      from send_outcome [OF this] same assms(3) error_not_ack [of d m] show ?thesis by auto
    qed (use same assms(3) in simp_all)
  qed
qed

end
