(* ===== verification/ApiFacts.thy ===== *)
theory ApiFacts
  imports HttpApi
begin

section \<open>What the API does to the database and what it answers\<close>

text \<open>
  The facts of the stores carried to whole requests: every request keeps the invariant, a request that
  answers with an error leaves the tables alone, and the identity and conversation requests do what the
  use cases do, committed.
\<close>

subsection \<open>Every request keeps the invariant\<close>

lemmas keeps_intros = keeps_bindp keeps_thenp keeps_ret keeps_throw keeps_register keeps_authenticate
  keeps_refresh keeps_create keeps_rename keeps_delete keeps_restore keeps_add_participant
  keeps_participants keeps_remove_participant keeps_history keeps_list_for_participant

lemma keeps_public: "public_controller env req = Some m \<Longrightarrow> keeps n m"
  by (cases req) (auto simp: signup_def login_def refresh_def get_password_hasher_def
      intro!: keeps_intros dest: hasher_hash_nonempty)

lemma keeps_caller: "keeps n (caller_controller env caller req)"
  by (cases req) (auto simp: controller_defs list_conversations_def intro!: keeps_intros)

lemma keeps_handler: "keeps n (handler env credentials req)"
  by (auto simp: handler_def split: option.splits intro!: keeps_lift_bind keeps_throw keeps_caller
      intro: keeps_public)

lemma transactional_route_wf:
  assumes "\<And>n. keeps n m" and "db_wf db"
  shows "db_wf (snd (transactional_route b m db))"
proof (cases b)
  case True
  with unit_of_work_keeps(1) [OF assms] show ?thesis by (simp add: transactional_route_session)
next
  case False
  have "session_ok (db_message_seq db) (snd (m (open_session db)))"
    using assms(1) session_ok_open [OF assms(2)] by (rule keepsD)
  then show ?thesis using False rollback_wf [OF assms(2)]
    by (auto simp: transactional_route_def split: prod.splits sum.splits)
qed

lemma api_wf: "db_wf db \<Longrightarrow> db_wf (snd (api env credentials req db))"
  using transactional_route_wf [OF keeps_handler]
  by (auto simp: api_def split: prod.splits sum.splits) (metis snd_conv)+

lemma success_status_below: "success_status req < 400"
  by (cases req) simp_all

lemma api_error_tables:
  assumes "400 \<le> rs_status (fst (api env credentials req db))"
  shows "\<exists>n. snd (api env credentials req db) = db\<lparr>db_message_seq := n\<rparr>"
  using assms success_status_below [of req]
    transactional_route_Inl [of "uses_session req" "handler env credentials req" db]
  by (auto simp: api_def not_le [symmetric] split: prod.splits sum.splits)

subsection \<open>A request that returns\<close>

lemma api_session:
  assumes "uses_session req"
  shows "api env credentials req db =
    (case unit_of_work (handler env credentials req) db of
       (Inl e, db') \<Rightarrow> (error_response e, db')
     | (Inr body, db') \<Rightarrow> (\<lparr>rs_status = success_status req, rs_www_authenticate = False, rs_body = body\<rparr>, db'))"
  using assms by (simp add: api_def transactional_route_session)

lemma handler_public:
  "public_controller env req = Some m \<Longrightarrow> request_valid req \<Longrightarrow> handler env credentials req = m"
  by (simp add: handler_def)

lemma handler_caller:
  "public_controller env req = None \<Longrightarrow> request_valid req \<Longrightarrow> get_current_user env credentials = Inr caller \<Longrightarrow>
    handler env credentials req = caller_controller env caller req"
  by (simp add: handler_def)

lemma api_returns:
  assumes "uses_session req" and "handler env credentials req (open_session db) = (Inr body, s)"
    and "ready_to_commit s"
  shows "api env credentials req db =
    (\<lparr>rs_status = success_status req, rs_www_authenticate = False, rs_body = body\<rparr>, flushed s)"
  using assms by (simp add: api_session unit_of_work_ready)

lemma api_raises:
  assumes "uses_session req" and "handler env credentials req (open_session db) = (Inl e, open_session db)"
  shows "api env credentials req db = (error_response e, db)"
  using assms by (simp add: api_session unit_of_work_error)

lemma email_value_length: "mk_email v = Inr a \<Longrightarrow> length (email_value a) \<le> length v"
  by (auto simp: mk_email_eq lower_def length_strip split: if_splits)

subsection \<open>Identity requests\<close>

lemma signup_created:
  assumes "db_wf db" and "request_valid (Signup email password)" and "mk_email email = Inr a"
    and "argon2_documented (ae_backend env)" and "argon2_hash (ae_backend env) password = Inr h"
    and "db_registered db a = None" and "db_free_id db (UserId (ae_uuid env))"
  shows "\<exists>db'. api env credentials (Signup email password) db =
      (\<lparr>rs_status = 201, rs_www_authenticate = False,
        rs_body = UserResponse (ae_uuid env) (email_value a) (ae_now env)\<rparr>, db') \<and>
    db_registered db' = (db_registered db)(a \<mapsto>
      \<lparr>u_id = UserId (ae_uuid env), u_email = a, u_password_hash = PasswordHash h, u_created_at = ae_now env\<rparr>)"
proof -
  have len: "length (email_value a) \<le> 320"
    using email_value_length [OF assms(3)] assms(2) by (simp add: text_field_def)
  have hash: "ph_hash (get_password_hasher env) password = Inr (PasswordHash h)" "h \<noteq> []"
    using hasher_hash_ok [OF assms(4,5)] by (simp_all add: get_password_hasher_def)
  from ut.register_new [of "open_session db" email a "get_password_hasher env" password "PasswordHash h"
      "ae_uuid env" "ae_now env"] assms len hash
  obtain s' where reg: "register_user sql_users (get_password_hasher env) (ae_now env) (ae_uuid env) email password
        (open_session db) =
      (Inr \<lparr>u_id = UserId (ae_uuid env), u_email = a, u_password_hash = PasswordHash h,
        u_created_at = ae_now env\<rparr>, s')" "ready_to_commit s'"
    and view: "db_registered (flushed s') = (db_registered db)(a \<mapsto>
      \<lparr>u_id = UserId (ae_uuid env), u_email = a, u_password_hash = PasswordHash h, u_created_at = ae_now env\<rparr>)"
    by auto
  have "handler env credentials (Signup email password) (open_session db) =
      (Inr (UserResponse (ae_uuid env) (email_value a) (ae_now env)), s')"
    using assms(2) reg(1) by (simp add: handler_def signup_def bindp_InrI ret_def)
  then have "api env credentials (Signup email password) db =
      (\<lparr>rs_status = 201, rs_www_authenticate = False,
        rs_body = UserResponse (ae_uuid env) (email_value a) (ae_now env)\<rparr>, flushed s')"
    using reg(2) by (subst api_returns) simp_all
  with view show ?thesis by blast
qed

text \<open>Whatever it answers, a signup touches the users alone.\<close>

lemma signup_frame:
  assumes "db_wf db" and "api env credentials (Signup email password) db = (r, db')"
  shows "db_refresh_tokens db' = db_refresh_tokens db \<and> db_conversations db' = db_conversations db \<and>
    db_participants db' = db_participants db \<and> db_messages db' = db_messages db"
proof -
  have get: "user_get_by_email a (open_session db) = (Inr (db_registered db a), open_session db)" for a
  proof -
    have "clean (open_session db)" "s_db (open_session db) = db"
      using assms(1) by simp_all
    then show ?thesis using user_get_by_email_clean [of "open_session db" a] by simp
  qed
  show ?thesis
    using assms(2)
    by (auto simp: api_session handler_def signup_def register_user_def unit_of_work_def proc_simps get
        user_add_def session_add_def session_commit_def session_flush_def rollback_def
        insert_user_def split: sum.splits if_splits option.splits)
qed

lemma signup_taken:
  assumes "db_wf db" and "request_valid (Signup email password)" and "mk_email email = Inr a"
    and "db_registered db a = Some u"
  shows "api env credentials (Signup email password) db =
    (error_response (EmailAlreadyRegistered (email_value a)), db)"
proof (rule api_raises)
  show "handler env credentials (Signup email password) (open_session db) =
      (Inl (EmailAlreadyRegistered (email_value a)), open_session db)"
    using ut.register_duplicate [of "open_session db" email a u] assms
    by (simp add: handler_def signup_def bindp_InlI)
qed simp

lemma token_service_env [simp]:
  "ts_issue_access (get_token_service env) =
     issue_access (ae_backend env) (set_jwt_secret_key (ae_settings env)) (set_jwt_algorithm (ae_settings env))
       (timedelta_seconds (set_access_token_ttl_seconds (ae_settings env))) (ae_now env)"
  "ts_decode_access (get_token_service env) =
     decode_access (ae_backend env) (set_jwt_secret_key (ae_settings env)) (set_jwt_algorithm (ae_settings env))
       (ae_now env)"
  "ts_generate_refresh (get_token_service env) =
     generate_refresh (ae_backend env) (ae_uuid env) (ae_secret env)"
  "ts_parse_refresh (get_token_service env) = parse_refresh"
  "ts_verify_refresh (get_token_service env) = verify_refresh (ae_backend env)"
  by (simp_all add: get_token_service_def)

text \<open>The access token a request at this time issues to this user.\<close>

definition access_token_of :: "api_env \<Rightarrow> user_id \<Rightarrow> string" where
  "access_token_of env u = (case ts_issue_access (get_token_service env) u of Inr t \<Rightarrow> t | Inl _ \<Rightarrow> [])"

lemma issue_access_env:
  "ts_issue_access (get_token_service env) u = Inr (access_token_of env u)"
  by (simp add: access_token_of_def issue_access_def Let_def)

text \<open>The refresh token it issues, as the client gets it and as it is stored.\<close>

definition refresh_token_of :: "api_env \<Rightarrow> string" where
  "refresh_token_of env = uuid_hex (ae_uuid env) @ ''.'' @ ae_secret env"

definition stored_token_of :: "api_env \<Rightarrow> user_id \<Rightarrow> refresh_token" where
  "stored_token_of env u =
     refresh_token_issue (uuid_hex (ae_uuid env)) u (hash_secret (ae_backend env) (ae_secret env))
       (ae_now env) (refresh_ttl env)"

lemma generate_refresh_env:
  "ts_generate_refresh (get_token_service env) = Inr \<lparr>gr_jti = uuid_hex (ae_uuid env),
     gr_token = refresh_token_of env, gr_token_hash = hash_secret (ae_backend env) (ae_secret env)\<rparr>"
  by (simp add: generate_refresh_def refresh_token_of_def Let_def)

lemma login_ok:
  assumes "db_wf db" and "request_valid (Login email password)" and "mk_email email = Inr a"
    and "db_registered db a = Some u" and "u_password_hash u = PasswordHash h"
    and "argon2_documented (ae_backend env)" and "argon2_hash (ae_backend env) password = Inr h"
    and "db_token db (uuid_hex (ae_uuid env)) = None"
  shows "\<exists>db'. api env credentials (Login email password) db =
      (\<lparr>rs_status = 200, rs_www_authenticate = False,
        rs_body = TokenResponse (access_token_of env (u_id u)) (refresh_token_of env) ''bearer''\<rparr>, db') \<and>
    db_token db' = (db_token db)(uuid_hex (ae_uuid env) \<mapsto> stored_token_of env (u_id u))"
proof -
  have "ph_verify (get_password_hasher env) password (u_password_hash u) = Inr True"
    using hasher_verify_own [OF assms(6,7)] by (simp add: get_password_hasher_def assms(5))
  from it.authenticate_ok [where s = "open_session db" and now = "ae_now env" and ttl = "refresh_ttl env",
      OF _ assms(3) _ this generate_refresh_env _ issue_access_env] assms(1,4,8)
  obtain s' where s': "authenticate_user sql_users sql_refresh_tokens (get_password_hasher env)
      (get_token_service env) (ae_now env) (refresh_ttl env) email password (open_session db) =
      (Inr \<lparr>tp_access_token = access_token_of env (u_id u), tp_refresh_token = refresh_token_of env\<rparr>, s')"
    "ready_to_commit s'"
    "db_token (flushed s') = (db_token db)(uuid_hex (ae_uuid env) \<mapsto> stored_token_of env (u_id u))"
    by (auto simp: stored_token_of_def)
  have "handler env credentials (Login email password) (open_session db) =
      (Inr (TokenResponse (access_token_of env (u_id u)) (refresh_token_of env) ''bearer''), s')"
    using assms(2) s'(1) by (simp add: handler_def login_def bindp_InrI ret_def token_response_def)
  then have "api env credentials (Login email password) db =
      (\<lparr>rs_status = 200, rs_www_authenticate = False,
        rs_body = TokenResponse (access_token_of env (u_id u)) (refresh_token_of env) ''bearer''\<rparr>, flushed s')"
    using s'(2) by (subst api_returns) simp_all
  with s'(3) show ?thesis by blast
qed

lemma verify_refresh_env:
  "ts_verify_refresh (get_token_service env) secret h = Inr (hash_secret (ae_backend env) secret = h)"
  by (simp add: verify_refresh_def)

lemma refresh_rotates:
  assumes "db_wf db" and "parse_refresh tok = Inr (j, secret)" and "db_token db j = Some t"
    and "rt_token_hash t = hash_secret (ae_backend env) secret"
    and "refresh_token_is_active t (ae_now env)" and "db_token db (uuid_hex (ae_uuid env)) = None"
  shows "\<exists>db'. api env credentials (Refresh tok) db =
      (\<lparr>rs_status = 200, rs_www_authenticate = False,
        rs_body = TokenResponse (access_token_of env (rt_user_id t)) (refresh_token_of env) ''bearer''\<rparr>, db') \<and>
    db_token db' = (db_token db)(j \<mapsto> refresh_token_revoke t (ae_now env),
      uuid_hex (ae_uuid env) \<mapsto> stored_token_of env (rt_user_id t))"
proof -
  have valid: "request_valid (Refresh tok)" using assms(2) by (auto simp: parse_refresh_Inr Suc_le_eq)
  have parse: "ts_parse_refresh (get_token_service env) tok = Inr (j, secret)" using assms(2) by simp
  have verify: "ts_verify_refresh (get_token_service env) secret (rt_token_hash t) = Inr True"
    using assms(4) by (simp add: verify_refresh_def)
  from rt.refresh_ok [where s = "open_session db" and now = "ae_now env" and ttl = "refresh_ttl env",
      OF _ parse _ verify assms(5) generate_refresh_env _ issue_access_env] assms(1,3,6)
  obtain s' where s': "refresh_access_token sql_refresh_tokens (get_token_service env) (ae_now env)
      (refresh_ttl env) tok (open_session db) =
      (Inr \<lparr>tp_access_token = access_token_of env (rt_user_id t), tp_refresh_token = refresh_token_of env\<rparr>, s')"
    "ready_to_commit s'"
    "db_token (flushed s') = (db_token db)(j \<mapsto> refresh_token_revoke t (ae_now env),
      uuid_hex (ae_uuid env) \<mapsto> stored_token_of env (rt_user_id t))"
    by (auto simp: stored_token_of_def)
  have "handler env credentials (Refresh tok) (open_session db) =
      (Inr (TokenResponse (access_token_of env (rt_user_id t)) (refresh_token_of env) ''bearer''), s')"
    using valid s'(1) by (simp add: handler_def refresh_def bindp_InrI ret_def token_response_def)
  then have "api env credentials (Refresh tok) db =
      (\<lparr>rs_status = 200, rs_www_authenticate = False,
        rs_body = TokenResponse (access_token_of env (rt_user_id t)) (refresh_token_of env) ''bearer''\<rparr>, flushed s')"
    using s'(2) by (subst api_returns) simp_all
  with s'(3) show ?thesis by blast
qed

lemma refresh_refused:
  assumes "db_wf db" and "parse_refresh tok = Inr (j, secret)"
    and "\<And>t. db_token db j = Some t \<Longrightarrow>
      \<not> refresh_token_is_active t (ae_now env) \<or> rt_token_hash t \<noteq> hash_secret (ae_backend env) secret"
  shows "api env credentials (Refresh tok) db = (error_response InvalidRefreshToken, db)"
proof (rule api_raises)
  have valid: "request_valid (Refresh tok)" using assms(2) by (auto simp: parse_refresh_Inr Suc_le_eq)
  have parse: "ts_parse_refresh (get_token_service env) tok = Inr (j, secret)" using assms(2) by simp
  have "refresh_access_token sql_refresh_tokens (get_token_service env) (ae_now env) (refresh_ttl env) tok
      (open_session db) = (Inl InvalidRefreshToken, open_session db)"
  proof (cases "db_token db j")
    case None
    then show ?thesis using rt.refresh_unknown [OF _ parse] assms(1) by simp
  next
    case (Some t)
    show ?thesis
    proof (cases "refresh_token_is_active t (ae_now env)")
      case False
      from rt.refresh_replay [OF _ parse _ verify_refresh_env False generate_refresh_env] Some assms(1)
      show ?thesis by simp
    next
      case True
      with Some assms(3) have "ts_verify_refresh (get_token_service env) secret (rt_token_hash t) = Inr False"
        by (auto simp: verify_refresh_def)
      from rt.lookup_known [OF _ parse _ this, of "open_session db"] Some assms(1) show ?thesis
        by (simp add: refresh_access_token_def bindp_InlI)
    qed
  qed
  with valid show "handler env credentials (Refresh tok) (open_session db) =
      (Inl InvalidRefreshToken, open_session db)"
    by (simp add: handler_def refresh_def bindp_InlI)
qed simp

text \<open>PyJWT as documented under the key and the algorithm a request sees in the settings.\<close>

definition jwt_of :: "api_env \<Rightarrow> bool" where
  "jwt_of env = jwt_documented (ae_backend env) (set_jwt_secret_key (ae_settings env)) (set_jwt_algorithm (ae_settings env))"

text \<open>From the second in which it was issued until it expires, in seconds of the clock.\<close>

definition token_valid_at :: "api_env \<Rightarrow> datetime \<Rightarrow> bool" where
  "token_valid_at env now =
     (int_timestamp (ae_now env) \<le> int_timestamp now \<and>
      int_timestamp now <
        int_timestamp (ae_now env + timedelta_seconds (set_access_token_ttl_seconds (ae_settings env))))"

text \<open>The caller a bearer token names: the access token issued earlier, until it expires.\<close>

lemma current_user_issued:
  assumes "jwt_of env" and "ae_settings env' = ae_settings env"
    and "ae_backend env' = ae_backend env" and "0 \<le> ae_now env'"
  shows "get_current_user env' (Some (access_token_of env u)) =
    (if token_valid_at env (ae_now env')
     then Inr u else Inl (HTTPException 401 ''invalid or expired access token''))"
  using decode_issued [OF assms(1) [unfolded jwt_of_def] issue_access_env [of env u, unfolded token_service_env] assms(4)] assms(2,3)
  by (simp add: get_current_user_def token_valid_at_def)

subsection \<open>Conversation requests\<close>

lemma create_created:
  assumes "db_wf db" and "get_current_user env credentials = Inr caller"
    and "length title \<le> 200" and "mk_conversation_title title = Inr t"
    and "db_conversation db (ConversationId (ae_uuid env)) = None"
  shows "\<exists>db' c. api env credentials (CreateConversation title) db =
      (\<lparr>rs_status = 201, rs_www_authenticate = False,
        rs_body = ConversationResponse (conversation_from_domain c)\<rparr>, db') \<and>
    c = conversation_start (ConversationId (ae_uuid env)) (OwnerId (user_id_value caller)) t (ae_now env) \<and>
    db_conversation db' = (db_conversation db)(ConversationId (ae_uuid env) \<mapsto> c)"
proof -
  let ?c = "conversation_start (ConversationId (ae_uuid env)) (OwnerId (user_id_value caller)) t (ae_now env)"
  have "strip title \<noteq> []" using assms(4) by (auto simp: mk_conversation_title_def Let_def split: if_splits)
  then have "title \<noteq> []" by (auto simp: strip_def lstrip_def rstrip_def)
  then have valid: "request_valid (CreateConversation title)"
    using assms(3) by (simp add: text_field_def Suc_le_eq)
  from ct.create_ok [where s = "open_session db" and title = title and t = t and i = "ae_uuid env" and
      owner = "OwnerId (user_id_value caller)" and now = "ae_now env"] assms
  obtain s' where s': "create_conversation sql_conversations (ae_now env) (ae_uuid env)
      (OwnerId (user_id_value caller)) title (open_session db) = (Inr ?c, s')" "ready_to_commit s'"
    "db_conversation (flushed s') = (db_conversation db)(ConversationId (ae_uuid env) \<mapsto> ?c)"
    by auto
  have "handler env credentials (CreateConversation title) (open_session db) =
      (Inr (ConversationResponse (conversation_from_domain ?c)), s')"
    using valid s'(1) assms(2) by (simp add: handler_def api_create_conversation_def bindp_InrI ret_def)
  then have "api env credentials (CreateConversation title) db =
      (\<lparr>rs_status = 201, rs_www_authenticate = False,
        rs_body = ConversationResponse (conversation_from_domain ?c)\<rparr>, flushed s')"
    using s'(2) by (subst api_returns) simp_all
  with s'(3) show ?thesis by blast
qed

text \<open>The requests on one conversation, by what its use case raises in a state it leaves alone.\<close>

fun names_conversation :: "api_request \<Rightarrow> uuid option" where
  "names_conversation (RenameConversation cid _) = Some cid"
| "names_conversation (DeleteConversation cid) = Some cid"
| "names_conversation (RestoreConversation cid) = Some cid"
| "names_conversation (GetHistory cid _ _) = Some cid"
| "names_conversation (AddParticipant cid _) = Some cid"
| "names_conversation (ListParticipants cid) = Some cid"
| "names_conversation (RemoveParticipant cid _) = Some cid"
| "names_conversation _ = None"

fun owner_only :: "api_request \<Rightarrow> bool" where
  "owner_only (RenameConversation _ _) = True"
| "owner_only (DeleteConversation _) = True"
| "owner_only (AddParticipant _ _) = True"
| "owner_only _ = False"

lemma require_missing_sql:
  "db_wf db \<Longrightarrow> visible (db_conversation db cid) = None \<Longrightarrow>
    require_conversation (cr_get sql_conversations cid) cid (open_session db) =
      (Inl (ConversationNotFound cid), open_session db)"
  by (rule ct.require_missing) simp_all

lemma missing_404:
  assumes "db_wf db" and "get_current_user env credentials = Inr caller" and "request_valid req"
    and "names_conversation req = Some cid"
    and "if (\<exists>u. req = RestoreConversation u) then db_conversation db (ConversationId cid) = None
         else visible (db_conversation db (ConversationId cid)) = None"
  shows "api env credentials req db = (error_response (ConversationNotFound (ConversationId cid)), db)"
proof (rule api_raises)
  show "uses_session req" using assms(4) by (cases req) simp_all
  have clean: "clean (open_session db)" using assms(1) by simp
  have view: "db_conversation (flushed (open_session db)) = db_conversation db" by simp
  have "caller_controller env caller req (open_session db) =
      (Inl (ConversationNotFound (ConversationId cid)), open_session db)"
  proof (cases "\<exists>u. req = RestoreConversation u")
    case True
    with assms(4,5) ct.get_including_deleted_law [OF clean] show ?thesis
      by (auto simp: api_restore_conversation_def restore_conversation_def require_conversation_def
          proc_simps simp del: sql_simps)
  next
    case False
    with assms(5) have none: "visible (db_conversation (flushed (open_session db)) (ConversationId cid)) = None"
      by simp
    from False assms(4) show ?thesis
      by (cases req) (simp_all add: controller_defs bindp_InlI thenp_InlI ct.missing_refused [OF clean none]
          get_conversation_history_def ct.require_missing [OF clean none] del: sql_simps)
  qed
  moreover have "public_controller env req = None" using assms(4) by (cases req) simp_all
  ultimately show "handler env credentials req (open_session db) =
      (Inl (ConversationNotFound (ConversationId cid)), open_session db)"
    using assms(2,3) by (simp add: handler_caller)
qed

lemma not_owner_403:
  assumes "db_wf db" and "get_current_user env credentials = Inr caller" and "request_valid req"
    and "names_conversation req = Some cid" and "owner_only req"
    and "visible (db_conversation db (ConversationId cid)) = Some c"
    and "c_owner_id c \<noteq> OwnerId (user_id_value caller)"
  shows "api env credentials req db = (error_response NotConversationOwner, db)"
proof (rule api_raises)
  show "uses_session req" using assms(4) by (cases req) simp_all
  have clean: "clean (open_session db)" using assms(1) by simp
  have vis: "visible (db_conversation (flushed (open_session db)) (ConversationId cid)) = Some c"
    using assms(6) by simp
  have "caller_controller env caller req (open_session db) = (Inl NotConversationOwner, open_session db)"
    using assms(4,5) ct.not_owner_refused [OF clean vis assms(7)]
    by (cases req) (simp_all add: controller_defs bindp_InlI thenp_InlI)
  moreover have "public_controller env req = None" using assms(4) by (cases req) simp_all
  ultimately show "handler env credentials req (open_session db) = (Inl NotConversationOwner, open_session db)"
    using assms(2,3) by (simp add: handler_caller)
qed

end
