(* ===== verification/Samples.thy ===== *)
theory Samples
  imports ApiFacts "HOL-Library.Countable"
begin

section \<open>Concrete inputs\<close>

text \<open>
  The database, environment and library instance the witnesses of the properties use: two users, a
  conversation of both with three messages, one live refresh token; libraries whose documented
  behaviour is checked here.
\<close>

instance claim :: countable
  by countable_datatype

text \<open>A token is its payload, coded as a length; a hash is the password behind a letter.\<close>

definition sample_backend :: security_backend where
  "sample_backend =
     \<lparr>jwt_encode = (\<lambda>payload key alg. replicate (to_nat payload) CHR ''x''),
      jwt_decode = (\<lambda>now token key alg.
        let payload = from_nat (length token)
        in case (map_of payload ''iat'', map_of payload ''exp'') of
             (Some (ClaimNumber issued), Some (ClaimNumber expiry)) \<Rightarrow>
               if issued \<le> int_timestamp now \<and> int_timestamp now < expiry then Inr payload else Inl PyJWTError
           | _ \<Rightarrow> Inl PyJWTError),
      sha256_hex = (\<lambda>s. s),
      argon2_hash = (\<lambda>p. Inr (CHR ''h'' # p)),
      argon2_verify = (\<lambda>h c. if h = CHR ''h'' # c then Inr True else Inl Argon2Error)\<rparr>"

lemma sample_jwt [simp]: "jwt_documented sample_backend key alg"
  by (simp add: jwt_documented_def sample_backend_def access_payload_def Let_def)

lemma sample_argon2 [simp]: "argon2_documented sample_backend"
  by (auto simp: argon2_documented_def sample_backend_def)

definition sample_settings :: settings where
  "sample_settings =
     \<lparr>set_environment = ''development'', set_log_level = ''INFO'', set_host = ''0.0.0.0'', set_port = 8000,
      set_database_url = ''postgresql'', set_redis_url = ''redis'',
      set_jwt_secret_key = ''0123456789abcdef0123456789abcdef'', set_jwt_algorithm = ''HS256'',
      set_access_token_ttl_seconds = 900, set_refresh_token_ttl_seconds = 1209600,
      set_ws_auth_timeout_seconds = 5000000, set_ws_rate_limit_messages = 20, set_ws_rate_limit_window_seconds = 10,
      set_shutdown_drain_timeout_seconds = 10000000, set_cors_allow_origins = []\<rparr>"

definition sample_env :: "datetime \<Rightarrow> uuid \<Rightarrow> string \<Rightarrow> api_env" where
  "sample_env now i secret =
     \<lparr>ae_settings = sample_settings, ae_backend = sample_backend, ae_now = now, ae_uuid = i, ae_secret = secret\<rparr>"

lemma sample_env_simps [simp]:
  "ae_settings (sample_env now i secret) = sample_settings"
  "ae_backend (sample_env now i secret) = sample_backend"
  "ae_now (sample_env now i secret) = now" "ae_uuid (sample_env now i secret) = i"
  "ae_secret (sample_env now i secret) = secret"
  by (simp_all add: sample_env_def)

text \<open>The token of a user, and the caller it names.\<close>

definition token_of :: "uuid \<Rightarrow> string option" where
  "token_of u = Some (access_token_of (sample_env 0 0 ''s'') (UserId u))"

lemma sample_caller: "get_current_user (sample_env 5 i ''s'') (token_of u) = Inr (UserId u)"
  using current_user_issued [of "sample_env 0 0 ''s''" "sample_env 5 i ''s''" "UserId u"]
  by (simp add: token_of_def jwt_of_def token_valid_at_def sample_settings_def timedelta_seconds_def int_timestamp_def)

definition sample_message :: "int \<Rightarrow> uuid option \<Rightarrow> string \<Rightarrow> message_row" where
  "sample_message n sender text =
     \<lparr>mm_id = n, mm_conversation_id = 10, mm_sender_id = sender,
      mm_role = (if sender = None then ''assistant'' else ''user''), mm_content = text, mm_created_at = n,
      mm_client_message_id = (if sender = None then None else Some (word_of_int n))\<rparr>"

definition sample_db :: database where
  "sample_db =
     \<lparr>db_users =
        [\<lparr>um_id = 1, um_email = ''a@x.io'', um_password_hash = ''hpw'', um_created_at = 0\<rparr>,
         \<lparr>um_id = 2, um_email = ''b@x.io'', um_password_hash = ''hpw'', um_created_at = 0\<rparr>],
      db_refresh_tokens =
        [\<lparr>tm_jti = ''j'', tm_user_id = 1, tm_token_hash = ''s'', tm_expires_at = 100, tm_revoked_at = None\<rparr>],
      db_conversations =
        [\<lparr>cm_id = 10, cm_owner_id = 1, cm_title = ''t'', cm_created_at = 0, cm_updated_at = 0, cm_deleted_at = None\<rparr>],
      db_participants =
        [\<lparr>pm_conversation_id = 10, pm_user_id = 1, pm_joined_at = 0\<rparr>,
         \<lparr>pm_conversation_id = 10, pm_user_id = 2, pm_joined_at = 0\<rparr>],
      db_messages = [sample_message 1 (Some 1) ''hi'', sample_message 2 None ''hello'', sample_message 3 (Some 2) ''yo''],
      db_message_seq = 3\<rparr>"

lemma sample_emails [simp]:
  "mk_email ''a@x.io'' = Inr (Email ''a@x.io'')" "mk_email ''b@x.io'' = Inr (Email ''b@x.io'')"
  "mk_email '' C@x.io'' = Inr (Email ''c@x.io'')" "mk_email ''c@x.io'' = Inr (Email ''c@x.io'')"
  by code_simp+

lemma sample_title [simp]: "mk_conversation_title ''t'' = Inr (ConversationTitle ''t'')"
  by code_simp

lemma sample_contents [simp]:
  "mk_message_content ''hi'' = Inr (MessageContent ''hi'')"
  "mk_message_content ''hello'' = Inr (MessageContent ''hello'')"
  "mk_message_content ''yo'' = Inr (MessageContent ''yo'')"
  by code_simp+

lemma sample_db_wf [simp]: "db_wf sample_db"
  by (simp add: db_wf_defs sample_db_def sample_message_def user_row_wf_def email_wf_def title_wf_def
      message_row_wf_def content_wf_def pm_key_def mm_key_def)

lemma sample_db_fields [simp]:
  "db_message_seq sample_db = 3"
  by (simp add: sample_db_def)

end
