(* ===== verification/RealtimeProperties.thy ===== *)
theory RealtimeProperties
  imports ClusterFacts Samples
begin

section \<open>Properties of the real-time side\<close>

text \<open>
  The rate limiter, the registry and the subscriber of a replica, the send flow and the fan-out.
\<close>

subsection \<open>The rate limiter\<close>

text \<open>C22: an attempt is let through exactly when fewer than \<open>limit\<close> attempts of the same user came
  before it in the same window: the counter in Redis, its key and its expiry together count per user
  and window.\<close>

theorem rate_limit_counts_per_window:
  assumes "0 < rl_limit rl" and "0 < rl_window_seconds rl" and "\<forall>a \<in> set attempts. 0 \<le> snd a"
    and "i < length attempts" and "attempts ! i = (u, now)"
  shows "rate_limit_run rl attempts fresh_counters ! i =
    Inr (int (length (filter (in_window rl u (window_of rl now)) (take i attempts))) < rl_limit rl)"
  using run_nth [OF fresh_counts assms] by simp

theorem rate_limit_counts_per_window_witness:
  "rate_limit_run \<lparr>rl_limit = 1, rl_window_seconds = 10\<rparr> [(7, 0), (8, 1), (7, 5000000), (7, 10000000)] fresh_counters ! 2
     = Inr False"
  using rate_limit_counts_per_window [of "\<lparr>rl_limit = 1, rl_window_seconds = 10\<rparr>"
      "[(7, 0), (8, 1), (7, 5000000), (7, 10000000)]" 2 7 5000000]
  by (simp add: in_window_def window_of_def int_timestamp_def)

text \<open>C33: whatever the attempts, a user has at most \<open>2 * limit\<close> of them let through in any interval of
  one window's length.\<close>

theorem rate_limit_burst:
  assumes "0 < rl_limit rl" and "0 < rl_window_seconds rl" and "\<forall>a \<in> set attempts. 0 \<le> snd a" and "0 \<le> t"
  shows "int (length (filter (\<lambda>a. fst a = u \<and> t \<le> snd a \<and> snd a < t + timedelta_seconds (rl_window_seconds rl))
      (admitted rl attempts fresh_counters))) \<le> 2 * rl_limit rl"
  using assms by (rule admitted_burst)

theorem rate_limit_burst_witness:
  "int (length (filter (\<lambda>a. fst a = 7 \<and> 9000000 \<le> snd a \<and> snd a < 9000000 + timedelta_seconds 10)
     (admitted \<lparr>rl_limit = 1, rl_window_seconds = 10\<rparr> [(7, 9000000), (7, 10000000), (7, 11000000)] fresh_counters))) \<le> 2"
  using rate_limit_burst [of "\<lparr>rl_limit = 1, rl_window_seconds = 10\<rparr>"
      "[(7, 9000000), (7, 10000000), (7, 11000000)]" 9000000 7]
  by simp

text \<open>C34: the limiter always answers; it lets the frame through when it is disabled, when Redis fails
  the call, and when the window is set to zero seconds, in which case nothing is ever limited.\<close>

theorem rate_limit_fails_open:
  "\<exists>b c'. rate_limit_allow rl now u c = (Inr b, c') \<and>
    (b \<or> \<not> (rl_limit rl \<le> 0 \<or> rl_window_seconds rl = 0 \<or>
       (\<exists>fault rest. rc_faults c = fault # rest \<and> fault \<noteq> Served)))"
proof -
  obtain b c' where r: "rate_limit_allow rl now u c = (Inr b, c')" using allow_returns by blast
  with allow_open [of rl c now u] have "b \<or> \<not> (rl_limit rl \<le> 0 \<or> rl_window_seconds rl = 0 \<or>
       (\<exists>fault rest. rc_faults c = fault # rest \<and> fault \<noteq> Served))"
    by auto
  with r show ?thesis by blast
qed

theorem rate_limit_fails_open_witness:
  "\<exists>c'. rate_limit_allow \<lparr>rl_limit = 1, rl_window_seconds = 0\<rparr> 0 7 fresh_counters = (Inr True, c')"
  using rate_limit_fails_open [of "\<lparr>rl_limit = 1, rl_window_seconds = 0\<rparr>" 0 7 fresh_counters] by auto

subsection \<open>The registry and the subscriber\<close>

definition sample_replica :: replica where
  "sample_replica = snd (join (ConversationId 10) 1 (snd (join (ConversationId 10) 0 (subscriber_start new_replica))))"

lemma sample_replica_eq:
  "sample_replica = (subscriber_start new_replica)\<lparr>rp_connections := [ConversationId 10 \<mapsto> [0, 1]],
     rp_pubsub := {conversation_channel (ConversationId 10)}, rp_channels := {conversation_channel (ConversationId 10)}\<rparr>"
  by (simp add: sample_replica_def join_def registry_join_def join_subscribe_def replica_manager_def replica_subscriber_def register_def
      subscribe_def pubsub_subscribe_def redis_call_def subscriber_start_def new_replica_def proc_simps)

lemma sample_replica_reachable: "replica_reachable sample_replica"
proof -
  obtain x r1 where 1: "join (ConversationId 10) 0 (subscriber_start new_replica) = (x, r1)"
    by (cases "join (ConversationId 10) 0 (subscriber_start new_replica)")
  obtain y r2 where 2: "join (ConversationId 10) 1 r1 = (y, r2)" by (cases "join (ConversationId 10) 1 r1")
  have "rp_registry (subscriber_start new_replica) = Unlocked" by (simp add: subscriber_start_def new_replica_def)
  moreover from this have "rp_registry r1 = Unlocked" using join_leave_frame(1) [OF 1] by (simp add: reader_frame_def)
  ultimately have "replica_step\<^sup>*\<^sup>* (subscriber_start new_replica) r2"
    using join_is_steps [OF _ 1] join_is_steps [OF _ 2] by (meson rtranclp_trans)
  then show ?thesis by (simp add: replica_reachable_def sample_replica_def 1 2 del: One_nat_def)
qed

text \<open>C15: in every state a replica can reach, whatever runs in between, whatever fails and whenever the
  pub/sub connection is lost, a conversation with a local socket is one the subscriber wants, but for a
  socket whose own join still awaits the subscription, and at the end of that join the socket is
  registered and the conversation wanted, or the socket is not registered. While the reader lives and
  the connection is up the conversation is subscribed on it; when the connection was lost, the
  reconnection subscribes it again, or ends the reader. No conversation is kept without sockets.\<close>

theorem live_conversations_are_subscribed:
  assumes "replica_reachable r" and "c \<in> members r cid"
  shows "rp_connections r cid' \<noteq> Some [] \<and>
    (if rp_registry r = Joining cid c
     then \<exists>x r'. join_subscribe replica_manager replica_subscriber cid c r = (x, r') \<and>
       (isl x \<and> c \<notin> members r' cid \<or> \<not> isl x \<and> c \<in> members r' cid \<and> conversation_channel cid \<in> rp_channels r')
     else conversation_channel cid \<in> rp_channels r \<and>
       (rp_reader r \<and> rp_link r = Up \<longrightarrow> conversation_channel cid \<in> rp_pubsub r) \<and>
       (reading r \<and> rp_link r = Rebuilding \<and> set order = rp_channels r \<longrightarrow>
          (\<exists>r'. reconnect_turn order r = r' \<and>
             (\<not> rp_reader r' \<or> rp_link r' = Up \<and> conversation_channel cid \<in> rp_pubsub r'))))"
proof -
  note inv = reachable_inv [OF assms(1)]
  have "rp_connections r cid' \<noteq> Some []" using invD(1) [OF inv] replica_okD by blast
  moreover have "\<exists>x r'. join_subscribe replica_manager replica_subscriber cid c r = (x, r') \<and>
      (isl x \<and> c \<notin> members r' cid \<or> \<not> isl x \<and> c \<in> members r' cid \<and> conversation_channel cid \<in> rp_channels r')"
  proof -
    obtain x r' where x: "join_subscribe replica_manager replica_subscriber cid c r = (x, r')"
      by (cases "join_subscribe replica_manager replica_subscriber cid c r")
    from rg.join_subscribe_step [OF invD(1) [OF inv] x] x assms(2) show ?thesis by (cases x) (auto simp: wanted_def)
  qed
  moreover have "conversation_channel cid \<in> rp_channels r" if "rp_registry r \<noteq> Joining cid c"
    using live_wanted [OF inv assms(2) that] by (simp add: wanted_def)
  moreover have "\<not> rp_reader (reconnect_turn order r) \<or> rp_link (reconnect_turn order r) = Up \<and>
      rp_channels r \<subseteq> rp_pubsub (reconnect_turn order r)"
    if "reading r" "rp_link r = Rebuilding" "set order = rp_channels r"
    using reconnect_facts [of order r] that
    by (cases "reconnect order r") (auto simp: reconnect_turn_def reading_def split: sum.split)
  ultimately show ?thesis using invD(4) [OF inv] by auto
qed

theorem live_conversations_are_subscribed_witness:
  "conversation_channel (ConversationId 10) \<in> rp_pubsub sample_replica"
  using live_conversations_are_subscribed [OF sample_replica_reachable, of 0 "ConversationId 10"]
  by (simp add: sample_replica_eq members_def sockets_of_def subscriber_start_def new_replica_def)

text \<open>Joining either registers the socket or, when the subscription fails, leaves the registrations
  and the wanted channels as they were; leaving removes the socket whether or not unsubscribing fails,
  and the channel with the last one.\<close>

lemma join_and_leave:
  assumes "replica_ok r" and "join cid c r = (x, r1)" and "leave cid c' r = (y, r2)"
  shows "members r1 = (if isl x then members r else (members r)(cid := insert c (members r cid))) \<and>
    wanted r1 = (if isl x \<or> members r cid \<noteq> {} then wanted r else insert cid (wanted r)) \<and>
    members r2 = (members r)(cid := members r cid - {c'}) \<and>
    wanted r2 = (if members r cid \<noteq> {} \<and> members r cid \<subseteq> {c'} then wanted r - {cid} else wanted r)"
  using rg.join_step [OF assms(1) assms(2) [unfolded join_def]] rg.leave_step [OF assms(1) assms(3) [unfolded leave_def]]
  by (cases x) simp_all

lemma join_and_leave_witness:
  "members (snd (join (ConversationId 10) 5 (new_replica\<lparr>rp_faults := [Refused]\<rparr>))) (ConversationId 10) = {}"
proof -
  let ?r = "new_replica\<lparr>rp_faults := [Refused]\<rparr>"
  have ok: "replica_ok ?r" by (simp add: replica_ok_def new_replica_def)
  obtain x r1 where j: "join (ConversationId 10) 5 ?r = (x, r1)" by (cases "join (ConversationId 10) 5 ?r")
  obtain y r2 where l: "leave (ConversationId 10) 5 ?r = (y, r2)" by (cases "leave (ConversationId 10) 5 ?r")
  have "x = Inl RedisError"
    using j by (auto simp: join_def registry_join_def join_subscribe_def replica_manager_def replica_subscriber_def register_def
      subscribe_def pubsub_subscribe_def redis_call_def new_replica_def proc_simps unregister_def)
  with join_and_leave [OF ok j l] j show ?thesis by (simp add: new_replica_def members_def sockets_of_def)
qed

text \<open>C35: a broadcast that finds every socket of a conversation dead drops them all and leaves the
  conversation wanted, and the leave of each of those sockets, which comes later, no longer
  unsubscribes: whatever happens to the replica then, it stays subscribed to a conversation it has no
  socket for, until another socket joins it.\<close>

theorem broadcast_leaves_subscription:
  assumes "replica_reachable r" and "members r cid \<noteq> {}" and "\<forall>c \<in> members r cid. so_dead (rp_sockets r c)"
    and "\<forall>c. rp_registry r \<noteq> Joining cid c"
    and "local_broadcast cid m r = (x, r1)" and "leave cid c r1 = (y, r2)"
  shows "members r2 cid = {} \<and> conversation_channel cid \<in> rp_channels r2 \<and>
    (\<forall>r3. (\<lambda>s s'. replica_step s s' \<and> members s' cid = {})\<^sup>*\<^sup>* r2 r3 \<longrightarrow>
       conversation_channel cid \<in> rp_channels r3 \<and>
       (rp_reader r3 \<and> rp_link r3 = Up \<longrightarrow> conversation_channel cid \<in> rp_pubsub r3))"
proof -
  note inv = reachable_inv [OF assms(1)]
  have live: "cid \<in> wanted r" using assms(2,4) live_wanted [OF inv] by blast
  have lock: "rp_registry r \<noteq> Unsubscribing cid" using invD(3) [OF inv] assms(2) by auto
  have inv1: "replica_inv r1" using broadcast_inv [OF inv assms(5)] by simp
  from broadcast_facts [OF invD(1) [OF inv], of cid m] assms(5) have
    mem: "members r1 = (members r)(cid := {c \<in> members r cid. writable (rp_sockets r c)})"
    and frame: "r1 = r\<lparr>rp_sockets := \<lambda>c. if c \<in> members r cid then push_frame (message_new m) (rp_sockets r c)
        else rp_sockets r c, rp_connections := rp_connections r1\<rparr>" by auto
  have "rp_channels r1 = rp_channels r" "rp_registry r1 = rp_registry r" by (subst frame, simp)+
  with live lock have start: "cid \<in> wanted r1 \<and> rp_registry r1 \<noteq> Unsubscribing cid" by (simp add: wanted_def)
  have none: "members r1 cid = {}" using mem assms(3) by (auto simp: writable_def)
  have r2: "r2 = r1" using leave_nobody(2) [OF invD(1) [OF inv1] none, of c] assms(6) by simp
  have "replica_inv r3 \<and> members r3 cid = {} \<and> cid \<in> wanted r3 \<and> rp_registry r3 \<noteq> Unsubscribing cid"
    if "(\<lambda>s s'. replica_step s s' \<and> members s' cid = {})\<^sup>*\<^sup>* r2 r3" for r3
    using that
  proof (induction rule: rtranclp_induct)
    case (step s s')
    with stays_wanted [of s s' cid] step_inv [of s s'] show ?case by blast
  qed (use inv1 none start r2 in simp)
  then show ?thesis using none start r2 invD(4) by (auto simp: wanted_def)
qed

lemma reachable_dies:
  "replica_reachable r \<Longrightarrow> replica_reachable (r\<lparr>rp_sockets := (rp_sockets r)(c := (rp_sockets r c)\<lparr>so_dead := True\<rparr>)\<rparr>)"
  unfolding replica_reachable_def by (erule rtranclp.rtrancl_into_rtrancl) (rule replica_step.dies)

lemma lose_connection_members: "members (lose_connection r) = members r"
  by (rule members_eqI) (simp add: lose_connection_def)

theorem broadcast_leaves_subscription_witness:
  "\<exists>r r2. replica_reachable r \<and> members r2 (ConversationId 10) = {} \<and>
     conversation_channel (ConversationId 10) \<in> rp_channels r2 \<and>
     conversation_channel (ConversationId 10) \<in> rp_channels (lose_connection r2) \<and>
     r2 = snd (leave (ConversationId 10) 0 (snd (local_broadcast (ConversationId 10) (hd (db_history sample_db (ConversationId 10))) r)))"
proof -
  let ?kill = "\<lambda>c r. r\<lparr>rp_sockets := (rp_sockets r)(c := (rp_sockets r c)\<lparr>so_dead := True\<rparr>)\<rparr>"
  let ?cid = "ConversationId 10" and ?m = "hd (db_history sample_db (ConversationId 10))"
  obtain r where r: "r = ?kill 1 (?kill 0 sample_replica)" by blast
  have reach: "replica_reachable r"
    unfolding r by (intro reachable_dies sample_replica_reachable)
  have mem: "members r ?cid = {0, 1}"
    by (simp add: r members_def sockets_of_def sample_replica_eq)
  have dead: "\<forall>c \<in> members r ?cid. so_dead (rp_sockets r c)"
    unfolding mem by (simp add: r)
  obtain x r1 where r1: "local_broadcast ?cid ?m r = (x, r1)" by (cases "local_broadcast ?cid ?m r")
  obtain y r2 where r2: "leave ?cid 0 r1 = (y, r2)" by (cases "leave ?cid 0 r1")
  from mem have "members r ?cid \<noteq> {}" by simp
  moreover have "\<forall>c. rp_registry r \<noteq> Joining ?cid c" by (simp add: r sample_replica_eq subscriber_start_def new_replica_def)
  ultimately have "members r2 ?cid = {} \<and> conversation_channel ?cid \<in> rp_channels r2 \<and>
      conversation_channel ?cid \<in> rp_channels (lose_connection r2)"
    using broadcast_leaves_subscription [OF reach _ dead _ r1 r2] mem
      r_into_rtranclp [of "\<lambda>s s'. replica_step s s' \<and> members s' ?cid = {}" r2 "lose_connection r2"]
    by (simp add: lose_connection_members replica_step.loses)
  with reach r1 r2 show ?thesis
    by (intro exI [of _ r] exI [of _ r2]) simp
qed

text \<open>C36: a read that fails is followed by a reconnection that subscribes every wanted channel again; but
  when Redis fails one of those subscriptions, the reader task ends and nothing starts it again, so
  the replica delivers nothing any more.\<close>

theorem failed_resubscription_stops_the_reader:
  assumes "reading r" and "set order = rp_channels r" and "rp_channels r \<noteq> {}"
  shows "(isl (fst (reconnect order r)) \<longrightarrow>
      (\<forall>r'. replica_step\<^sup>*\<^sup>* (run_turn order ReadRaised r) r' \<longrightarrow>
         \<not> rp_reader r' \<and> (\<forall>order' read. run_turn order' read r' = r'))) \<and>
    (\<not> isl (fst (reconnect order r)) \<longrightarrow>
      reading (run_turn order ReadRaised r) \<and> rp_pubsub (run_turn order ReadRaised r) = rp_channels r)"
proof -
  obtain x r1 where x: "reconnect order r = (x, r1)" by (cases "reconnect order r")
  note f = reconnect_facts [OF x]
  have run: "run_turn order ReadRaised r =
      (case x of Inl e \<Rightarrow> r1\<lparr>rp_link := Rebuilding, rp_reader := False, rp_failure := Some e\<rparr> | Inr _ \<Rightarrow> r1\<lparr>rp_link := Up\<rparr>)"
    using assms raised_turn [OF _ _ assms(3) x] by (simp add: reading_def)
  show ?thesis
  proof (cases x)
    case (Inl e)
    then have "\<not> rp_reader (run_turn order ReadRaised r)" by (simp add: run)
    then have "\<not> rp_reader r' \<and> (\<forall>order' read. run_turn order' read r' = r')"
      if "replica_step\<^sup>*\<^sup>* (run_turn order ReadRaised r) r'" for r'
      using steps_reader [OF that] turn_reader [of r'] by blast
    then show ?thesis by (simp only: x Inl fst_conv sum.disc simp_thms) blast
  next
    case (Inr u)
    with f x run assms(1,2) show ?thesis by (simp add: reading_def pubsub_only_def)
  qed
qed

theorem failed_resubscription_stops_the_reader_witness:
  "\<not> rp_reader (run_turn [conversation_channel (ConversationId 10)] ReadRaised
     (sample_replica\<lparr>rp_faults := [Served, Refused]\<rparr>))"
proof -
  let ?r = "sample_replica\<lparr>rp_faults := [Served, Refused]\<rparr>" and ?order = "[conversation_channel (ConversationId 10)]"
  have "isl (fst (reconnect ?order ?r))"
    by (simp add: reconnect_def pubsub_aclose_def pubsub_subscribe_def redis_call_def proc_simps)
  moreover have "reading ?r" "set ?order = rp_channels ?r"
    by (simp_all add: sample_replica_eq reading_def subscriber_start_def)
  ultimately show ?thesis using failed_resubscription_stops_the_reader [of ?r ?order] by auto
qed

end
