(* ===== verification/ConversationPolicy.thy ===== *)
theory ConversationPolicy
  imports ApiFacts SessionScoped
begin

section \<open>Who may do what to a conversation, and what it does\<close>

text \<open>
  The specification of the conversation requests of the API, written without the layers that implement
  them: \<open>refused\<close> says which request of which user is refused, and with which error; \<open>effect\<close> says what a
  request that is not refused does to the stored conversations. \<open>controller_outcome\<close> shows that the
  controllers, the use cases, the aggregate and the SQL repository together implement both.
\<close>

subsection \<open>The policy\<close>

definition owned_by :: "conversation \<Rightarrow> uuid \<Rightarrow> bool" where
  "owned_by c u = (c_owner_id c = OwnerId u)"

definition shared_with :: "conversation \<Rightarrow> uuid \<Rightarrow> bool" where
  "shared_with c u = (ParticipantId u \<in> c_participant_ids c)"

text \<open>Who an e-mail address belongs to; text that is no address belongs to nobody.\<close>

definition registered_id :: "database \<Rightarrow> string \<Rightarrow> uuid option" where
  "registered_id db email =
     (case mk_email email of
        Inl _ \<Rightarrow> None
      | Inr address \<Rightarrow> map_option (\<lambda>u. user_id_value (u_id u)) (db_registered db address))"

definition unless_missing :: "uuid \<Rightarrow> conversation option \<Rightarrow> (conversation \<Rightarrow> exn option) \<Rightarrow> exn option" where
  "unless_missing cid found f =
     (case found of None \<Rightarrow> Some (ConversationNotFound (ConversationId cid)) | Some c \<Rightarrow> f c)"

definition title_error :: "string \<Rightarrow> exn option" where
  "title_error title = (case mk_conversation_title title of Inl e \<Rightarrow> Some e | Inr _ \<Rightarrow> None)"

abbreviation seen :: "database \<Rightarrow> uuid \<Rightarrow> conversation option" where
  "seen db cid \<equiv> visible (db_conversation db (ConversationId cid))"

fun refused :: "database \<Rightarrow> uuid \<Rightarrow> api_request \<Rightarrow> exn option" where
  "refused db u (CreateConversation title) = title_error title"
| "refused db u (RenameConversation cid title) =
     unless_missing cid (seen db cid) (\<lambda>c.
       if \<not> owned_by c u then Some NotConversationOwner else title_error title)"
| "refused db u (DeleteConversation cid) =
     unless_missing cid (seen db cid) (\<lambda>c. if \<not> owned_by c u then Some NotConversationOwner else None)"
| "refused db u (RestoreConversation cid) =
     unless_missing cid (db_conversation db (ConversationId cid)) (\<lambda>c.
       if \<not> owned_by c u then Some NotConversationOwner else None)"
| "refused db u (GetHistory cid before limit) =
     unless_missing cid (seen db cid) (\<lambda>c. if \<not> shared_with c u then Some NotConversationParticipant else None)"
| "refused db u (AddParticipant cid email) =
     unless_missing cid (seen db cid) (\<lambda>c.
       if \<not> owned_by c u then Some NotConversationOwner
       else if registered_id db email = None then Some (ParticipantUserNotFound email) else None)"
| "refused db u (ListParticipants cid) =
     unless_missing cid (seen db cid) (\<lambda>c. if \<not> shared_with c u then Some NotConversationParticipant else None)"
| "refused db u (RemoveParticipant cid v) =
     unless_missing cid (seen db cid) (\<lambda>c.
       if \<not> owned_by c u \<and> u \<noteq> v then Some NotConversationOwner
       else if owned_by c v then Some CannotRemoveConversationOwner
       else if \<not> shared_with c v then Some NotConversationParticipant
       else None)"
| "refused db u _ = None"

subsection \<open>The effect\<close>

definition on_stored ::
    "uuid \<Rightarrow> (conversation \<Rightarrow> conversation) \<Rightarrow> (conversation_id \<Rightarrow> conversation option) \<Rightarrow>
     conversation_id \<Rightarrow> conversation option" where
  "on_stored cid f stored = stored(ConversationId cid := map_option f (stored (ConversationId cid)))"

fun effect ::
    "database \<Rightarrow> datetime \<Rightarrow> uuid \<Rightarrow> uuid \<Rightarrow> api_request \<Rightarrow> conversation_id \<Rightarrow> conversation option" where
  "effect db now new u (CreateConversation title) =
     (db_conversation db)(ConversationId new \<mapsto>
       \<lparr>c_id = ConversationId new, c_owner_id = OwnerId u, c_title = projr (mk_conversation_title title),
        c_created_at = now, c_updated_at = now, c_deleted_at = None, c_participant_ids = {ParticipantId u}\<rparr>)"
| "effect db now new u (RenameConversation cid title) =
     on_stored cid (\<lambda>c. c\<lparr>c_title := projr (mk_conversation_title title), c_updated_at := now\<rparr>)
       (db_conversation db)"
| "effect db now new u (DeleteConversation cid) =
     on_stored cid (\<lambda>c. c\<lparr>c_deleted_at := Some now, c_updated_at := now\<rparr>) (db_conversation db)"
| "effect db now new u (RestoreConversation cid) =
     on_stored cid (\<lambda>c. if c_deleted_at c = None then c else c\<lparr>c_deleted_at := None, c_updated_at := now\<rparr>)
       (db_conversation db)"
| "effect db now new u (AddParticipant cid email) =
     on_stored cid (\<lambda>c. c\<lparr>c_participant_ids :=
       insert (ParticipantId (the (registered_id db email))) (c_participant_ids c)\<rparr>) (db_conversation db)"
| "effect db now new u (RemoveParticipant cid v) =
     on_stored cid (\<lambda>c. c\<lparr>c_participant_ids := c_participant_ids c - {ParticipantId v}\<rparr>) (db_conversation db)"
| "effect db now new u _ = db_conversation db"

fun on_conversations :: "api_request \<Rightarrow> bool" where
  "on_conversations (CreateConversation _) = True"
| "on_conversations req = (names_conversation req \<noteq> None)"

subsection \<open>The controllers implement it\<close>

text \<open>What a controller does: it raises in the state it was given, or returns in one that can be committed.\<close>

definition implements ::
    "(response_body, session) op \<Rightarrow> database \<Rightarrow> exn option \<Rightarrow> (conversation_id \<Rightarrow> conversation option) \<Rightarrow> bool" where
  "implements m db refusal stored =
     (case refusal of
        Some e \<Rightarrow> m (open_session db) = (Inl e, open_session db)
      | None \<Rightarrow> \<exists>body s. m (open_session db) = (Inr body, s) \<and> ready_to_commit s \<and>
          db_conversation (flushed s) = stored)"

lemma implements_refuses: "m (open_session db) = (Inl e, open_session db) \<Longrightarrow> implements m db (Some e) stored"
  by (simp add: implements_def)

lemma implements_returns:
  "m (open_session db) = (Inr body, s) \<Longrightarrow> ready_to_commit s \<Longrightarrow> db_conversation (flushed s) = stored \<Longrightarrow>
    implements m db None stored"
  by (auto simp: implements_def)

lemma find_id_by_email_clean:
  assumes "clean s"
  shows "find_id_by_email email s = (Inr (registered_id (s_db s) email), s)"
  using user_get_by_email_clean [OF assms]
  by (cases "mk_email email")
    (auto simp: find_id_by_email_def registered_id_def bindp_InrI ret_def mk_email_def Let_def split: if_splits)

lemma on_stored_upd: "stored (ConversationId cid) = Some c \<Longrightarrow> on_stored cid f stored = stored(ConversationId cid \<mapsto> f c)"
  by (simp add: on_stored_def)

lemma on_stored_same: "stored (ConversationId cid) = Some c \<Longrightarrow> f c = c \<Longrightarrow> on_stored cid f stored = stored"
  by (auto simp: on_stored_def)

text \<open>A request on a missing conversation.\<close>

lemma implements_missing:
  assumes "db_wf db" and "names_conversation req = Some cid" and "\<forall>c. req \<noteq> RestoreConversation c"
    and "seen db cid = None"
  shows "caller_controller env caller req (open_session db) =
    (Inl (ConversationNotFound (ConversationId cid)), open_session db)"
proof -
  have clean: "clean (open_session db)" using assms(1) by simp
  have none: "visible (db_conversation (flushed (open_session db)) (ConversationId cid)) = None"
    using assms(4) by simp
  show ?thesis using assms(2,3)
    by (cases req) (simp_all add: controller_defs bindp_InlI thenp_InlI ct.missing_refused [OF clean none]
        get_conversation_history_def ct.require_missing [OF clean none] del: sql_simps)
qed

lemma seen_SomeD:
  assumes "seen db cid = Some c"
  shows "db_conversation db (ConversationId cid) = Some c"
    and "visible (db_conversation (flushed (open_session db)) (ConversationId cid)) = Some c"
  using visible_SomeD [OF assms] assms by simp_all

lemma create_implements:
  assumes "db_wf db" and "db_conversation db (ConversationId (ae_uuid env)) = None"
  shows "implements (api_create_conversation env caller title) db
    (refused db (user_id_value caller) (CreateConversation title))
    (effect db (ae_now env) (ae_uuid env) (user_id_value caller) (CreateConversation title))"
proof (cases "mk_conversation_title title")
  case (Inl e)
  then show ?thesis
    by (simp add: title_error_def implements_def api_create_conversation_def create_conversation_def throw_def)
next
  case (Inr t)
  obtain s' where "create_conversation sql_conversations (ae_now env) (ae_uuid env) (OwnerId (user_id_value caller)) title
      (open_session db) = (Inr (conversation_start (ConversationId (ae_uuid env)) (OwnerId (user_id_value caller)) t (ae_now env)), s')"
    "ready_to_commit s'"
    "db_conversation (flushed s') = (db_conversation db)(ConversationId (ae_uuid env) \<mapsto>
       conversation_start (ConversationId (ae_uuid env)) (OwnerId (user_id_value caller)) t (ae_now env))"
    using ct.create_ok [of "open_session db" title t "ae_uuid env" "ae_now env" "OwnerId (user_id_value caller)"] Inr assms
    by auto
  with Inr show ?thesis
    by (auto simp: title_error_def api_create_conversation_def bindp_InrI ret_def conversation_start_def
        intro!: implements_returns)
qed

lemma rename_implements:
  assumes "db_wf db" and "seen db cid = Some c"
  shows "implements (api_rename_conversation env caller cid title) db
    (refused db (user_id_value caller) (RenameConversation cid title))
    (effect db (ae_now env) new (user_id_value caller) (RenameConversation cid title))"
proof -
  have clean: "clean (open_session db)" using assms(1) by simp
  note c = seen_SomeD [OF assms(2)]
  show ?thesis
  proof (cases "owned_by c (user_id_value caller)")
    case False
    with ct.not_owner_refused(1) [OF clean c(2)] assms(2) show ?thesis
      by (simp add: unless_missing_def owned_by_def api_rename_conversation_def bindp_InlI implements_def)
  next
    case True
    then have owner: "c_owner_id c = OwnerId (user_id_value caller)" by (simp add: owned_by_def)
    show ?thesis
    proof (cases "mk_conversation_title title")
      case (Inl e)
      with True owner assms(2) ct.require_visible [OF clean c(2)] show ?thesis
        by (simp add: unless_missing_def title_error_def api_rename_conversation_def rename_conversation_def
            bindp_InrI bindp_InlI implements_def ensure_owned_by_def proc_simps del: sql_simps)
    next
      case (Inr t)
      from ct.rename_ok [OF clean c(2) owner Inr, of "ae_now env"] obtain s' where
        "rename_conversation sql_conversations (ae_now env) (ConversationId cid) (OwnerId (user_id_value caller)) title
           (open_session db) = (Inr (conversation_rename c t (ae_now env)), s')" "ready_to_commit s'"
        "db_conversation (flushed s') = (db_conversation db)(ConversationId cid \<mapsto> conversation_rename c t (ae_now env))"
        by auto
      with True Inr assms(2) c(1) show ?thesis
        by (auto simp: unless_missing_def title_error_def on_stored_upd conversation_rename_def api_rename_conversation_def
            bindp_InrI ret_def intro!: implements_returns)
    qed
  qed
qed

lemma delete_implements:
  assumes "db_wf db" and "seen db cid = Some c"
  shows "implements (api_delete_conversation env caller cid) db
    (refused db (user_id_value caller) (DeleteConversation cid))
    (effect db (ae_now env) new (user_id_value caller) (DeleteConversation cid))"
proof -
  have clean: "clean (open_session db)" using assms(1) by simp
  note c = seen_SomeD [OF assms(2)]
  show ?thesis
  proof (cases "owned_by c (user_id_value caller)")
    case False
    with ct.not_owner_refused(2) [OF clean c(2)] assms(2) show ?thesis
      by (simp add: unless_missing_def owned_by_def api_delete_conversation_def thenp_InlI implements_def)
  next
    case True
    then have "c_owner_id c = OwnerId (user_id_value caller)" by (simp add: owned_by_def)
    from ct.delete_ok [OF clean c(2) this, of "ae_now env"] obtain s' where
      "delete_conversation sql_conversations (ae_now env) (ConversationId cid) (OwnerId (user_id_value caller))
         (open_session db) = (Inr (), s')" "ready_to_commit s'"
      "db_conversation (flushed s') = (db_conversation db)
         (ConversationId cid \<mapsto> c\<lparr>c_deleted_at := Some (ae_now env), c_updated_at := ae_now env\<rparr>)"
      by auto
    with True assms(2) c(1) show ?thesis
      by (auto simp: unless_missing_def on_stored_upd api_delete_conversation_def thenp_InrI ret_def
          intro!: implements_returns)
  qed
qed

lemma restore_implements:
  assumes "db_wf db" and "db_conversation db (ConversationId cid) = Some c"
  shows "implements (api_restore_conversation env caller cid) db
    (refused db (user_id_value caller) (RestoreConversation cid))
    (effect db (ae_now env) new (user_id_value caller) (RestoreConversation cid))"
proof -
  have clean: "clean (open_session db)" using assms(1) by simp
  have view: "db_conversation (flushed (open_session db)) (ConversationId cid) = Some c" using assms(2) by simp
  show ?thesis
  proof (cases "owned_by c (user_id_value caller)")
    case False
    with ct.restore_not_owner [OF clean view] assms(2) show ?thesis
      by (simp add: unless_missing_def owned_by_def api_restore_conversation_def bindp_InlI implements_def)
  next
    case True
    then have "c_owner_id c = OwnerId (user_id_value caller)" by (simp add: owned_by_def)
    from ct.restore_ok [OF clean view this, of "ae_now env"] obtain s' where
      "restore_conversation sql_conversations (ae_now env) (ConversationId cid) (OwnerId (user_id_value caller))
         (open_session db) = (Inr (conversation_restore c (ae_now env)), s')" "ready_to_commit s'"
      "db_conversation (flushed s') = (db_conversation db)(ConversationId cid \<mapsto> conversation_restore c (ae_now env))"
      by auto
    with True assms(2) show ?thesis
      by (auto simp: unless_missing_def on_stored_upd conversation_restore_def api_restore_conversation_def
          bindp_InrI ret_def intro!: implements_returns)
  qed
qed

lemma history_implements:
  assumes "db_wf db" and "seen db cid = Some c"
  shows "implements (api_get_history caller cid before limit) db
    (refused db (user_id_value caller) (GetHistory cid before limit)) (db_conversation db)"
proof -
  have clean: "clean (open_session db)" using assms(1) by simp
  note c = seen_SomeD [OF assms(2)]
  show ?thesis
  proof (cases "shared_with c (user_id_value caller)")
    case False
    with assms(2) ct.require_visible [OF clean c(2)] show ?thesis
      by (simp add: unless_missing_def shared_with_def api_get_history_def get_conversation_history_def bindp_InrI
          bindp_InlI implements_def ensure_participant_def is_participant_def proc_simps del: sql_simps)
  next
    case True
    then have "ParticipantId (user_id_value caller) \<in> c_participant_ids c" by (simp add: shared_with_def)
    from st.history_page [OF clean c(2) this] obtain page where
      "get_conversation_history sql_conversations sql_messages (ConversationId cid)
         (ParticipantId (user_id_value caller)) (map_option MessageId before) (nat limit) (open_session db) =
       (Inr page, open_session db)"
      by (simp add: Let_def)
    with True assms(2) show ?thesis
      by (auto simp: unless_missing_def api_get_history_def bindp_InrI ret_def intro!: implements_returns)
  qed
qed

lemma participants_implements:
  assumes "db_wf db" and "seen db cid = Some c"
  shows "implements (api_list_participants caller cid) db
    (refused db (user_id_value caller) (ListParticipants cid)) (db_conversation db)"
proof -
  have clean: "clean (open_session db)" using assms(1) by simp
  note c = seen_SomeD [OF assms(2)]
  have list: "\<exists>ps. conversation_list_participants (ConversationId cid) (open_session db) = (Inr ps, open_session db)"
    by (simp add: conversation_list_participants_def bindp_InrI [OF select_empty] ret_def)
  show ?thesis
  proof (cases "shared_with c (user_id_value caller)")
    case False
    with assms(2) ct.require_visible [OF clean c(2)] show ?thesis
      by (simp add: unless_missing_def shared_with_def api_list_participants_def list_participants_def bindp_InrI
          bindp_InlI implements_def ensure_participant_def is_participant_def proc_simps del: sql_simps)
  next
    case True
    with list obtain ps where
      "list_participants sql_conversations (ConversationId cid) (ParticipantId (user_id_value caller)) (open_session db) =
       (Inr ps, open_session db)"
      using ct.require_visible [OF clean c(2)]
      by (auto simp: list_participants_def bindp_InrI thenp_InrI shared_with_def ensure_participant_def
          is_participant_def lift_def)
    with True assms(2) show ?thesis
      by (auto simp: unless_missing_def api_list_participants_def bindp_InrI ret_def intro!: implements_returns)
  qed
qed

lemma add_implements:
  assumes "db_wf db" and "seen db cid = Some c"
  shows "implements (api_add_participant env caller cid email) db
    (refused db (user_id_value caller) (AddParticipant cid email))
    (effect db (ae_now env) new (user_id_value caller) (AddParticipant cid email))"
proof -
  have clean: "clean (open_session db)" using assms(1) by simp
  note c = seen_SomeD [OF assms(2)]
  have dir: "find_id_by_email email (open_session db) = (Inr (registered_id db email), open_session db)"
    using find_id_by_email_clean [OF clean] by simp
  let ?add = "add_participant sql_conversations find_id_by_email (ae_now env) (ConversationId cid)
    (OwnerId (user_id_value caller)) email (open_session db)"
  show ?thesis
  proof (cases "owned_by c (user_id_value caller)")
    case False
    with ct.not_owner_refused(3) [OF clean c(2)] assms(2) show ?thesis
      by (simp add: unless_missing_def owned_by_def api_add_participant_def thenp_InlI implements_def)
  next
    case True
    then have owner: "c_owner_id c = OwnerId (user_id_value caller)" by (simp add: owned_by_def)
    show ?thesis
    proof (cases "registered_id db email")
      case None
      with ct.add_participant_unknown [OF clean c(2) owner, of find_id_by_email email "ae_now env"] True assms(2) dir
      show ?thesis
        by (simp add: unless_missing_def api_add_participant_def thenp_InlI implements_def)
    next
      case (Some v)
      with dir have dir': "find_id_by_email email (open_session db) = (Inr (Some v), open_session db)" by simp
      let ?c = "c\<lparr>c_participant_ids := insert (ParticipantId v) (c_participant_ids c)\<rparr>"
      have "\<exists>s'. ?add = (Inr (ParticipantId v), s') \<and> ready_to_commit s' \<and>
          db_conversation (flushed s') = (db_conversation db)(ConversationId cid \<mapsto> ?c)"
      proof (cases "ParticipantId v \<in> c_participant_ids c")
        case True
        then have "(db_conversation db)(ConversationId cid \<mapsto> ?c) = db_conversation db"
          using c(1) by (auto simp: insert_absorb)
        with ct.add_participant_again [where users = find_id_by_email and email = email and u = v,
            OF clean c(2) owner dir' True] show ?thesis by simp
      next
        case False
        from ct.add_participant_new [where users = find_id_by_email and email = email and u = v,
            OF clean c(2) owner dir' False, of "ae_now env"] show ?thesis by simp
      qed
      with True Some assms(2) c(1) show ?thesis
        by (auto simp: unless_missing_def on_stored_upd api_add_participant_def thenp_InrI ret_def
            intro!: implements_returns)
    qed
  qed
qed

lemma remove_implements:
  assumes "db_wf db" and "seen db cid = Some c"
  shows "implements (api_remove_participant caller cid v) db
    (refused db (user_id_value caller) (RemoveParticipant cid v))
    (effect db now new (user_id_value caller) (RemoveParticipant cid v))"
proof -
  have clean: "clean (open_session db)" using assms(1) by simp
  note c = seen_SomeD [OF assms(2)]
  let ?u = "ParticipantId (user_id_value caller)" and ?v = "ParticipantId v"
  let ?m = "remove_participant sql_conversations (ConversationId cid) ?u ?v (open_session db)"
  note refuses = ct.remove_refused [OF clean c(2), of ?u ?v]
  have rank: "c_owner_id c = OwnerId (participant_id_value ?u) \<longleftrightarrow> owned_by c (user_id_value caller)"
    "?u = ?v \<longleftrightarrow> user_id_value caller = v" "?v = owner_participant c \<longleftrightarrow> owned_by c v"
    "?v \<in> c_participant_ids c \<longleftrightarrow> shared_with c v"
    by (cases "c_owner_id c"; auto simp: owned_by_def shared_with_def owner_participant_def)+
  have raises: ?thesis if "?m = (Inl e, open_session db)"
      "refused db (user_id_value caller) (RemoveParticipant cid v) = Some e" for e
    using that by (simp add: api_remove_participant_def thenp_InlI implements_def del: refused.simps)
  consider "\<not> owned_by c (user_id_value caller)" "user_id_value caller \<noteq> v"
    | "owned_by c (user_id_value caller) \<or> user_id_value caller = v" "owned_by c v"
    | "owned_by c (user_id_value caller) \<or> user_id_value caller = v" "\<not> owned_by c v" "\<not> shared_with c v"
    | "owned_by c (user_id_value caller) \<or> user_id_value caller = v" "\<not> owned_by c v" "shared_with c v"
    by blast
  then show ?thesis
  proof cases
    case 1
    then have "?m = (Inl NotConversationOwner, open_session db)" using refuses(1) [unfolded rank] by blast
    with 1 assms(2) show ?thesis by (intro raises) (simp_all add: unless_missing_def)
  next
    case 2
    then have "?m = (Inl CannotRemoveConversationOwner, open_session db)" using refuses(2) [unfolded rank] by blast
    with 2 assms(2) show ?thesis by (intro raises) (auto simp: unless_missing_def)
  next
    case 3
    then have "?m = (Inl NotConversationParticipant, open_session db)" using refuses(3) [unfolded rank] by blast
    with 3 assms(2) show ?thesis by (intro raises) (auto simp: unless_missing_def)
  next
    case 4
    then obtain s' where s': "?m = (Inr (), s')" "ready_to_commit s'"
      "db_conversation (flushed s') = (db_conversation db)
         (ConversationId cid \<mapsto> c\<lparr>c_participant_ids := c_participant_ids c - {?v}\<rparr>)"
      using ct.remove_ok [OF clean c(2), of ?u ?v] rank by auto
    have "api_remove_participant caller cid v (open_session db) = (Inr NoContent, s')"
      using s'(1) by (simp add: api_remove_participant_def thenp_InrI ret_def)
    moreover have "refused db (user_id_value caller) (RemoveParticipant cid v) = None"
      using 4 assms(2) by (auto simp: unless_missing_def)
    moreover have "effect db now new (user_id_value caller) (RemoveParticipant cid v) = db_conversation (flushed s')"
      using c(1) s'(3) by (simp add: on_stored_upd)
    ultimately show ?thesis using s'(2) by (auto simp: implements_def)
  qed
qed

text \<open>A new conversation gets a random identifier, which must not be taken.\<close>

fun new_id_free :: "api_env \<Rightarrow> database \<Rightarrow> api_request \<Rightarrow> bool" where
  "new_id_free env db (CreateConversation _) = (db_conversation db (ConversationId (ae_uuid env)) = None)"
| "new_id_free env db _ = True"

text \<open>All requests together.\<close>

lemma controller_outcome:
  assumes "db_wf db" and "on_conversations req"
    and "new_id_free env db req"
  shows "implements (caller_controller env caller req) db (refused db (user_id_value caller) req)
    (effect db (ae_now env) (ae_uuid env) (user_id_value caller) req)"
proof (cases "names_conversation req")
  case None
  with assms(2) obtain title where "req = CreateConversation title" by (cases req) simp_all
  with create_implements [OF assms(1), of env] assms(3) show ?thesis by simp
next
  case (Some cid)
  show ?thesis
  proof (cases "\<exists>x. req = RestoreConversation x")
    case True
    with Some have req: "req = RestoreConversation cid" by auto
    show ?thesis
    proof (cases "db_conversation db (ConversationId cid)")
      case None
      with ct.get_including_deleted_law [of "open_session db" "ConversationId cid"] assms(1) req show ?thesis
        by (simp add: unless_missing_def implements_def api_restore_conversation_def restore_conversation_def
            require_conversation_def proc_simps del: sql_simps)
    next
      case (Some c)
      with restore_implements [OF assms(1) this] req show ?thesis by simp
    qed
  next
    case False
    show ?thesis
    proof (cases "seen db cid")
      case None
      with implements_missing [OF assms(1) Some _ None] False Some show ?thesis
        by (cases req) (simp_all add: implements_def unless_missing_def)
    next
      case (Some c)
      note rules = rename_implements [OF assms(1) Some] delete_implements [OF assms(1) Some]
        history_implements [OF assms(1) Some] participants_implements [OF assms(1) Some]
        add_implements [OF assms(1) Some] remove_implements [OF assms(1) Some]
      show ?thesis using rules False \<open>names_conversation req = Some cid\<close> by (cases req) simp_all
    qed
  qed
qed

lemma api_outcome:
  assumes "db_wf db" and "get_current_user env credentials = Inr caller" and "request_valid req"
    and "on_conversations req"
    and "new_id_free env db req"
  shows "case refused db (user_id_value caller) req of
      Some e \<Rightarrow> api env credentials req db = (error_response e, db)
    | None \<Rightarrow> rs_status (fst (api env credentials req db)) = success_status req \<and>
        db_conversation (snd (api env credentials req db)) =
          effect db (ae_now env) (ae_uuid env) (user_id_value caller) req"
proof -
  have used: "uses_session req" and priv: "public_controller env req = None"
    using assms(4) by (cases req; simp)+
  note out = controller_outcome [where caller = caller, OF assms(1,4,5)]
  note run = handler_caller [OF priv assms(3,2)]
  show ?thesis
  proof (cases "refused db (user_id_value caller) req")
    case None
    with out obtain body s where "handler env credentials req (open_session db) = (Inr body, s)" "ready_to_commit s"
      "db_conversation (flushed s) = effect db (ae_now env) (ae_uuid env) (user_id_value caller) req"
      by (auto simp: implements_def run)
    with None api_returns [OF used this(1,2)] show ?thesis by simp
  next
    case (Some e)
    with out have "handler env credentials req (open_session db) = (Inl e, open_session db)"
      by (simp add: implements_def run)
    with Some api_raises [OF used this] show ?thesis by simp
  qed
qed

subsection \<open>No request writes a message\<close>

definition the_messages :: "session \<Rightarrow> message_row list" where
  "the_messages s = db_messages (s_db s)"

lemma insert_participants_messages: "insert_participants ps db = Inr db' \<Longrightarrow> db_messages db' = db_messages db"
  by (induction ps arbitrary: db) (auto simp: bindr_def insert_participant_def split: sum.splits if_splits)

lemma insert_all_messages: "insert_all ps db = Inr db' \<Longrightarrow> db_messages db' = db_messages db"
proof (induction ps arbitrary: db)
  case (Cons p ps)
  have "insert_pending p db = Inr db1 \<Longrightarrow> db_messages db1 = db_messages db" for db1
    by (cases p) (auto simp: insert_user_def insert_refresh_token_def insert_conversation_def insert_participant_def
        dest!: insert_participants_messages split: if_splits)
  with Cons show ?case by (auto simp: bindr_def split: sum.splits)
qed simp

lemma flush_messages: "preserves the_messages session_flush"
  by (auto simp: preserves_def session_flush_def the_messages_def dest: insert_all_messages split: sum.splits)

lemma select_messages: "preserves the_messages (session_select q)"
  unfolding session_select_def by (intro preserves_rules flush_messages) (simp add: preserves_def the_messages_def)

lemma write_messages: "(\<And>db. db_messages (f db) = db_messages db) \<Longrightarrow> preserves the_messages (session_write f)"
  unfolding session_write_def by (intro preserves_rules flush_messages) (simp add: preserves_def the_messages_def)

lemma add_messages: "preserves the_messages (session_add p)"
  by (simp add: preserves_def session_add_def the_messages_def)

lemma merge_messages: "preserves the_messages (session_merge_refresh_token r)"
  by (simp add: preserves_def session_merge_refresh_token_def session_add_def the_messages_def)

lemmas message_frames = select_messages add_messages merge_messages

lemma repositories_messages:
  "preserves the_messages (user_add u)" "preserves the_messages (user_get_by_email e)"
  "preserves the_messages (refresh_token_add t)" "preserves the_messages (refresh_token_get_by_jti j)"
  "preserves the_messages (refresh_token_save t)"
  "preserves the_messages (conversation_create cid owner title created updated ps)"
  "preserves the_messages (conversation_update cid title updated deleted)"
  "preserves the_messages (conversation_get cid)" "preserves the_messages (conversation_get_including_deleted cid)"
  "preserves the_messages (conversation_list_for_participant p)"
  "preserves the_messages (conversation_insert_participant cid p joined)"
  "preserves the_messages (conversation_delete_participant cid p)"
  "preserves the_messages (conversation_list_participants cid)"
  "preserves the_messages (message_list_history cid before n)"
  unfolding user_add_def user_get_by_email_def refresh_token_add_def refresh_token_get_by_jti_def
    refresh_token_save_def conversation_create_def conversation_update_def conversation_get_def
    conversation_get_including_deleted_def conversation_list_for_participant_def conversation_insert_participant_def
    conversation_delete_participant_def conversation_list_participants_def message_list_history_def
  by (intro preserves_rules message_frames write_messages; simp)+

lemma requires_messages: "preserves the_messages m \<Longrightarrow> preserves the_messages (require_conversation m cid)"
  unfolding require_conversation_def by (intro preserves_rules) auto

lemma directory_messages: "preserves the_messages (find_id_by_email email)"
  unfolding find_id_by_email_def by (auto intro!: preserves_rules repositories_messages split: sum.split exn.split)

lemma remove_messages: "preserves the_messages (remove_participant sql_conversations cid u v)"
  unfolding remove_participant_def Let_def sql_simps
  by (intro preserves_rules requires_messages repositories_messages)

lemma add_participant_messages: "preserves the_messages (add_participant sql_conversations find_id_by_email now cid u email)"
  unfolding add_participant_def Let_def sql_simps
  by (intro preserves_rules requires_messages repositories_messages directory_messages)

lemma controller_messages: "preserves the_messages (caller_controller env caller req)"
  by (cases req; simp add: controller_defs create_conversation_def rename_conversation_def delete_conversation_def
      restore_conversation_def list_participants_def list_conversations_def get_conversation_history_def Let_def;
      intro preserves_rules repositories_messages requires_messages remove_messages add_participant_messages)

lemma register_messages: "preserves the_messages (register_user sql_users hasher now i email password)"
  unfolding register_user_def sql_simps by (intro preserves_rules repositories_messages)

lemma authenticate_messages:
  "preserves the_messages (authenticate_user sql_users sql_refresh_tokens hasher tokens now ttl email password)"
  unfolding authenticate_user_def sql_simps
  by (intro preserves_rules repositories_messages) (auto intro: preserves_rules split: exn.split)

lemma refresh_messages: "preserves the_messages (refresh_access_token sql_refresh_tokens tokens now ttl token)"
  unfolding refresh_access_token_def refresh_lookup_def refresh_rotate_def sql_simps
  by (intro preserves_rules repositories_messages)

lemma public_messages: "public_controller env req = Some m \<Longrightarrow> preserves the_messages m"
  by (cases req) (auto simp: signup_def login_def refresh_def
      intro!: preserves_rules register_messages authenticate_messages refresh_messages)

lemma handler_messages: "preserves the_messages (handler env credentials req)"
proof (cases "public_controller env req")
  case None
  then show ?thesis by (simp add: handler_def, intro preserves_rules controller_messages)
next
  case (Some m)
  with public_messages [OF Some] show ?thesis by (simp add: handler_def preserves_throw)
qed

lemma api_messages: "db_messages (snd (api env credentials req db)) = db_messages db"
proof -
  obtain r s where run: "handler env credentials req (open_session db) = (r, s)"
    by (cases "handler env credentials req (open_session db)")
  from preservesD [OF handler_messages run] have "db_messages (s_db s) = db_messages db" by (simp add: the_messages_def)
  with run show ?thesis
    by (auto simp: api_def transactional_route_def rollback_def session_commit_def session_flush_def
        dest: insert_all_messages split: sum.splits)
qed

end
