(* ===== verification/RequestFrames.thy ===== *)
theory RequestFrames
  imports ConversationPolicy
begin

section \<open>What a request leaves alone\<close>

text \<open>
  The tables the first requests of a client do not touch: a sign-up adds at most one user, a login writes
  refresh tokens alone, a new conversation leaves the users as they are, and the current user is read off
  the token. With them the facts of single requests carry over a sequence of requests.
\<close>

lemma user_found:
  assumes "db_wf db"
  shows "user_get_by_email a (open_session db) = (Inr (db_registered db a), open_session db)"
proof -
  have "clean (open_session db)" "s_db (open_session db) = db" using assms by simp_all
  then show ?thesis using user_get_by_email_clean [of "open_session db" a] by simp
qed

lemma signup_ids:
  assumes "db_wf db" and "api env credentials (Signup email password) db = (r, db')"
  shows "um_id ` set (db_users db') \<subseteq> insert (ae_uuid env) (um_id ` set (db_users db))"
  using assms(2)
  by (auto simp: api_session handler_def signup_def register_user_def unit_of_work_def proc_simps user_found [OF assms(1)]
      user_add_def session_add_def session_commit_def session_flush_def rollback_def
      insert_user_def user_to_model_def user_register_def split: sum.splits if_splits option.splits)

lemma login_frame:
  assumes "db_wf db" and "api env credentials (Login email password) db = (r, db')"
  shows "db_users db' = db_users db \<and> db_conversations db' = db_conversations db \<and>
    db_participants db' = db_participants db"
proof (cases "mk_email email")
  case (Inl e)
  then have "handler env credentials (Login email password) (open_session db) \<in>
      {(Inl InvalidCredentials, open_session db), (Inl ValidationError, open_session db)}"
    by (simp add: handler_def login_def bindp_def authenticate_malformed throw_def)
  then have "snd (api env credentials (Login email password) db) = db" by (auto simp: api_raises)
  with assms(2) show ?thesis by simp
next
  case (Inr a)
  with assms(2) show ?thesis
    by (auto simp: api_session handler_def login_def authenticate_user_def unit_of_work_def proc_simps user_found [OF assms(1)]
        refresh_token_add_def session_add_def session_commit_def session_flush_def rollback_def
        insert_refresh_token_def split: sum.splits if_splits option.splits)
qed

lemma insert_participants_users: "insert_participants ps db = Inr db' \<Longrightarrow> db_users db' = db_users db"
  by (induction ps arbitrary: db) (auto simp: bindr_def insert_participant_def split: sum.splits if_splits)

lemma create_frame:
  assumes "api env credentials (CreateConversation title) db = (r, db')"
  shows "db_users db' = db_users db"
  using assms
  by (auto simp: api_session handler_def api_create_conversation_def create_conversation_def unit_of_work_def proc_simps
      conversation_create_def session_add_def session_commit_def session_flush_def rollback_def Let_def
      insert_conversation_def dest!: insert_participants_users split: sum.splits if_splits)

lemma me_answered:
  assumes "get_current_user env credentials = Inr caller"
  shows "api env credentials Me db =
    (\<lparr>rs_status = 200, rs_www_authenticate = False, rs_body = CurrentUserResponse (user_id_value caller)\<rparr>, db)"
  using assms
  by (simp add: api_def transactional_route_def handler_def current_user_def proc_simps rollback_def open_session_def)

lemma same_users: "db_users db' = db_users db \<Longrightarrow> db_registered db' = db_registered db \<and> db_free_id db' = db_free_id db"
  by (simp add: db_registered_def db_free_id_def fun_eq_iff)

lemma same_conversations:
  "db_conversations db' = db_conversations db \<Longrightarrow> db_participants db' = db_participants db \<Longrightarrow>
    db_conversation db' = db_conversation db"
  by (simp add: db_conversation_def participants_of_def fun_eq_iff)

text \<open>The list of participants of a conversation holds exactly its members.\<close>

lemma participants_listed:
  assumes "db_wf db" and "get_current_user env credentials = Inr caller" and "seen db cid = Some c"
    and "shared_with c (user_id_value caller)"
  shows "\<exists>ps. api env credentials (ListParticipants cid) db =
      (\<lparr>rs_status = 200, rs_www_authenticate = False, rs_body = ParticipantsResponse ps\<rparr>, db) \<and>
    (\<lambda>p. ParticipantId (fst p)) ` set ps = c_participant_ids c"
proof -
  let ?s = "open_session db"
  have clean: "clean ?s" using assms(1) by simp
  note c = seen_SomeD [OF assms(3)]
  let ?rows = "sort_key pm_joined_at (participants_of db cid)"
  let ?found = "map (\<lambda>p. \<lparr>p_id = ParticipantId (pm_user_id p), p_joined_at = pm_joined_at p\<rparr>) ?rows"
  let ?ps = "map (\<lambda>p. (participant_id_value (p_id p), p_joined_at p)) ?found"
  have "conversation_list_participants (ConversationId cid) ?s = (Inr ?found, ?s)"
    by (simp add: conversation_list_participants_def bindp_InrI [OF select_empty] ret_def)
  then have "list_participants sql_conversations (ConversationId cid) (ParticipantId (user_id_value caller)) ?s = (Inr ?found, ?s)"
    using ct.require_visible [OF clean c(2)] assms(4)
    by (simp add: list_participants_def bindp_InrI thenp_InrI shared_with_def ensure_participant_def is_participant_def lift_def)
  then have "handler env credentials (ListParticipants cid) ?s = (Inr (ParticipantsResponse ?ps), ?s)"
    using assms(2) by (simp add: handler_def api_list_participants_def bindp_InrI ret_def)
  then have "api env credentials (ListParticipants cid) db =
      (\<lparr>rs_status = 200, rs_www_authenticate = False, rs_body = ParticipantsResponse ?ps\<rparr>, flushed ?s)"
    using api_returns [of "ListParticipants cid" env credentials db _ ?s] by (simp add: open_session_def)
  moreover have "(\<lambda>p. ParticipantId (fst p)) ` set ?ps = c_participant_ids c"
    using c(1) by (force simp: db_conversation_def conversation_of_row_def dest: find_Some_D)
  ultimately show ?thesis by (intro exI [of _ ?ps]) simp
qed

end
