(* ===== verification/StoreRun.thy ===== *)
theory StoreRun
  imports RequestFrames
begin

section \<open>Runs of the store\<close>

text \<open>
  Everything that writes to the database, one transaction after the other: the requests of the HTTP API
  and the messages the WebSocket sends through its session-scoped writer, the users' and the
  assistant's. A run keeps the invariant of the database, and takes no message out of a history.
\<close>

datatype store_event =
    Request api_env "string option" api_request
  | UserMessage datetime conversation_id sender_id string "client_message_id option"
  | AssistantMessage datetime conversation_id string

text \<open>The text of a message is a \<open>MessageContent\<close> before it gets to the writer, or there is no message.\<close>

fun store_step :: "store_event \<Rightarrow> database \<Rightarrow> database" where
  "store_step (Request env credentials req) db = snd (api env credentials req db)"
| "store_step (UserMessage now cid sender text key) db =
     (case mk_message_content text of
        Inl _ \<Rightarrow> db
      | Inr content \<Rightarrow> snd (mw_from_user (sql_message_writer now now) cid sender content key db))"
| "store_step (AssistantMessage now cid text) db =
     (case mk_message_content text of
        Inl _ \<Rightarrow> db
      | Inr content \<Rightarrow> snd (mw_from_assistant (sql_message_writer now now) cid content db))"

fun store_run :: "store_event list \<Rightarrow> database \<Rightarrow> database" where
  "store_run [] db = db"
| "store_run (event # events) db = store_run events (store_step event db)"

subsection \<open>The invariant\<close>

lemma store_step_wf: "db_wf db \<Longrightarrow> db_wf (store_step event db)"
  by (cases event)
    (auto simp: api_wf unit_of_work_keeps(1) keeps_post_user keeps_post_assistant mk_message_content_wf split: sum.split)

lemma store_run_wf: "db_wf db \<Longrightarrow> db_wf (store_run events db)"
  by (induction events arbitrary: db) (simp_all add: store_step_wf)

subsection \<open>Histories only grow\<close>

definition keeps_messages :: "database \<Rightarrow> database \<Rightarrow> bool" where
  "keeps_messages db db' = (set (db_messages db) \<subseteq> set (db_messages db'))"

lemma keeps_messages_history: "keeps_messages db db' \<Longrightarrow> set (db_history db cid) \<subseteq> set (db_history db' cid)"
  by (auto simp: keeps_messages_def db_history_def)

lemma message_create_keeps:
  assumes "s_new s = []" and "message_create cid sender role content at ck s = (r, s')"
  shows "s_new s' = [] \<and> keeps_messages (s_db s) (s_db s')"
  using assms by (auto simp: message_create_def session_insert_message_def insert_message_def Let_def
      keeps_messages_def proc_simps split: sum.splits prod.splits if_splits)

lemma unit_of_work_keeps_messages:
  assumes "m (open_session db) = (r, s)" and "s_new s = [] \<and> keeps_messages db (s_db s)"
  shows "keeps_messages db (snd (unit_of_work m db))"
proof (cases r)
  case (Inl e)
  with assms(1) unit_of_work_error [of m db e s] show ?thesis by (simp add: rollback_def keeps_messages_def)
next
  case (Inr x)
  with assms unit_of_work_ready [of m db x s] show ?thesis by simp
qed

lemma user_message_keeps:
  assumes "db_wf db"
  shows "keeps_messages db (snd (mw_from_user (sql_message_writer now later) cid sender content key db))"
proof -
  let ?m = "post_message_from_user sql_conversations sql_messages now cid sender content key"
  obtain r s where m: "?m (open_session db) = (r, s)" by (cases "?m (open_session db)")
  have "s_new s = [] \<and> keeps_messages db (s_db s)"
    using post_leaves [OF assms m] by (auto simp: keeps_messages_def dest!: message_create_keeps [rotated])
  with unit_of_work_keeps_messages [where m = ?m, OF m] show ?thesis by simp
qed

lemma assistant_message_keeps:
  "keeps_messages db (snd (mw_from_assistant (sql_message_writer now later) cid content db))"
proof -
  obtain r s where m: "message_create cid None ASSISTANT content later None (open_session db) = (r, s)"
    by (cases "message_create cid None ASSISTANT content later None (open_session db)")
  from message_create_keeps [OF _ m] have "s_new s = [] \<and> keeps_messages db (s_db s)" by simp
  with m show ?thesis
    using unit_of_work_keeps_messages [of "post_message_from_assistant sql_messages later cid content" db r s]
    by (simp add: post_message_from_assistant_def)
qed

lemma store_run_keeps: "db_wf db \<Longrightarrow> keeps_messages db (store_run events db)"
proof (induction events arbitrary: db)
  case (Cons event events)
  have "keeps_messages db (store_step event db)"
    using api_messages user_message_keeps [OF Cons.prems] assistant_message_keeps
    by (cases event) (auto simp: keeps_messages_def split: sum.split)
  with Cons.IH [OF store_step_wf [OF Cons.prems, of event]] show ?case by (auto simp: keeps_messages_def)
qed (simp add: keeps_messages_def)

text \<open>So what a history holds it holds for good, and a replay after a later message never returns it.\<close>

lemma replay_passes_over:
  assumes "db_wf db" and "m \<in> set (db_history db cid)" and "m_id m \<le> n"
  shows "m \<in> set (db_history (store_run events db) cid) \<and>
    (\<exists>ms. fst (sql_message_replayer cid (Some n) (store_run events db)) = Inr ms \<and> m \<notin> set ms)"
  using assms keeps_messages_history [OF store_run_keeps [OF assms(1), of events], of cid]
    sql_replay [OF store_run_wf [OF assms(1)], of cid "Some n" events]
  by (auto simp: id_above_def)

subsection \<open>What leaves the conversations alone\<close>

lemma refresh_frame:
  assumes "api env credentials (Refresh token) db = (r, db')"
  shows "db_conversations db' = db_conversations db \<and> db_participants db' = db_participants db"
  using assms
  by (auto simp: api_session handler_def refresh_def refresh_access_token_def refresh_lookup_def refresh_rotate_def
      unit_of_work_def proc_simps refresh_token_add_def refresh_token_save_def refresh_token_get_by_jti_def
      session_merge_refresh_token_def session_select_def session_add_def session_commit_def session_flush_def rollback_def
      insert_refresh_token_def split: sum.splits if_splits option.splits prod.splits)

end
