(* ===== verification/MessagingProperties.thy ===== *)
theory MessagingProperties
  imports StoreRun Samples
begin

section \<open>Properties of conversations and messages\<close>

text \<open>
  The claims about the messaging context over the SQL store: the invariant of every run of the store,
  replay and pagination, idempotent sends, membership and administration.
\<close>

subsection \<open>Runs of the store\<close>

text \<open>C1: from an empty database, whatever is written to it, one transaction after the other, by the requests
  the API is sent and by the messages users and the assistant send over WebSocket, in whatever order, by
  whomever and at whatever times, the database satisfies its invariant: unique keys and addresses, no
  dangling reference, rows that hold valid values, strictly increasing message ids, at most one message
  per conversation and client id, and every conversation's owner among its participants.\<close>

theorem api_run_invariant: "db_wf (store_run events empty_database)"
  by (rule store_run_wf) simp

text \<open>C12: a request answered with an error status, whatever raised it and wherever in the request, has
  left every table as it was; only the message sequence may have moved.\<close>

theorem api_error_changes_nothing:
  assumes "api env credentials req db = (r, db')" and "400 \<le> rs_status r"
  shows "db_users db' = db_users db \<and> db_refresh_tokens db' = db_refresh_tokens db \<and>
    db_conversations db' = db_conversations db \<and> db_participants db' = db_participants db \<and>
    db_messages db' = db_messages db"
  using api_error_tables [of env credentials req db] assms by auto

text \<open>The rows of a new conversation are refused at the commit when its id is taken.\<close>

theorem api_error_changes_nothing_witness:
  "\<exists>r db'. api (sample_env 5 10 ''s'') (token_of 1) (CreateConversation ''t'') sample_db = (r, db') \<and>
     rs_status r = 500 \<and> db_conversations db' = db_conversations sample_db \<and> db_participants db' = db_participants sample_db"
proof -
  let ?env = "sample_env 5 10 ''s''"
  obtain r db' where run: "api ?env (token_of 1) (CreateConversation ''t'') sample_db = (r, db')"
    by (cases "api ?env (token_of 1) (CreateConversation ''t'') sample_db")
  have "handler ?env (token_of 1) (CreateConversation ''t'') = api_create_conversation ?env (UserId 1) ''t''"
    by (simp add: handler_def bindp_def lift_def sample_caller text_field_def fun_eq_iff)
  then have "rs_status r = 500"
    using run
    by (auto simp: api_session api_create_conversation_def create_conversation_def unit_of_work_def proc_simps
        conversation_create_def session_add_def session_commit_def session_flush_def sample_db_def Let_def
        open_session_def insert_conversation_def conversation_start_def error_response_def)
  with api_error_changes_nothing [OF run] run show ?thesis by simp
qed

subsection \<open>History and replay\<close>

text \<open>C10: replay ends, and returns every message of the conversation above the given id, in the order of
  their ids, whatever the number of batches it takes; without an id it returns the whole history.\<close>

theorem replay_returns_every_missed_message:
  assumes "db_wf db"
  shows "\<exists>ms. replay_messages sql_messages cid after (open_session db) = Some (Inr ms, open_session db) \<and>
    ms = filter (\<lambda>m. case after of None \<Rightarrow> True | Some a \<Rightarrow> a < m_id m) (db_history db cid) \<and>
    sorted_wrt (<) (map m_id ms)"
proof -
  have "sorted_wrt (<) (map m_id (filter (id_above after) (db_history db cid)))"
    using assms by (intro sorted_wrt_filter_map db_history_sorted) (simp add: db_wf_def)
  with sql_replay_ends [OF assms, of cid after] show ?thesis
    by (auto simp: id_above_def [abs_def])
qed

theorem replay_returns_every_missed_message_witness:
  "map_option (map_sum id (map m_id) \<circ> fst)
     (replay_messages sql_messages (ConversationId 10) (Some (MessageId 1)) (open_session sample_db)) =
   Some (Inr [MessageId 2, MessageId 3])"
proof -
  have "map m_id (filter (\<lambda>m. MessageId 1 < m_id m) (db_history sample_db (ConversationId 10))) =
      [MessageId 2, MessageId 3]"
    by (simp add: db_history_def sample_db_def sample_message_def)
  with replay_returns_every_missed_message [of sample_db "ConversationId 10" "Some (MessageId 1)"]
  show ?thesis by auto
qed

text \<open>C28: following \<open>next_cursor\<close> from the newest page, with any page size, gives each message of the
  history once, newest first, and ends.\<close>

theorem history_pages_cover_the_history:
  assumes "db_wf db" and "member db cid u" and "0 < limit"
  shows "follow_cursors (length (db_history db cid) + 1)
      (\<lambda>before. fst (get_conversation_history sql_conversations sql_messages cid (ParticipantId u) before limit
         (open_session db))) None =
    Some (rev (db_history db cid))"
proof -
  from assms(2) obtain c where c: "visible (db_conversation db cid) = Some c" "ParticipantId u \<in> c_participant_ids c"
    by (rule memberE)
  have "clean (open_session db)" using assms(1) by simp
  from st.follow_cursors_complete [OF this _ c(2) assms(3), of cid None "length (db_history db cid) + 1"] c(1)
  show ?thesis by (simp add: id_below_simps del: follow_cursors.simps)
qed

lemma sample_history: "map m_id (db_history sample_db (ConversationId 10)) = [MessageId 1, MessageId 2, MessageId 3]"
  by (simp add: db_history_def sample_db_def sample_message_def)

lemma sample_conversation:
  "db_conversation sample_db (ConversationId 10) = Some \<lparr>c_id = ConversationId 10, c_owner_id = OwnerId 1,
     c_title = ConversationTitle ''t'', c_created_at = 0, c_updated_at = 0, c_deleted_at = None,
     c_participant_ids = {ParticipantId 1, ParticipantId 2}\<rparr>"
  by (simp add: db_conversation_def conversation_of_row_def participants_of_def sample_db_def)

lemma sample_member: "member sample_db (ConversationId 10) u \<longleftrightarrow> u = 1 \<or> u = 2"
  by (simp add: member_def sample_conversation)

theorem history_pages_cover_the_history_witness:
  "map_option (map m_id) (follow_cursors 4
      (\<lambda>before. fst (get_conversation_history sql_conversations sql_messages (ConversationId 10)
         (ParticipantId 2) before 2 (open_session sample_db))) None) =
   Some [MessageId 3, MessageId 2, MessageId 1]"
proof -
  have "length (db_history sample_db (ConversationId 10)) = 3"
    using sample_history by (metis length_map length_Cons list.size(3) numeral_3_eq_3)
  with history_pages_cover_the_history [of sample_db "ConversationId 10" 2 2] sample_history show ?thesis
    by (simp add: sample_member rev_map [symmetric])
qed

subsection \<open>Posting\<close>

text \<open>C7: a send is idempotent in its client message id. The first is stored and reported as new; every
  later one with the same id, by any participant and with any content, gives back the stored message,
  reports it as not new, and changes nothing, so the conversation holds one message with that id.\<close>

theorem send_is_idempotent:
  assumes "db_wf db" and "member db cid (sender_id_value sender)" and "content_wf content"
    and "find (has_client_id k) (db_history db cid) = None"
    and "mw_from_user (sql_message_writer now later) cid sender content (Some k) db = (r, db')"
    and "member db cid (sender_id_value sender')"
  shows "\<exists>m. r = Inr (m, True) \<and> db_history db' cid = db_history db cid @ [m] \<and>
    m_content m = content \<and> m_sender_id m = Some sender \<and>
    filter (has_client_id k) (db_history db' cid) = [m] \<and>
    mw_from_user (sql_message_writer now' later') cid sender' content' (Some k) db' = (Inr (m, False), db')"
proof -
  obtain db2 m where new: "mw_from_user (sql_message_writer now later) cid sender content (Some k) db =
      (Inr (m, True), db2)" "db_wf db2" "db_history db2 = (db_history db)(cid := db_history db cid @ [m])"
    "m = \<lparr>m_id = m_id m, m_conversation_id = cid, m_sender_id = Some sender, m_role = USER,
         m_content = content, m_created_at = now, m_client_message_id = Some k\<rparr>"
    using writer_new [OF assms(1-3), of "Some k" now later] assms(4) by auto
  then have db2: "db2 = db'" "r = Inr (m, True)" using assms(5) by auto
  have fields: "m_content m = content" "m_sender_id m = Some sender" "m_client_message_id m = Some k"
    by (subst new(4), simp)+
  have none: "filter (has_client_id k) (db_history db cid) = []"
    using assms(4) by (auto simp: find_None_iff filter_empty_conv)
  then have one: "filter (has_client_id k) (db_history db' cid) = [m]"
    using new(3) fields(3) by (simp add: db2 has_client_id_def)
  have "find (has_client_id k) (db_history db' cid) = Some m"
    using new(3) fields(3) assms(4) by (simp add: db2 find_append has_client_id_def)
  moreover have "member db' cid (sender_id_value sender')"
    using writer_frame [OF assms(1), of now later cid sender content "Some k"] assms(5,6)
    by (simp add: only_messages_views)
  ultimately have
    "mw_from_user (sql_message_writer now' later') cid sender' content' (Some k) db' = (Inr (m, False), db')"
    using writer_duplicate [of db' cid sender' k m] new(2) by (simp only: db2)
  with fields one new(3) show ?thesis by (auto simp: db2)
qed

theorem send_is_idempotent_witness:
  "\<exists>db'. snd (mw_from_user (sql_message_writer 9 9) (ConversationId 10) (SenderId 1) (MessageContent ''hi'')
       (Some (ClientMessageId 77)) sample_db) = db' \<and>
     length (filter (has_client_id (ClientMessageId 77)) (db_history db' (ConversationId 10))) = 1"
proof -
  obtain r db' where s: "mw_from_user (sql_message_writer 9 9) (ConversationId 10) (SenderId 1)
      (MessageContent ''hi'') (Some (ClientMessageId 77)) sample_db = (r, db')"
    by (cases "mw_from_user (sql_message_writer 9 9) (ConversationId 10) (SenderId 1)
      (MessageContent ''hi'') (Some (ClientMessageId 77)) sample_db")
  have none: "find (has_client_id (ClientMessageId 77)) (db_history sample_db (ConversationId 10)) = None"
    by (simp add: find_key_history sample_db_def sample_message_def)
  have content: "content_wf (MessageContent ''hi'')" by (simp add: content_wf_def)
  have member: "member sample_db (ConversationId 10) (sender_id_value (SenderId 1))" by (simp add: sample_member)
  obtain m where "filter (has_client_id (ClientMessageId 77)) (db_history db' (ConversationId 10)) = [m]"
    using send_is_idempotent [OF sample_db_wf member content none s, of "SenderId 2" 9 9 "MessageContent ''yo''"]
    by (auto simp: sample_member)
  with s show ?thesis by simp
qed

end
