(* ===== verification/SocketProperties.thy ===== *)
theory SocketProperties
  imports SocketProtocol
begin

section \<open>Properties of the WebSocket endpoint\<close>

text \<open>
  What follows from the automaton for every completed run, whatever the dependencies did: the calls
  that precede a frame sent or a message exchanged, and that a socket leaves what it joined.
\<close>

subsection \<open>What the phases remember\<close>

definition session_ok :: "ws_session \<Rightarrow> ws_event list \<Rightarrow> bool" where
  "session_ok sn tr =
     ((\<exists>claims. Decoded (sn_token sn) (Inr claims) \<in> set tr \<and> user_of sn = user_id_value (ac_user_id claims)) \<and>
      Ensured (ParticipantId (user_of sn)) (Inr ()) \<in> set tr)"

fun remembers :: "field_readers \<Rightarrow> phase \<Rightarrow> ws_event list \<Rightarrow> bool" where
  "remembers v (Identified claims token seq) tr = (Decoded token (Inr claims) \<in> set tr)"
| "remembers v (Admitted sn) tr = session_ok sn tr"
| "remembers v (Greeted sn) tr = session_ok sn tr"
| "remembers v (Replaying sn n) tr = (session_ok sn tr \<and> Joined (Inr ()) \<in> set tr)"
| "remembers v (Serving sn ms) tr = (session_ok sn tr \<and> Joined (Inr ()) \<in> set tr)"
| "remembers v (Pending sn raw) tr =
     (session_ok sn tr \<and> Joined (Inr ()) \<in> set tr \<and>
      (raw = JNull \<or> (\<exists>pre. tr = pre @ [Received (Inr raw)])))"
| "remembers v (Limited sn) tr = (session_ok sn tr \<and> Joined (Inr ()) \<in> set tr)"
| "remembers v (Counted sn raw) tr =
     (session_ok sn tr \<and> Joined (Inr ()) \<in> set tr \<and>
      (raw = JNull \<or> (\<exists>pre. tr = pre @ [Received (Inr raw), Allowed (user_of sn) (Inr True)])))"
| "remembers v (Checked sn content key) tr =
     (session_ok sn tr \<and> Joined (Inr ()) \<in> set tr \<and>
      (\<exists>pre raw claims. read_message v raw = Inr (content, key) \<and>
         tr = pre @ [Received (Inr raw), Allowed (user_of sn) (Inr True), Decoded (sn_token sn) (Inr claims)]))"
| "remembers v (Acking sn m) tr = (session_ok sn tr \<and> Joined (Inr ()) \<in> set tr)"
| "remembers v (Failed sn) tr = (session_ok sn tr \<and> Joined (Inr ()) \<in> set tr)"
| "remembers v _ tr = True"

lemma session_ok_mono: "session_ok sn tr \<Longrightarrow> session_ok sn (tr @ es)"
  by (auto simp: session_ok_def)

lemma remembers_step:
  assumes "remembers v p tr" and "advance v p e = Some p'"
  shows "remembers v p' (tr @ [e])"
  using assms
  by (cases p; cases e)
    (auto simp: advance_def on_defs session_of_def user_of_def session_ok_def
      split: sum.splits if_splits option.splits list.splits prod.splits)

lemma remembers_phases: "phases v Fresh tr = Some p \<Longrightarrow> remembers v p tr"
proof (induction tr arbitrary: p rule: rev_induct)
  case Nil
  then show ?case by auto
next
  case (snoc e tr)
  then obtain q where "phases v Fresh tr = Some q" "advance v q e = Some p"
    by (auto simp: phases_append split: option.splits)
  with snoc.IH remembers_step show ?case by blast
qed

definition joins_left :: "phase \<Rightarrow> ws_event list \<Rightarrow> bool" where
  "joins_left p tr =
     (count_list tr (Joined (Inr ())) = (if joined p \<or> p = Gone then 1 else 0) \<and>
      count_list tr Left = (if p = Gone then 1 else 0) \<and> (p = Gone \<longrightarrow> last tr = Left))"

lemma joins_left_step:
  assumes "joins_left p tr" and "advance v p e = Some p'"
  shows "joins_left p' (tr @ [e])"
  using assms
  by (cases p; cases e)
    (auto simp: joins_left_def advance_def on_defs split: sum.splits if_splits option.splits list.splits prod.splits)

lemma joins_left_phases: "phases v Fresh tr = Some p \<Longrightarrow> joins_left p tr"
proof (induction tr arbitrary: p rule: rev_induct)
  case Nil
  then show ?case by (auto simp: joins_left_def)
next
  case (snoc e tr)
  then obtain q where "phases v Fresh tr = Some q" "advance v q e = Some p"
    by (auto simp: phases_append split: option.splits)
  with snoc.IH joins_left_step show ?case by blast
qed

lemma phases_splitE:
  assumes "phases v Fresh (pre @ e # post) = Some p"
  obtains q q' where "phases v Fresh pre = Some q" and "advance v q e = Some q'"
  using assms by (auto simp: phases_append split: option.splits)

subsection \<open>A client for the witnesses\<close>

definition take_input :: "(json, json list) op" where
  "take_input inbox = (case inbox of [] \<Rightarrow> (Inl WebSocketDisconnect, []) | j # rest \<Rightarrow> (Inr j, rest))"

definition sample_deps :: "json list ws_deps" where
  "sample_deps =
     \<lparr>ws_accept = ret (), ws_receive_first = take_input, ws_receive = take_input, ws_close = (\<lambda>_. ret ()),
      ws_send = (\<lambda>_. ret ()), ws_connection_close = (\<lambda>_. ret ()),
      ws_decode_access = (\<lambda>token. if token = ''tok'' then ret \<lparr>ac_user_id = UserId 1\<rparr> else throw InvalidAccessToken),
      ws_ensure = (\<lambda>_ _. ret ()), ws_join = (\<lambda>_. ret ()), ws_leave = (\<lambda>_. ret ()),
      ws_replay_since = (\<lambda>_ _. ret []), ws_allow = (\<lambda>_. ret True),
      ws_exchange = (\<lambda>_ _ _ _. throw RedisError)\<rparr>"

definition sample_readers :: field_readers where
  "sample_readers =
     \<lparr>read_int = (\<lambda>j. case j of JInt n \<Rightarrow> Some n | _ \<Rightarrow> None),
      read_uuid = (\<lambda>j. case j of JText s \<Rightarrow> uuid_parse s | _ \<Rightarrow> None)\<rparr>"

definition sample_auth :: json where
  "sample_auth = JObject [(''type'', JText ''auth''), (''payload'', JObject [(''token'', JText ''tok'')])]"

definition sample_send :: json where
  "sample_send = JObject [(''type'', JText ''message.send''), (''payload'', JObject [(''content'', JText ''hi'')])]"

definition sample_trace :: "ws_event list" where
  "sample_trace =
     [Accepted, Received (Inr sample_auth), Decoded ''tok'' (Inr \<lparr>ac_user_id = UserId 1\<rparr>),
      Ensured (ParticipantId 1) (Inr ()), Sent auth_ok, Joined (Inr ()),
      Received (Inr sample_send), Allowed 1 (Inr True), Decoded ''tok'' (Inr \<lparr>ac_user_id = UserId 1\<rparr>),
      Exchanged (SenderId 1) (MessageContent ''hi'') None (Inl RedisError),
      Sent (error_frame ''failed to handle message''), Received (Inl WebSocketDisconnect), Left]"

definition sample_session :: ws_session where
  "sample_session = \<lparr>sn_sender_id = SenderId 1, sn_token = ''tok'', sn_last_seen_seq = None\<rparr>"

lemma sample_open:
  "ws_open sample_readers (traced sample_deps) (ConversationId 10) ([sample_auth, sample_send], []) =
     (Inr (Some sample_session), [sample_send], take 6 sample_trace)"
  by code_simp

lemma sample_content: "mk_message_content ''hi'' = Inr (MessageContent ''hi'')"
  by code_simp

lemma sample_read: "read_message sample_readers sample_send = Inr (MessageContent ''hi'', None)"
  by (simp add: read_message_def validate_send_frame_def read_frame_def sample_send_def optional_field_def
      bindr_def sample_content)

lemmas sample_simps = recording_def bindp_def thenp_def try_except_def ret_def throw_def sample_deps_def take_input_def

lemma sample_steps:
  "receive_step sample_readers (traced sample_deps) (ConversationId 10) sample_session ([sample_send], take 6 sample_trace) =
     (Inr Continue, [], take 11 sample_trace)"
  "receive_step sample_readers (traced sample_deps) (ConversationId 10) sample_session ([], take 11 sample_trace) =
     (Inl WebSocketDisconnect, [], take 12 sample_trace)"
proof -
  have "sample_send \<noteq> JNull" by (simp add: sample_send_def)
  then show "receive_step sample_readers (traced sample_deps) (ConversationId 10) sample_session
      ([sample_send], take 6 sample_trace) = (Inr Continue, [], take 11 sample_trace)"
    by (simp add: receive_step_def receive_frame_def handle_message_def token_still_valid_def sample_read sample_simps sample_session_def sample_trace_def)
qed (simp add: receive_step_def receive_frame_def sample_simps sample_trace_def is_value_error_def)

lemma sample_finish:
  "ws_finish (traced sample_deps) (ConversationId 10) (Inl WebSocketDisconnect) ([], take 12 sample_trace) =
     (Inr (), [], sample_trace)"
  by code_simp

lemma sample_run:
  "conversation_ws sample_readers (traced sample_deps) (ConversationId 10) ([sample_auth, sample_send], []) =
     Some (Inr (), [], sample_trace)"
proof -
  let ?loop = "receive_loop sample_readers (traced sample_deps) (ConversationId 10) sample_session"
  have loop2: "?loop ([], take 11 sample_trace) = Some (Inl WebSocketDisconnect, [], take 12 sample_trace)"
    by (subst receive_loop.simps) (simp only: sample_steps prod.case sum.case)
  have loop1: "?loop ([sample_send], take 6 sample_trace) = Some (Inl WebSocketDisconnect, [], take 12 sample_trace)"
    by (subst receive_loop.simps) (simp only: sample_steps prod.case sum.case loop_control.case loop2)
  have "sn_last_seen_seq sample_session = None" by (simp add: sample_session_def)
  then have serve: "ws_serve sample_readers (traced sample_deps) (ConversationId 10) sample_session
      ([sample_send], take 6 sample_trace) = Some (Inl WebSocketDisconnect, [], take 12 sample_trace)"
    by (simp only: ws_serve_def replay_missed_def option.case ret_def prod.case sum.case loop1)
  show ?thesis by (simp only: conversation_ws_def sample_open prod.case sum.case option.case serve
      option.map sample_finish)
qed

subsection \<open>The properties\<close>

text \<open>C18: every run of the endpoint that ends is a run of the automaton that ends with the socket not
  registered for the conversation: the order of authentication, admission, greeting, joining, replay
  and the receive loop, the answer every frame gets, the close code of every refusal, and leaving.\<close>

theorem socket_follows_protocol:
  assumes "conversation_ws v d cid w = Some (r, w')"
  shows "\<exists>tr p. conversation_ws v (traced d) cid (w, []) = Some (r, w', tr) \<and>
    phases v Fresh tr = Some p \<and> \<not> joined p"
proof -
  obtain tr where tr: "conversation_ws v (traced d) cid (w, []) = Some (r, w', tr)"
    using conversation_traced [OF assms, of "[]"] by (elim exE)
  from conversation_phase [OF tr] tr show ?thesis by (elim exE conjE) (intro exI conjI)
qed

lemma sample_run_plain:
  "conversation_ws sample_readers sample_deps (ConversationId 10) [] = Some (Inr (), [])"
proof -
  have "ws_open sample_readers sample_deps (ConversationId 10) [] = (Inr None, [])" by code_simp
  then show ?thesis by (simp add: conversation_ws_def)
qed

theorem socket_follows_protocol_witness:
  "\<exists>tr p. phases sample_readers Fresh tr = Some p \<and> \<not> joined p \<and>
     conversation_ws sample_readers (traced sample_deps) (ConversationId 10) ([], []) = Some (Inr (), [], tr)"
  using socket_follows_protocol [OF sample_run_plain] by blast

text \<open>C21: nothing is sent to a socket, and nothing is exchanged for it, before its token has been accepted
  and the user the token names has been found to be a participant of the conversation.\<close>

theorem served_only_when_admitted:
  assumes "conversation_ws v (traced d) cid (w, []) = Some (r, w', pre @ e # post)"
    and "\<exists>frame sender content key out. e = Sent frame \<or> e = Exchanged sender content key out"
  shows "\<exists>token claims. Decoded token (Inr claims) \<in> set pre \<and>
    Ensured (ParticipantId (user_id_value (ac_user_id claims))) (Inr ()) \<in> set pre"
proof -
  obtain p where "phases v Fresh (pre @ e # post) = Some p" using conversation_phase [OF assms(1)] by blast
  then obtain q q' where q: "phases v Fresh pre = Some q" "advance v q e = Some q'" by (rule phases_splitE)
  from remembers_phases [OF q(1)] have "\<exists>sn. session_ok sn pre"
    using q(2) assms(2)
    by (cases q) (auto simp: advance_def on_sent_def on_exchanged_def split: if_splits)
  then obtain sn where "session_ok sn pre" ..
  then show ?thesis unfolding session_ok_def by metis
qed

theorem served_only_when_admitted_witness:
  "\<exists>token claims. Decoded token (Inr claims) \<in> set (take 4 sample_trace) \<and>
     Ensured (ParticipantId (user_id_value (ac_user_id claims))) (Inr ()) \<in> set (take 4 sample_trace)"
proof -
  have "sample_trace = take 4 sample_trace @ Sent auth_ok # drop 5 sample_trace" by (simp add: sample_trace_def)
  with sample_run have "conversation_ws sample_readers (traced sample_deps) (ConversationId 10)
      ([sample_auth, sample_send], []) = Some (Inr (), [], take 4 sample_trace @ Sent auth_ok # drop 5 sample_trace)"
    by simp
  from served_only_when_admitted [OF this] show ?thesis by blast
qed

text \<open>C3: a message reaches the exchange only as the content of the frame just received, from the token's
  user, after the rate limiter let the frame through and the token was checked again.\<close>

theorem exchange_is_guarded:
  assumes "conversation_ws v (traced d) cid (w, []) = Some (r, w', pre @ Exchanged sender content key out # post)"
  shows "\<exists>before raw token claims claims'.
    pre = before @ [Received (Inr raw), Allowed (sender_id_value sender) (Inr True), Decoded token (Inr claims)] \<and>
    read_message v raw = Inr (content, key) \<and>
    Decoded token (Inr claims') \<in> set pre \<and> sender = SenderId (user_id_value (ac_user_id claims')) \<and>
    Joined (Inr ()) \<in> set pre"
proof -
  let ?e = "Exchanged sender content key out"
  obtain p where "phases v Fresh (pre @ ?e # post) = Some p" using conversation_phase [OF assms] by blast
  then obtain q q' where q: "phases v Fresh pre = Some q" "advance v q ?e = Some q'" by (rule phases_splitE)
  from q(2) obtain sn where sn: "q = Checked sn content key" "sender = sn_sender_id sn"
    by (cases q) (auto simp: advance_def on_exchanged_def split: if_splits)
  with remembers_phases [OF q(1)] obtain before raw claims claims' where
    h: "read_message v raw = Inr (content, key)" "Joined (Inr ()) \<in> set pre"
      "pre = before @ [Received (Inr raw), Allowed (user_of sn) (Inr True), Decoded (sn_token sn) (Inr claims)]"
    and c: "Decoded (sn_token sn) (Inr claims') \<in> set pre" "user_of sn = user_id_value (ac_user_id claims')"
    by (auto simp: session_ok_def)
  have sender: "sender = SenderId (user_of sn)" using sn by (simp add: user_of_def)
  from h(3) sender have "pre = before @ [Received (Inr raw), Allowed (sender_id_value sender) (Inr True),
      Decoded (sn_token sn) (Inr claims)]" by simp
  moreover have "sender = SenderId (user_id_value (ac_user_id claims'))" using sender c(2) by simp
  ultimately show ?thesis using h(1,2) c(1) by blast
qed

theorem exchange_is_guarded_witness:
  "\<exists>before raw. take 9 sample_trace =
     before @ [Received (Inr raw), Allowed 1 (Inr True), Decoded ''tok'' (Inr \<lparr>ac_user_id = UserId 1\<rparr>)]"
proof -
  have "sample_trace = take 9 sample_trace @
      Exchanged (SenderId 1) (MessageContent ''hi'') None (Inl RedisError) # drop 10 sample_trace"
    by (simp add: sample_trace_def)
  with sample_run have "conversation_ws sample_readers (traced sample_deps) (ConversationId 10)
      ([sample_auth, sample_send], []) = Some (Inr (), [], take 9 sample_trace @
        Exchanged (SenderId 1) (MessageContent ''hi'') None (Inl RedisError) # drop 10 sample_trace)"
    by simp
  from exchange_is_guarded [OF this] show ?thesis by (auto simp: sample_trace_def)
qed

text \<open>C9: a socket is registered at most once, and leaves exactly when it was, as the last thing the
  endpoint does, however the run ended.\<close>

theorem leaves_what_it_joined:
  assumes "conversation_ws v (traced d) cid (w, []) = Some (r, w', tr)"
  shows "count_list tr Left = count_list tr (Joined (Inr ())) \<and> count_list tr Left \<le> 1 \<and>
    (Joined (Inr ()) \<in> set tr \<longrightarrow> last tr = Left)"
proof -
  obtain p where p: "phases v Fresh tr = Some p" "\<not> joined p" using conversation_phase [OF assms] by blast
  from joins_left_phases [OF p(1)] p(2) show ?thesis
    by (auto simp: joins_left_def count_list_0_iff split: if_splits)
qed

theorem leaves_what_it_joined_witness: "last sample_trace = Left \<and> count_list sample_trace Left = 1"
  using leaves_what_it_joined [OF sample_run] by (simp add: sample_trace_def)

end
