(* ===== verification/ClusterProperties.thy ===== *)
theory ClusterProperties
  imports RealtimeProperties MessagingProperties SocketProperties
begin

section \<open>Properties of the whole real-time path\<close>

text \<open>
  The endpoint wired to the SQL store, the Redis broadcaster, the replicas and the rate limiter: what a
  send does to the store and to every socket of the conversation, what an acknowledgement means, that
  the endpoint ends with its client, and that it refuses who may not listen.
\<close>

definition sample_cluster :: cluster where
  "sample_cluster =
     \<lparr>cl_database = sample_db, cl_counters = fresh_counters, cl_replica = (\<lambda>_. sample_replica), cl_inbox = (\<lambda>_. []),
      cl_publish_faults = [], cl_published = [], cl_clock = (\<lambda>_. 5), cl_reads = 0, cl_input = (\<lambda>_ _. [])\<rparr>"

lemma sample_cluster_simps [simp]:
  "cl_database sample_cluster = sample_db" "cl_replica sample_cluster i = sample_replica"
  "cl_inbox sample_cluster i = []" "cl_published sample_cluster = []" "cl_clock sample_cluster n = 5"
  by (simp_all add: sample_cluster_def)

subsection \<open>The send flow\<close>

text \<open>C13: whatever fails, a message is published only after it is stored: what an exchange publishes is
  an initial part of what it adds to the conversation. When it succeeds it has stored and published
  the sender's message and then the assistant's reply to it, or, for an idempotency key already used,
  returned the stored message and published nothing.\<close>

theorem exchange_publishes_what_is_stored:
  assumes "db_wf (cl_database w)" and "content_wf content"
    and "provide_message_exchange cid sender content key w = (r, w')"
  shows "\<exists>new pub. db_wf (cl_database w') \<and>
    db_history (cl_database w') = (db_history (cl_database w))(cid := db_history (cl_database w) cid @ new) \<and>
    cl_published w' = cl_published w @ map (Pair cid) pub \<and> prefix pub new \<and>
    (\<forall>m. r = Inr m \<longrightarrow>
       (new = [] \<and> m \<in> set (db_history (cl_database w) cid) \<and> key \<noteq> None \<and> m_client_message_id m = key) \<or>
       (\<exists>reply. new = [m, reply] \<and> pub = new \<and> m_content m = content \<and> m_sender_id m = Some sender \<and>
          m_client_message_id m = key \<and> m_sender_id reply = None \<and> m_content reply = reply_text content))"
proof -
  from exchange_outcome [OF assms] obtain new pub where
    h: "db_wf (cl_database w')"
      "db_history (cl_database w') = (db_history (cl_database w))(cid := db_history (cl_database w) cid @ new)"
      "cl_published w' = cl_published w @ map (Pair cid) pub" "prefix pub new"
    and c: "case r of Inl _ \<Rightarrow> length new \<le> 2
      | Inr m \<Rightarrow>
         (new = [] \<and> m \<in> set (db_history (cl_database w) cid) \<and> key \<noteq> None \<and> m_client_message_id m = key) \<or>
         (\<exists>reply. new = [m, reply] \<and> pub = new \<and> m_content m = content \<and> m_sender_id m = Some sender \<and>
            m_client_message_id m = key \<and> m_sender_id reply = None \<and> m_content reply = reply_text content)"
    by (elim exE conjE) blast
  show ?thesis
  proof (intro exI conjI)
    show "\<forall>m. r = Inr m \<longrightarrow>
       (new = [] \<and> m \<in> set (db_history (cl_database w) cid) \<and> key \<noteq> None \<and> m_client_message_id m = key) \<or>
       (\<exists>reply. new = [m, reply] \<and> pub = new \<and> m_content m = content \<and> m_sender_id m = Some sender \<and>
          m_client_message_id m = key \<and> m_sender_id reply = None \<and> m_content reply = reply_text content)"
      using c by (cases r) simp_all
  qed (rule h)+
qed

theorem exchange_publishes_what_is_stored_witness:
  "\<exists>new pub. cl_published (snd (provide_message_exchange (ConversationId 10) (SenderId 1) (MessageContent ''hi'')
       None sample_cluster)) = map (Pair (ConversationId 10)) pub \<and> prefix pub new \<and>
     db_history (cl_database (snd (provide_message_exchange (ConversationId 10) (SenderId 1) (MessageContent ''hi'')
       None sample_cluster))) (ConversationId 10) = db_history sample_db (ConversationId 10) @ new"
proof -
  obtain r w' where run: "provide_message_exchange (ConversationId 10) (SenderId 1) (MessageContent ''hi'') None
      sample_cluster = (r, w')"
    by (cases "provide_message_exchange (ConversationId 10) (SenderId 1) (MessageContent ''hi'') None sample_cluster")
  have "content_wf (MessageContent ''hi'')" by (simp add: content_wf_def)
  with exchange_publishes_what_is_stored [OF _ this run] run show ?thesis by auto
qed

text \<open>C4: when an exchange succeeds, every replica whose reader lives and whose pub/sub connection is up
  delivers what was stored to each of its live sockets of the conversation, each message once and in
  the order of the history; a repeated send delivers nothing. A replica that has lost its connection
  and not subscribed the conversation again, or that loses it before its reader takes what was
  published, delivers none of it, however long it reads on after its reconnection; a client that
  replays after the last message it had seen before gets exactly what was stored.\<close>

theorem exchange_reaches_every_socket:
  assumes "db_wf (cl_database w)" and "content_wf content" and "\<forall>n. datetime_range (cl_clock w n)"
    and "replica_reachable (cl_replica w i)" and "one_conversation (cl_replica w i)"
    and "cl_inbox w i = []" and "provide_message_exchange cid sender content key w = (Inr m, w')"
    and "c \<in> members (cl_replica w i) cid" and "rp_registry (cl_replica w i) \<noteq> Joining cid c"
    and "writable (rp_sockets (cl_replica w i) c)"
  shows "\<exists>new. db_history (cl_database w') cid = db_history (cl_database w) cid @ new \<and>
    (reading (cl_replica w i) \<and> rp_link (cl_replica w i) = Up \<longrightarrow>
       so_sent (rp_sockets (cl_replica ((reader_turn i ^^ length (cl_inbox w' i)) w') i) c) =
         so_sent (rp_sockets (cl_replica w i) c) @ map message_new new) \<and>
    (\<forall>w2 order n. w2 = connection_lost i w' \<or> w2 = w' \<and> conversation_channel cid \<notin> rp_pubsub (cl_replica w i) \<longrightarrow>
       so_sent (rp_sockets (cl_replica ((reader_turn i ^^ n) (reader_rebuilds order i w2)) i) c) =
         so_sent (rp_sockets (cl_replica w i) c)) \<and>
    (db_history (cl_database w) cid \<noteq> [] \<longrightarrow>
       fst (provide_message_replayer cid (Some (m_id (last (db_history (cl_database w) cid)))) w') = Inr new)"
proof -
  let ?r = "cl_replica w i"
  from exchange_outcome [OF assms(1,2,7)] obtain new pub where
    h: "db_history (cl_database w') = (db_history (cl_database w))(cid := db_history (cl_database w) cid @ new)"
      "prefix pub new" "cl_replica w' = cl_replica w"
      "cl_inbox w' = (\<lambda>i. cl_inbox w i @ (if subscribed w i cid then map encode pub else []))"
      "\<forall>m \<in> set new. m_conversation_id m = cid \<and> content_wf (m_content m) \<and> (\<exists>n. m_created_at m = cl_clock w n)"
      "db_wf (cl_database w')"
    and c: "new = [] \<or> pub = new" by auto
  have pub: "pub = new" using h(2) c by auto
  have wf: "\<forall>m \<in> set new. message_wf m" using h(5) assms(3) by (auto simp: message_wf_def)
  have own: "filter (\<lambda>m. m_conversation_id m = cid) new = new" using h(5) by (simp add: filter_id_conv)
  have inv: "replica_inv ?r" by (rule reachable_inv [OF assms(4)])
  have wanted: "cid \<in> wanted ?r" by (rule live_wanted [OF inv assms(8,9)])
  have delivered: "so_sent (rp_sockets (cl_replica ((reader_turn i ^^ length (cl_inbox w' i)) w') i) c) =
      so_sent (rp_sockets ?r c) @ map message_new new" if up: "reading ?r" "rp_link ?r = Up"
  proof -
    have inbox: "cl_inbox w' i = map encode new"
      using h(4) live_subscribed [OF assms(4) up assms(8,9)] assms(6) pub by simp
    have at: "at_read ?r" using up wanted by (auto simp: at_read_def reading_def wanted_def)
    have "\<forall>m \<in> set new. m_conversation_id m \<in> wanted ?r" using h(5) wanted by simp
    from read_all_facts [OF invD(1) [OF inv] assms(5) _ wf this assms(8,10)] up
    have "rp_sockets (read_all (map encode new) ?r) c = push_frames (map message_new new) (rp_sockets ?r c)"
      by (simp add: own)
    then show ?thesis
      using push_frames_writable [OF assms(10)] reader_turns [of w' i "length (cl_inbox w' i)"] at invD(1) [OF inv] inbox h(3)
      by simp
  qed
  have lost: "so_sent (rp_sockets (cl_replica ((reader_turn i ^^ n) (reader_rebuilds order i w2)) i) c) = so_sent (rp_sockets ?r c)"
    if "w2 = connection_lost i w' \<or> w2 = w' \<and> conversation_channel cid \<notin> rp_pubsub ?r" for w2 order n
  proof -
    have "cl_inbox w2 i = [] \<and> rp_sockets (cl_replica w2 i) = rp_sockets ?r"
      using that h(3,4) assms(6) by (auto simp: connection_lost_def lose_connection_def subscribed_def)
    then show ?thesis using rebuilt_turns [of w2 i n order] by simp
  qed
  show ?thesis
    using h(1) delivered lost replay_new [OF h(6), of cid "db_history (cl_database w) cid" new]
    by (intro exI [of _ new]) auto
qed

lemma sample_registered:
  "members sample_replica cid = (if cid = ConversationId 10 then {0, 1} else {})" "reading sample_replica"
  "writable (rp_sockets sample_replica c)" "so_sent (rp_sockets sample_replica c) = []"
  by (auto simp: sample_replica_eq members_def sockets_of_def reading_def subscriber_start_def writable_def
      new_replica_def new_socket_def)

theorem exchange_reaches_every_socket_witness:
  "\<exists>m w' new. fst (provide_message_replayer (ConversationId 10) (Some (MessageId 3)) w') = Inr new \<and>
     provide_message_exchange (ConversationId 10) (SenderId 1) (MessageContent ''hi'') None sample_cluster = (Inr m, w') \<and>
     db_history (cl_database w') (ConversationId 10) = db_history sample_db (ConversationId 10) @ new \<and>
     so_sent (rp_sockets (cl_replica ((reader_turn 3 ^^ length (cl_inbox w' 3)) w') 3) 1) = map message_new new"
proof -
  have content: "content_wf (MessageContent ''hi'')" by (simp add: content_wf_def)
  obtain m w' where run: "provide_message_exchange (ConversationId 10) (SenderId 1) (MessageContent ''hi'') None
      sample_cluster = (Inr m, w')"
    using exchange_succeeds [of sample_cluster "ConversationId 10" "SenderId 1" "MessageContent ''hi''" None]
      content sample_member by (auto simp: sample_cluster_def)
  have "datetime_range 5" by (simp add: datetime_range_def day_microseconds_def epoch_days_def)
  moreover have "one_conversation sample_replica" by (simp add: one_conversation_def sample_registered(1))
  moreover have "rp_registry sample_replica = Unlocked" "rp_link sample_replica = Up"
    by (simp_all add: sample_replica_eq subscriber_start_def new_replica_def)
  moreover have "db_history sample_db (ConversationId 10) \<noteq> []" "m_id (last (db_history sample_db (ConversationId 10))) = MessageId 3"
    using sample_history by (auto simp: last_map [symmetric])
  ultimately obtain new where "db_history (cl_database w') (ConversationId 10) = db_history sample_db (ConversationId 10) @ new"
    "so_sent (rp_sockets (cl_replica ((reader_turn 3 ^^ length (cl_inbox w' 3)) w') 3) 1) = map message_new new"
    "fst (provide_message_replayer (ConversationId 10) (Some (MessageId 3)) w') = Inr new"
    using exchange_reaches_every_socket [OF _ content _ _ _ _ run, of 3 1] sample_replica_reachable sample_registered
    by auto
  with run show ?thesis by blast
qed

definition sample_token :: "uuid \<Rightarrow> string" where
  "sample_token u = projr (issue_access sample_backend (set_jwt_secret_key sample_settings)
     (set_jwt_algorithm sample_settings) (timedelta_seconds 900) 0 (UserId u))"

lemma sample_token_decodes:
  "decode_access sample_backend (set_jwt_secret_key sample_settings) (set_jwt_algorithm sample_settings) 5 (sample_token u) =
     Inr \<lparr>ac_user_id = UserId u\<rparr>"
proof -
  have "issue_access sample_backend (set_jwt_secret_key sample_settings) (set_jwt_algorithm sample_settings)
      (timedelta_seconds 900) 0 (UserId u) = Inr (sample_token u)"
    by (simp add: sample_token_def issue_access_def Let_def)
  from decode_issued [OF sample_jwt this, of 5] show ?thesis by (simp add: timedelta_seconds_def int_timestamp_def)
qed

text \<open>A participant's socket that has one message to send.\<close>

definition sample_sending :: cluster where
  "sample_sending = sample_cluster\<lparr>cl_input := \<lambda>_ _. [Inr sample_send]\<rparr>"

definition sample_member_session :: ws_session where
  "sample_member_session = \<lparr>sn_sender_id = SenderId 1, sn_token = sample_token 1, sn_last_seen_seq = None\<rparr>"

lemma sample_step:
  "\<exists>m w'. receive_step sample_readers (app_deps sample_settings sample_backend 0 0) (ConversationId 10)
     sample_member_session sample_sending = (Inr Continue, w') \<and>
     sent_to 0 0 w' = sent_to 0 0 sample_sending @ [message_ack m]"
proof -
  let ?d = "app_deps sample_settings sample_backend 0 0"
  let ?w1 = "sample_cluster\<lparr>cl_input := (cl_input sample_sending)(0 := (cl_input sample_sending 0)(0 := []))\<rparr>"
  have recv: "receive_frame ?d sample_sending = (Inr sample_send, ?w1)"
    by (simp add: receive_frame_def try_except_def read_input_def sample_sending_def)
  obtain k where k: "rate_limit_allow (app_rate_limiter sample_settings) 5 1 fresh_counters = (Inr True, k)"
    using allow_step [OF fresh_counts, of 5 "app_rate_limiter sample_settings" 1]
    by (auto simp: app_rate_limiter_def sample_settings_def)
  let ?w2 = "?w1\<lparr>cl_reads := Suc 0, cl_counters := k\<rparr>" and ?w3 = "?w1\<lparr>cl_reads := Suc (Suc 0), cl_counters := k\<rparr>"
  have limit: "provide_rate_limiter sample_settings 1 ?w1 = (Inr True, ?w2)"
    using k by (simp add: provide_rate_limiter_def bindp_def clock_now_def on_counters_def sample_cluster_def)
  have valid: "token_still_valid ?d sample_member_session ?w2 = (Inr True, ?w3)"
    by (simp add: token_still_valid_def sample_member_session_def try_except_def bindp_def clock_now_def lift_def ret_def
        sample_token_decodes)
  have content: "content_wf (MessageContent ''hi'')" by (simp add: content_wf_def)
  obtain m w4 where x: "provide_message_exchange (ConversationId 10) (SenderId 1) (MessageContent ''hi'') None ?w3 = (Inr m, w4)"
    using exchange_succeeds [of ?w3 "ConversationId 10" "SenderId 1" "MessageContent ''hi''" None]
      content sample_member by (auto simp: sample_cluster_def)
  from exchange_outcome [OF _ content x] have same: "cl_replica w4 = (\<lambda>_. sample_replica)"
    by (auto simp: sample_cluster_def)
  obtain w5 where send: "on_replica 0 (connection_send 0 (message_ack m)) w4 = (Inr (), w5)"
    "sent_to 0 0 w5 = sent_to 0 0 sample_sending @ [message_ack m]"
    using sample_registered(3,4) by (simp add: on_replica_def connection_send_eq same sent_to_def push_frame_def
        sample_sending_def)
  note send(2)
  moreover have "sample_send \<noteq> JNull" by (simp add: sample_send_def)
  moreover have "sn_sender_id sample_member_session = SenderId 1" by (simp add: sample_member_session_def)
  ultimately show ?thesis
    by (intro exI [of _ m] exI [of _ w5])
      (simp add: receive_step_def handle_message_def bindp_def thenp_def try_except_def ret_def recv limit
        sample_read valid x send(1))
qed

text \<open>C23: an acknowledgement means the message is stored: whenever a turn of the receive loop ends with
  an acknowledgement sent, the conversation's history holds a message that frame acknowledges,
  whatever else failed in the turn.\<close>

theorem acknowledged_means_stored:
  assumes "receive_step v (app_deps st backend i c) cid sn w = (r, w')" and "db_wf (cl_database w)"
    and "sent_to i c w' = sent_to i c w @ [message_ack m]"
  shows "\<exists>m' \<in> set (db_history (cl_database w') cid). message_ack m' = message_ack m"
  using assms by (rule step_acks)

theorem acknowledged_means_stored_witness:
  "\<exists>w' m m'. receive_step sample_readers (app_deps sample_settings sample_backend 0 0) (ConversationId 10)
     sample_member_session sample_sending = (Inr Continue, w') \<and>
     m' \<in> set (db_history (cl_database w') (ConversationId 10)) \<and> message_ack m' = message_ack m"
proof -
  obtain m w' where s: "receive_step sample_readers (app_deps sample_settings sample_backend 0 0) (ConversationId 10)
      sample_member_session sample_sending = (Inr Continue, w')"
    "sent_to 0 0 w' = sent_to 0 0 sample_sending @ [message_ack m]"
    using sample_step by blast
  have "db_wf (cl_database sample_sending)" by (simp add: sample_sending_def)
  from acknowledged_means_stored [OF s(1) this s(2)] s(1) show ?thesis by blast
qed

subsection \<open>The endpoint\<close>

text \<open>C32: the endpoint ends for every client: whatever the frames a client sends before it goes away,
  whatever the store, Redis and the clock do, \<open>conversation_ws\<close> returns or raises.\<close>

theorem endpoint_ends_with_its_client:
  "\<exists>r w'. conversation_ws v (app_deps st backend i c) cid w = Some (r, w')"
  by (rule conversation_ws_ends [where left = "\<lambda>w. length (cl_input w i c)"]) (rule step_consumes)

text \<open>A client whose token is valid but who is not a participant of the conversation, or who asks for
  a missing or deleted one, is closed with 4403: nothing is sent to it, it is not registered, and the
  store is unchanged.\<close>

lemma outsider_is_closed_with_4403:
  assumes "db_wf (cl_database w)" and "cl_input w i c = Inr raw # rest" and "validate_auth_frame v raw = Inr frame"
    and "decode_access backend (set_jwt_secret_key st) (set_jwt_algorithm st) (cl_clock w (cl_reads w)) (af_token frame) =
      Inr claims"
    and "\<not> member (cl_database w) cid (user_id_value (ac_user_id claims))"
    and "writable (rp_sockets (cl_replica w i) c)"
  shows "\<exists>w'. conversation_ws v (app_deps st backend i c) cid w = Some (Inr (), w') \<and>
    cl_database w' = cl_database w \<and>
    cl_replica w' = (cl_replica w)(i := (cl_replica w i)\<lparr>rp_sockets := (rp_sockets (cl_replica w i))
      (c := (rp_sockets (cl_replica w i) c)\<lparr>so_closed := Some 4403\<rparr>)\<rparr>)"
proof -
  let ?p = "ParticipantId (user_id_value (ac_user_id claims))"
  obtain e where e: "sql_conversation_access cid ?p (cl_database w) = (Inl e, cl_database w)" "is_refusal e"
    using sql_access [OF assms(1), of cid ?p] assms(5) by (auto simp: member_def split: option.splits)
  have "ws_open v (app_deps st backend i c) cid w =
      (Inr None, snd (on_replica i (connection_close 4403 c)
        (w\<lparr>cl_input := (cl_input w)(i := (cl_input w i)(c := rest)), cl_reads := cl_reads w + 1\<rparr>)))"
    using assms(2,3,4,6) e
    by (simp add: ws_open_def ws_authenticate_def ws_admit_def read_input_def clock_now_def bindp_def thenp_def
        try_except_def ret_def lift_def provide_conversation_access_def on_database_def on_replica_def
        connection_close_def writable_def FORBIDDEN_CLOSE_def)
  then show ?thesis
    using assms(6) by (simp add: conversation_ws_def on_replica_def connection_close_def writable_def)
qed

lemma outsider_is_closed_with_4403_witness:
  "\<exists>w'. conversation_ws sample_readers (app_deps sample_settings sample_backend 0 7) (ConversationId 10)
     (sample_cluster\<lparr>cl_input := \<lambda>_ _. [Inr (JObject [(''type'', JText ''auth''),
        (''payload'', JObject [(''token'', JText (sample_token 3))])])]\<rparr>) = Some (Inr (), w') \<and>
     so_closed (rp_sockets (cl_replica w' 0) 7) = Some 4403 \<and> cl_database w' = sample_db"
proof -
  let ?raw = "JObject [(''type'', JText ''auth''), (''payload'', JObject [(''token'', JText (sample_token 3))])]"
  let ?w = "sample_cluster\<lparr>cl_input := \<lambda>_ _. [Inr ?raw]\<rparr>"
  have "validate_auth_frame sample_readers ?raw = Inr \<lparr>af_token = sample_token 3, af_last_seen_seq = None\<rparr>"
    by (simp add: validate_auth_frame_def read_frame_def optional_field_def)
  moreover have "\<not> member (cl_database ?w) (ConversationId 10) 3" using sample_member by simp
  ultimately obtain w' where "conversation_ws sample_readers (app_deps sample_settings sample_backend 0 7) (ConversationId 10) ?w =
      Some (Inr (), w')" "cl_database w' = cl_database ?w"
    "cl_replica w' = (cl_replica ?w)(0 := (cl_replica ?w 0)\<lparr>rp_sockets := (rp_sockets (cl_replica ?w 0))
      (7 := (rp_sockets (cl_replica ?w 0) 7)\<lparr>so_closed := Some 4403\<rparr>)\<rparr>)"
    using outsider_is_closed_with_4403 [of ?w 0 7 ?raw "[]" sample_readers
        "\<lparr>af_token = sample_token 3, af_last_seen_seq = None\<rparr>" sample_backend sample_settings
        "\<lparr>ac_user_id = UserId 3\<rparr>" "ConversationId 10"]
      sample_token_decodes [of 3] sample_registered(3) [of 7]
    by auto
  then show ?thesis by (intro exI [of _ w']) simp
qed

end
