(* ===== verification/IdentityProperties.thy ===== *)
theory IdentityProperties
  imports Samples
begin

section \<open>Properties of the identity context\<close>

text \<open>
  The claims about users and tokens, each over whole requests or over the constructor it is about, with
  the witnesses that apply them at a concrete input.
\<close>

subsection \<open>Values\<close>

text \<open>C40: an \<open>Email\<close> is accepted exactly when its stripped, lower-cased text is a local part, one \<open>@\<close>
  and a dotted domain without white space; the value kept is that text, and reading it again changes
  nothing.\<close>

theorem email_normal_form:
  "mk_email v =
     (if email_shape (lower (strip v)) then Inr (Email (lower (strip v))) else Inl (InvalidEmail v)) \<and>
   (\<forall>e. mk_email v = Inr e \<longrightarrow>
      mk_email (email_value e) = Inr e \<and> count_list (email_value e) CHR ''@'' = 1 \<and>
      (\<forall>c \<in> set (email_value e). \<not> is_space c))"
proof -
  have "mk_email v = Inr e \<Longrightarrow> email_shape (email_value e)" for e
    by (auto simp: mk_email_eq split: if_splits)
  then show ?thesis
    using mk_email_wf [of v] email_shape_single_at(1,2) unfolding email_wf_def mk_email_eq [of v, symmetric]
    by blast
qed

theorem email_normal_form_witness:
  "mk_email '' C@x.io'' = Inr (Email ''c@x.io'') \<and> mk_email ''c@x.io'' = Inr (Email ''c@x.io'')"
proof -
  have "mk_email '' C@x.io'' = Inr (Email ''c@x.io'')" by simp
  with email_normal_form [of "'' C@x.io''"] show ?thesis by auto
qed

text \<open>A refresh token handed to a client is read back as its own identifier and secret: the
  identifier never holds the separator, whatever the secret.\<close>

lemma refresh_token_round_trip:
  assumes "secret \<noteq> []" and "generate_refresh backend i secret = Inr g"
  shows "parse_refresh (gr_token g) = Inr (gr_jti g, secret) \<and>
    verify_refresh backend secret (gr_token_hash g) = Inr True"
  using assms parse_generated [OF assms(1), of i]
  by (auto simp: generate_refresh_def verify_refresh_def Let_def)

lemma refresh_token_round_trip_witness:
  "parse_refresh (uuid_hex 5 @ ''.'' @ ''a.b'') = Inr (uuid_hex 5, ''a.b'')"
  using refresh_token_round_trip [of "''a.b''" sample_backend 5
      "\<lparr>gr_jti = uuid_hex 5, gr_token = uuid_hex 5 @ ''.'' @ ''a.b'',
        gr_token_hash = hash_secret sample_backend ''a.b''\<rparr>"]
  by (simp add: generate_refresh_def Let_def)

subsection \<open>Requests\<close>

text \<open>C30: a user who signs up can log in at once, with any spelling of the address that normalises to
  the same one and the same password; the refresh token received is stored as active, and the access
  token names that user to every request of the same application from then on until it expires, its
  time to live after the login, and is refused with 401 from then on.\<close>

theorem signup_then_login:
  assumes "db_wf db" and "jwt_of env'" and "argon2_documented backend"
    and "ae_backend env = backend" and "ae_backend env' = backend" and "ae_settings env' = ae_settings env"
    and "request_valid (Signup email password)" and "request_valid (Login email' password)"
    and "mk_email email = Inr a" and "mk_email email' = Inr a"
    and "argon2_hash backend password = Inr h" and "db_registered db a = None"
    and "db_free_id db (UserId (ae_uuid env))" and "db_token db (uuid_hex (ae_uuid env')) = None"
    and "api env None (Signup email password) db = (r, db')"
  shows "rs_status r = 201 \<and>
    (\<exists>db'' access. api env' None (Login email' password) db' =
        (\<lparr>rs_status = 200, rs_www_authenticate = False,
          rs_body = TokenResponse access (refresh_token_of env') ''bearer''\<rparr>, db'') \<and>
      db_token db'' (uuid_hex (ae_uuid env')) = Some (stored_token_of env' (UserId (ae_uuid env))) \<and>
      (\<forall>env''. ae_settings env'' = ae_settings env' \<and> ae_backend env'' = ae_backend env' \<and>
           0 \<le> ae_now env' \<and> ae_now env' \<le> ae_now env'' \<longrightarrow>
         get_current_user env'' (Some access) =
           (if int_timestamp (ae_now env'') < int_timestamp (ae_now env' +
                timedelta_seconds (set_access_token_ttl_seconds (ae_settings env')))
            then Inr (UserId (ae_uuid env)) else Inl (HTTPException 401 ''invalid or expired access token''))))"
proof -
  have up: "rs_status r = 201" "db_registered db' a = Some
      \<lparr>u_id = UserId (ae_uuid env), u_email = a, u_password_hash = PasswordHash h, u_created_at = ae_now env\<rparr>"
    using signup_created [of db email password a env h None] assms by auto
  have wf: "db_wf db'" using api_wf [OF assms(1), of env None "Signup email password"] assms(15) by simp
  have tokens: "db_token db' = db_token db"
    using signup_frame [OF assms(1,15)] by (simp add: fun_eq_iff db_token_def)
  obtain db'' where login: "api env' None (Login email' password) db' =
      (\<lparr>rs_status = 200, rs_www_authenticate = False,
        rs_body = TokenResponse (access_token_of env' (UserId (ae_uuid env))) (refresh_token_of env') ''bearer''\<rparr>, db'')"
    "db_token db'' = (db_token db')(uuid_hex (ae_uuid env') \<mapsto> stored_token_of env' (UserId (ae_uuid env)))"
    using login_ok [OF wf assms(8,10) up(2), of h env' None] assms tokens by auto
  have "get_current_user env'' (Some (access_token_of env' (UserId (ae_uuid env)))) =
      (if int_timestamp (ae_now env'') < int_timestamp (ae_now env' +
           timedelta_seconds (set_access_token_ttl_seconds (ae_settings env')))
       then Inr (UserId (ae_uuid env)) else Inl (HTTPException 401 ''invalid or expired access token''))"
    if "ae_settings env'' = ae_settings env'" "ae_backend env'' = ae_backend env'" "0 \<le> ae_now env'" "ae_now env' \<le> ae_now env''"
    for env''
  proof -
    have "int_timestamp (ae_now env') \<le> int_timestamp (ae_now env'')" using that(4) by (rule int_timestamp_mono)
    then show ?thesis
      using current_user_issued [OF assms(2) that(1,2), of "UserId (ae_uuid env)"] that(3,4) by (simp add: token_valid_at_def)
  qed
  with up(1) login show ?thesis by simp
qed

lemma sample_db_views [simp]:
  "db_registered sample_db (Email ''c@x.io'') = None" "db_free_id sample_db (UserId 3)"
  "db_token sample_db (uuid_hex 4) = None" "db_token sample_db (uuid_hex 5) = None"
  "db_registered sample_db (Email ''a@x.io'') =
     Some \<lparr>u_id = UserId 1, u_email = Email ''a@x.io'', u_password_hash = PasswordHash ''hpw'', u_created_at = 0\<rparr>"
proof -
  have "length (uuid_hex i) \<noteq> length ''j''" for i by simp
  then have "uuid_hex i \<noteq> ''j''" for i by metis
  then show "db_token sample_db (uuid_hex 4) = None" "db_token sample_db (uuid_hex 5) = None"
    by (simp_all add: db_token_def sample_db_def eq_commute [of "''j''"])
qed (simp_all add: db_registered_def db_free_id_def sample_db_def user_of_row_def)

theorem signup_then_login_witness:
  "\<exists>db' access. snd (api (sample_env 0 3 ''s1'') None (Signup '' C@x.io'' ''pw'') sample_db) = db' \<and>
     rs_body (fst (api (sample_env 7 4 ''s2'') None (Login ''c@x.io'' ''pw'') db')) =
       TokenResponse access (uuid_hex 4 @ ''.s2'') ''bearer'' \<and>
     get_current_user (sample_env 899000000 5 ''s3'') (Some access) = Inr (UserId 3) \<and>
     get_current_user (sample_env 900000000 5 ''s3'') (Some access) =
       Inl (HTTPException 401 ''invalid or expired access token'')"
proof -
  obtain r db' where s: "api (sample_env 0 3 ''s1'') None (Signup '' C@x.io'' ''pw'') sample_db = (r, db')"
    by (cases "api (sample_env 0 3 ''s1'') None (Signup '' C@x.io'' ''pw'') sample_db")
  have "argon2_hash sample_backend ''pw'' = Inr ''hpw''" by (simp add: sample_backend_def)
  from signup_then_login [of sample_db "sample_env 7 4 ''s2''" sample_backend "sample_env 0 3 ''s1''"
      "'' C@x.io''" "''pw''" "''c@x.io''" "Email ''c@x.io''" "''hpw''" r db', OF _ _ _ _ _ _ _ _ _ _ this _ _ _ s]
  obtain db'' access where "api (sample_env 7 4 ''s2'') None (Login ''c@x.io'' ''pw'') db' =
      (\<lparr>rs_status = 200, rs_www_authenticate = False,
        rs_body = TokenResponse access (refresh_token_of (sample_env 7 4 ''s2'')) ''bearer''\<rparr>, db'')"
    and lives: "\<And>env''. ae_settings env'' = sample_settings \<Longrightarrow> ae_backend env'' = sample_backend \<Longrightarrow> 7 \<le> ae_now env'' \<Longrightarrow>
      get_current_user env'' (Some access) =
        (if int_timestamp (ae_now env'') < int_timestamp (7 + timedelta_seconds (set_access_token_ttl_seconds sample_settings))
         then Inr (UserId 3) else Inl (HTTPException 401 ''invalid or expired access token''))"
    by (auto simp: text_field_def jwt_of_def)
  with s lives [of "sample_env 899000000 5 ''s3''"] lives [of "sample_env 900000000 5 ''s3''"] show ?thesis
    by (auto simp: refresh_token_of_def sample_settings_def timedelta_seconds_def int_timestamp_def)
qed

text \<open>C31: a login that cannot succeed is answered the same way whichever part is wrong: a malformed
  address, an unknown one and a wrong password all give 401 with the same body, and change nothing.\<close>

theorem login_refused_alike:
  assumes "db_wf db" and "request_valid (Login email password)" and "argon2_documented (ae_backend env)"
    and "argon2_hash (ae_backend env) password = Inr h'"
    and "\<And>a u. mk_email email = Inr a \<Longrightarrow> db_registered db a = Some u \<Longrightarrow>
      \<exists>right h. argon2_hash (ae_backend env) right = Inr h \<and> u_password_hash u = PasswordHash h \<and> right \<noteq> password"
  shows "api env credentials (Login email password) db =
    (\<lparr>rs_status = 401, rs_www_authenticate = True, rs_body = Detail ''invalid credentials''\<rparr>, db)"
proof -
  have "authenticate_user sql_users sql_refresh_tokens (get_password_hasher env) (get_token_service env)
      (ae_now env) (refresh_ttl env) email password (open_session db) =
      (Inl InvalidCredentials, open_session db)"
  proof (cases "mk_email email")
    case (Inl e)
    then show ?thesis by (rule authenticate_malformed)
  next
    case (Inr a)
    have hash: "ph_hash (get_password_hasher env) password = Inr (PasswordHash h')"
      using hasher_hash_ok [OF assms(3,4)] by (simp add: get_password_hasher_def)
    show ?thesis
    proof (cases "db_registered db a")
      case None
      with ut.authenticate_unknown [of "open_session db" email a] assms(1) Inr hash show ?thesis by simp
    next
      case (Some u)
      from assms(5) [OF Inr Some] obtain right h where "argon2_hash (ae_backend env) right = Inr h"
        "u_password_hash u = PasswordHash h" "right \<noteq> password" by blast
      then have "ph_verify (get_password_hasher env) password (u_password_hash u) = Inr False"
        using hasher_verify_own [OF assms(3), of right h password] by (simp add: get_password_hasher_def)
      with ut.authenticate_wrong_password [of "open_session db" email a u] assms(1) Inr Some show ?thesis
        by simp
    qed
  qed
  then have "handler env credentials (Login email password) (open_session db) =
      (Inl InvalidCredentials, open_session db)"
    using assms(2) by (simp add: handler_def login_def bindp_InlI)
  then have "api env credentials (Login email password) db = (error_response InvalidCredentials, db)"
    by (rule api_raises [rotated]) simp
  then show ?thesis by (simp add: error_response_def)
qed

theorem login_refused_alike_witness:
  "fst (api (sample_env 7 4 ''s2'') None (Login ''a@x.io'' ''no'') sample_db) =
     fst (api (sample_env 7 4 ''s2'') None (Login ''c@x.io'' ''no'') sample_db)"
proof -
  have hash: "argon2_hash sample_backend p = Inr (CHR ''h'' # p)" for p by (simp add: sample_backend_def)
  have "api (sample_env 7 4 ''s2'') None (Login ''a@x.io'' ''no'') sample_db =
      (\<lparr>rs_status = 401, rs_www_authenticate = True, rs_body = Detail ''invalid credentials''\<rparr>, sample_db)"
    by (rule login_refused_alike) (auto simp: text_field_def hash intro!: exI [of _ "''pw''"])
  moreover have "api (sample_env 7 4 ''s2'') None (Login ''c@x.io'' ''no'') sample_db =
      (\<lparr>rs_status = 401, rs_www_authenticate = True, rs_body = Detail ''invalid credentials''\<rparr>, sample_db)"
    by (rule login_refused_alike) (auto simp: text_field_def hash)
  ultimately show ?thesis by simp
qed

text \<open>C5: a refresh token is good for one exchange. The first use returns a new pair and revokes it;
  every later use, at any time, is answered 401 and changes nothing, while its successor is
  accepted in the same way until it expires.\<close>

theorem refresh_single_use:
  assumes "db_wf db" and "parse_refresh tok = Inr (j, secret)" and "db_token db j = Some t"
    and "rt_token_hash t = hash_secret (ae_backend env) secret"
    and "refresh_token_is_active t (ae_now env)" and "db_token db (uuid_hex (ae_uuid env)) = None"
    and "api env credentials (Refresh tok) db = (r, db')"
  shows "rs_status r = 200 \<and>
    rs_body r = TokenResponse (access_token_of env (rt_user_id t)) (refresh_token_of env) ''bearer'' \<and>
    api env' credentials' (Refresh tok) db' = (error_response InvalidRefreshToken, db') \<and>
    db_token db' (uuid_hex (ae_uuid env)) = Some (stored_token_of env (rt_user_id t)) \<and>
    refresh_token_is_active (stored_token_of env (rt_user_id t)) now = (now < ae_now env + refresh_ttl env)"
proof -
  have wf: "db_wf db'" using api_wf [OF assms(1), of env credentials "Refresh tok"] assms(7) by simp
  have first: "r = \<lparr>rs_status = 200, rs_www_authenticate = False,
        rs_body = TokenResponse (access_token_of env (rt_user_id t)) (refresh_token_of env) ''bearer''\<rparr>"
    "db_token db' = (db_token db)(j \<mapsto> refresh_token_revoke t (ae_now env),
      uuid_hex (ae_uuid env) \<mapsto> stored_token_of env (rt_user_id t))"
    using refresh_rotates [OF assms(1-6), of credentials] assms(7) by auto
  have "uuid_hex (ae_uuid env) \<noteq> j" using assms(3,6) by auto
  then have "db_token db' j = Some (refresh_token_revoke t (ae_now env))" using first(2) by simp
  then have "api env' credentials' (Refresh tok) db' = (error_response InvalidRefreshToken, db')"
    by (intro refresh_refused [OF wf assms(2)]) simp
  with first show ?thesis by (simp add: stored_token_of_def issue_active_iff)
qed

theorem refresh_single_use_witness:
  "\<exists>db'. snd (api (sample_env 7 4 ''s2'') None (Refresh ''j.s'') sample_db) = db' \<and>
     rs_status (fst (api (sample_env 8 5 ''s3'') None (Refresh ''j.s'') db')) = 401"
proof -
  obtain r db' where s: "api (sample_env 7 4 ''s2'') None (Refresh ''j.s'') sample_db = (r, db')"
    by (cases "api (sample_env 7 4 ''s2'') None (Refresh ''j.s'') sample_db")
  have "parse_refresh ''j.s'' = Inr (''j'', ''s'')" by code_simp
  moreover have "db_token sample_db ''j'' = Some \<lparr>rt_jti = ''j'', rt_user_id = UserId 1,
      rt_token_hash = ''s'', rt_expires_at = 100, rt_revoked_at = None\<rparr>"
    by (simp add: db_token_def sample_db_def refresh_token_to_domain_def)
  ultimately have "api (sample_env 8 5 ''s3'') None (Refresh ''j.s'') db' = (error_response InvalidRefreshToken, db')"
    using refresh_single_use [OF sample_db_wf _ _ _ _ _ s, of "''j''" "''s''" _ "sample_env 8 5 ''s3''" None]
    by (simp add: hash_secret_def sample_backend_def refresh_token_is_active_def)
  with s show ?thesis by (simp add: error_response_def)
qed

end
