(* ===== verification/AccessFacts.thy ===== *)
theory AccessFacts
  imports StoreRun
begin

section \<open>Who was let in, and by which request\<close>

text \<open>
  What a run of the store says about who may read, post and listen, read off the requests that were
  answered with success: who was admitted to a conversation or taken out of it, and whether it was
  created, deleted or restored. \<open>run_access\<close> shows that of all these the last one about a user, and the
  last one about the conversation, decide.
\<close>

datatype access_fact =
    Created uuid uuid
  | Added uuid uuid
  | Removed uuid uuid
  | Deleted uuid
  | Restored uuid

fun fact_of :: "api_env \<Rightarrow> database \<Rightarrow> uuid \<Rightarrow> api_request \<Rightarrow> access_fact option" where
  "fact_of env db u (CreateConversation _) = Some (Created (ae_uuid env) u)"
| "fact_of env db u (AddParticipant cid email) = map_option (Added cid) (registered_id db email)"
| "fact_of env db u (RemoveParticipant cid v) = Some (Removed cid v)"
| "fact_of env db u (DeleteConversation cid) = Some (Deleted cid)"
| "fact_of env db u (RestoreConversation cid) = Some (Restored cid)"
| "fact_of env db u _ = None"

fun fact_in :: "store_event \<Rightarrow> database \<Rightarrow> access_fact option" where
  "fact_in (Request env credentials req) db =
     (case get_current_user env credentials of
        Inl _ \<Rightarrow> None
      | Inr caller \<Rightarrow>
          if rs_status (fst (api env credentials req db)) = success_status req
          then fact_of env db (user_id_value caller) req else None)"
| "fact_in _ db = None"

fun facts_of :: "store_event list \<Rightarrow> database \<Rightarrow> access_fact list" where
  "facts_of [] db = []"
| "facts_of (event # events) db =
     (case fact_in event db of None \<Rightarrow> [] | Some x \<Rightarrow> [x]) @ facts_of events (store_step event db)"

text \<open>What a fact says of the user \<open>v\<close> in the conversation \<open>cid\<close>, and of the conversation.\<close>

fun participation :: "uuid \<Rightarrow> uuid \<Rightarrow> access_fact \<Rightarrow> bool option" where
  "participation cid v (Created c u) = (if c = cid then Some (u = v) else None)"
| "participation cid v (Added c w) = (if c = cid \<and> w = v then Some True else None)"
| "participation cid v (Removed c w) = (if c = cid \<and> w = v then Some False else None)"
| "participation cid v _ = None"

fun presence :: "uuid \<Rightarrow> access_fact \<Rightarrow> bool option" where
  "presence cid (Created c _) = (if c = cid then Some True else None)"
| "presence cid (Deleted c) = (if c = cid then Some False else None)"
| "presence cid (Restored c) = (if c = cid then Some True else None)"
| "presence cid _ = None"

definition last_word :: "(access_fact \<Rightarrow> bool option) \<Rightarrow> access_fact list \<Rightarrow> bool \<Rightarrow> bool" where
  "last_word says facts before =
     (case rev (List.map_filter says facts) of [] \<Rightarrow> before | w # _ \<Rightarrow> w)"

lemma last_word_Nil [simp]: "last_word says [] before = before"
  by (simp add: last_word_def)

lemma last_word_Cons [simp]:
  "last_word says (x # facts) before =
     last_word says facts (case says x of None \<Rightarrow> before | Some w \<Rightarrow> w)"
  by (simp add: last_word_def split: option.split list.split)

text \<open>The two things access rests on.\<close>

definition present :: "database \<Rightarrow> uuid \<Rightarrow> bool" where
  "present db cid = (seen db cid \<noteq> None)"

definition takes_part :: "database \<Rightarrow> uuid \<Rightarrow> uuid \<Rightarrow> bool" where
  "takes_part db cid v = (\<exists>c. db_conversation db (ConversationId cid) = Some c \<and> shared_with c v)"

lemma member_split: "member db (ConversationId cid) v \<longleftrightarrow> present db cid \<and> takes_part db cid v"
  by (auto simp: member_def present_def takes_part_def shared_with_def visible_def split: option.splits if_splits)

definition follows :: "access_fact option \<Rightarrow> database \<Rightarrow> database \<Rightarrow> bool" where
  "follows new db db' =
     (let facts = (case new of None \<Rightarrow> [] | Some x \<Rightarrow> [x])
      in \<forall>cid v. present db' cid = last_word (presence cid) facts (present db cid) \<and>
           takes_part db' cid v = last_word (participation cid v) facts (takes_part db cid v))"

lemma follows_same: "db_conversation db' = db_conversation db \<Longrightarrow> follows None db db'"
  by (simp add: follows_def present_def takes_part_def)

subsection \<open>A request that is not refused\<close>

lemma refused_seen:
  assumes "refused db u req = None" and "names_conversation req = Some cid" and "\<forall>x. req \<noteq> RestoreConversation x"
  obtains c where "seen db cid = Some c"
  using assms by (cases req) (auto simp: unless_missing_def split: option.splits)

lemma effect_follows:
  assumes "on_conversations req" and "refused db u req = None"
    and "db_conversation db' = effect db (ae_now env) (ae_uuid env) u req"
  shows "follows (fact_of env db u req) db db'"
proof (cases "names_conversation req")
  case None
  with assms(1) obtain title where "req = CreateConversation title" by (cases req) simp_all
  then show ?thesis by (auto simp: follows_def present_def takes_part_def shared_with_def assms(3) visible_def)
next
  case (Some k)
  show ?thesis
  proof (cases "\<exists>x. req = RestoreConversation x")
    case True
    with Some have "req = RestoreConversation k" by auto
    moreover from this assms(2) obtain c where "db_conversation db (ConversationId k) = Some c"
      by (auto simp: unless_missing_def split: option.splits)
    ultimately show ?thesis
      by (auto simp: follows_def present_def takes_part_def assms(3) on_stored_def visible_def shared_with_def)
  next
    case False
    from refused_seen [OF assms(2) Some] False obtain c where c: "seen db k = Some c" by blast
    note stored = visible_SomeD [OF this]
    have "registered_id db email \<noteq> None" if "req = AddParticipant k email" for email
      using that assms(2) c by (auto simp: unless_missing_def split: if_splits)
    with False Some c stored show ?thesis
      by (cases req) (auto simp: follows_def present_def takes_part_def assms(3) on_stored_def visible_def shared_with_def)
  qed
qed

subsection \<open>A request that is refused\<close>

lemma refused_status: "refused db u req = Some e \<Longrightarrow> 400 \<le> rs_status (error_response e)"
  by (cases req) (auto simp: unless_missing_def title_error_def mk_conversation_title_def error_response_def Let_def
      split: option.splits if_splits sum.splits)

lemma not_resolved:
  assumes "on_conversations req" and "get_current_user env credentials = Inl e \<or> \<not> request_valid req"
  shows "snd (api env credentials req db) = db"
proof -
  have "uses_session req" "public_controller env req = None" using assms(1) by (cases req; simp)+
  moreover from this have "\<exists>e. handler env credentials req (open_session db) = (Inl e, open_session db)"
    using assms(2) by (auto simp: handler_def proc_simps split: sum.splits)
  ultimately show ?thesis using api_raises by fastforce
qed

lemma invalid_status:
  assumes "on_conversations req" and "get_current_user env credentials = Inr caller" and "\<not> request_valid req"
  shows "rs_status (fst (api env credentials req db)) = 422"
proof -
  have "uses_session req" "public_controller env req = None" using assms(1) by (cases req; simp)+
  moreover from this have "handler env credentials req (open_session db) = (Inl ValidationError, open_session db)"
    using assms(2,3) by (auto simp: handler_def proc_simps split: sum.splits)
  ultimately show ?thesis using api_raises by (simp add: error_response_def)
qed

text \<open>A new conversation under an id that is taken fails at the commit.\<close>

lemma create_taken:
  assumes "get_current_user env credentials = Inr caller" and "request_valid (CreateConversation title)"
    and "db_conversation db (ConversationId (ae_uuid env)) \<noteq> None"
  shows "400 \<le> rs_status (fst (api env credentials (CreateConversation title) db))"
proof -
  have taken: "ae_uuid env \<in> cm_id ` set (db_conversations db)"
    using assms(3) by (auto simp: db_conversation_def dest!: find_Some_D split: option.splits intro: rev_image_eqI)
  have "handler env credentials (CreateConversation title) = api_create_conversation env caller title"
    using handler_caller [OF _ assms(2,1)] by simp
  with taken show ?thesis
    by (auto simp: api_session api_create_conversation_def create_conversation_def unit_of_work_def proc_simps
        conversation_create_def session_add_def session_commit_def session_flush_def Let_def
        open_session_def insert_conversation_def conversation_start_def error_response_def mk_conversation_title_def
        split: sum.splits if_splits)
qed

subsection \<open>Every event\<close>

lemma below_400: "400 \<le> rs_status r \<Longrightarrow> rs_status r \<noteq> success_status req"
  using success_status_below [of req] by linarith

lemma request_follows:
  assumes "db_wf db" and "on_conversations req"
  shows "follows (fact_in (Request env credentials req) db) db (snd (api env credentials req db))"
proof (cases "get_current_user env credentials")
  case (Inl e)
  with not_resolved [OF assms(2) disjI1, OF Inl, of db] show ?thesis by (simp add: follows_same)
next
  case (Inr caller)
  show ?thesis
  proof (cases "request_valid req \<and> new_id_free env db req")
    case True
    show ?thesis
    proof (cases "refused db (user_id_value caller) req")
      case None
      with api_outcome [OF assms(1) Inr _ assms(2)] True effect_follows [OF assms(2) None] Inr show ?thesis by simp
    next
      case (Some e)
      with api_outcome [OF assms(1) Inr _ assms(2)] True below_400 [OF refused_status [OF Some], of req] Inr
      show ?thesis by (simp add: follows_same)
    qed
  next
    case False
    have "400 \<le> rs_status (fst (api env credentials req db))"
    proof (cases "request_valid req")
      case True
      with False obtain title where "req = CreateConversation title"
        "db_conversation db (ConversationId (ae_uuid env)) \<noteq> None" by (cases req) auto
      with create_taken [OF Inr] True show ?thesis by blast
    next
      case False
      from invalid_status [OF assms(2) Inr False] show ?thesis by simp
    qed
    moreover from this obtain n where "snd (api env credentials req db) = db\<lparr>db_message_seq := n\<rparr>"
      using api_error_tables by blast
    then have "db_conversation (snd (api env credentials req db)) = db_conversation db"
      by (intro same_conversations) simp_all
    ultimately show ?thesis using below_400 [of "fst (api env credentials req db)" req] Inr by (simp add: follows_same)
  qed
qed

text \<open>The other requests leave the conversations alone.\<close>

lemma list_frame: "snd (api env credentials ListConversations db) = db"
  by (auto simp: api_session handler_def api_list_conversations_def list_conversations_def unit_of_work_def proc_simps
      conversation_list_for_participant_def session_select_def session_commit_def session_flush_def rollback_def
      open_session_def split: sum.splits)

lemma other_frame:
  assumes "db_wf db" and "\<not> on_conversations req"
  shows "db_conversation (snd (api env credentials req db)) = db_conversation db"
proof -
  obtain r db' where run: "api env credentials req db = (r, db')" by (cases "api env credentials req db")
  have "db_conversation db' = db_conversation db"
  proof (cases req)
    case (Signup email password)
    from signup_frame [OF assms(1) run [unfolded Signup]] show ?thesis by (intro same_conversations) simp_all
  next
    case (Login email password)
    from login_frame [OF assms(1) run [unfolded Login]] show ?thesis by (intro same_conversations) simp_all
  next
    case (Refresh token)
    from refresh_frame [OF run [unfolded Refresh]] show ?thesis by (intro same_conversations) simp_all
  next
    case ListConversations
    with run list_frame [of env credentials db] show ?thesis by simp
  qed (use run assms(2) in \<open>auto simp: api_def transactional_route_def handler_def current_user_def proc_simps rollback_def
      open_session_def split: sum.splits if_splits\<close>)
  with run show ?thesis by simp
qed

lemma event_follows:
  assumes "db_wf db"
  shows "follows (fact_in event db) db (store_step event db)"
proof (cases event)
  case (Request env credentials req)
  show ?thesis
  proof (cases "on_conversations req")
    case True
    with request_follows [OF assms] Request show ?thesis by simp
  next
    case False
    then have "fact_in event db = None" using Request by (cases req) (auto split: sum.split)
    with other_frame [OF assms False] Request show ?thesis by (simp add: follows_same)
  qed
next
  case (UserMessage now cid sender body key)
  with writer_frame [OF assms] show ?thesis
    by (auto simp del: writer_simps split: sum.split intro!: follows_same only_messages_views(1))
next
  case (AssistantMessage now cid body)
  with writer_assistant_frame show ?thesis
    by (auto simp del: writer_simps split: sum.split intro!: follows_same only_messages_views(1))
qed

lemma run_access:
  assumes "db_wf db"
  shows "present (store_run events db) cid = last_word (presence cid) (facts_of events db) (present db cid) \<and>
    takes_part (store_run events db) cid v = last_word (participation cid v) (facts_of events db) (takes_part db cid v)"
  using assms
proof (induction events arbitrary: db)
  case (Cons event events)
  from Cons.IH [OF store_step_wf [OF Cons.prems], of event] event_follows [OF Cons.prems, of event] show ?case
    by (cases "fact_in event db") (simp_all add: follows_def)
qed simp

end
