(* ===== verification/ConversationProperties.thy ===== *)
theory ConversationProperties
  imports AccessFacts Samples
begin

section \<open>Properties of the conversation requests\<close>

text \<open>
  What a user can do to a conversation through the API, stated over the policy and the effects of
  \<open>ConversationPolicy\<close>, and what the list of conversations shows.
\<close>

lemma sample_stored:
  "db_conversation sample_db (ConversationId 10) = Some
     \<lparr>c_id = ConversationId 10, c_owner_id = OwnerId 1, c_title = ConversationTitle ''t'', c_created_at = 0,
      c_updated_at = 0, c_deleted_at = None, c_participant_ids = {ParticipantId 1, ParticipantId 2}\<rparr>"
  "db_conversation sample_db (ConversationId 11) = None"
  by (auto simp: db_conversation_def sample_db_def conversation_of_row_def participants_of_def)

subsection \<open>The policy decides, and its effect is the effect\<close>

text \<open>C2: the API answers a request on conversations from an authenticated user exactly as the policy says.
  One the policy refuses is answered with the error it names and changes nothing at all; any other is
  answered with its success status, and the stored conversations are changed by the effect of the
  request and in no other way.\<close>

theorem requests_follow_the_policy:
  assumes "db_wf db" and "get_current_user env credentials = Inr caller" and "request_valid req"
    and "on_conversations req" and "new_id_free env db req"
  shows "case refused db (user_id_value caller) req of
      Some e \<Rightarrow> api env credentials req db = (error_response e, db)
    | None \<Rightarrow> rs_status (fst (api env credentials req db)) = success_status req \<and>
        db_conversation (snd (api env credentials req db)) =
          effect db (ae_now env) (ae_uuid env) (user_id_value caller) req"
  using assms by (rule api_outcome)

theorem requests_follow_the_policy_witness:
  "api (sample_env 5 77 ''s'') (token_of 2) (DeleteConversation 10) sample_db =
     (error_response NotConversationOwner, sample_db)"
  using requests_follow_the_policy [OF sample_db_wf sample_caller, of "DeleteConversation 10" 77 2]
  by (simp add: sample_stored unless_missing_def owned_by_def)

text \<open>C14: after any run of requests and messages, a user may read, post in and listen to a conversation
  exactly when the last request about the conversation that was answered with success, among its
  creation, its deletions and its restorations, left it there, and the last about the user admitted
  him: creating a conversation admits its creator and nobody else, adding admits the user of the
  address, removing takes out the one named. Where the run has no such request, what was so before it
  is so after it; no other request and no message changes who has access.\<close>

theorem access_follows_the_requests:
  assumes "db_wf db"
  shows "member (store_run events db) (ConversationId cid) v \<longleftrightarrow>
    last_word (presence cid) (facts_of events db) (seen db cid \<noteq> None) \<and>
    last_word (participation cid v) (facts_of events db) (takes_part db cid v)"
  using run_access [OF assms, of events cid v] by (simp only: member_split present_def)

theorem access_follows_the_requests_witness:
  "\<not> member (store_run [Request (sample_env 5 77 ''s'') (token_of 2) (RemoveParticipant 10 2),
       UserMessage 6 (ConversationId 10) (SenderId 1) ''hi'' None] sample_db) (ConversationId 10) 2 \<and>
   member (store_run [Request (sample_env 5 77 ''s'') (token_of 2) (RemoveParticipant 10 2),
       UserMessage 6 (ConversationId 10) (SenderId 1) ''hi'' None] sample_db) (ConversationId 10) 1"
proof -
  let ?events = "[Request (sample_env 5 77 ''s'') (token_of 2) (RemoveParticipant 10 2),
    UserMessage 6 (ConversationId 10) (SenderId 1) ''hi'' None]"
  have "rs_status (fst (api (sample_env 5 77 ''s'') (token_of 2) (RemoveParticipant 10 2) sample_db)) = 204"
    using api_outcome [OF sample_db_wf sample_caller, of "RemoveParticipant 10 2" 77 2]
    by (simp add: sample_stored unless_missing_def owned_by_def shared_with_def)
  then have facts: "facts_of ?events sample_db = [Removed 10 2]" by (simp add: sample_caller)
  have before: "seen sample_db 10 \<noteq> None" "takes_part sample_db 10 1"
    by (simp_all add: sample_stored visible_def takes_part_def shared_with_def)
  show ?thesis
    using access_follows_the_requests [OF sample_db_wf, of ?events 10 2]
      access_follows_the_requests [OF sample_db_wf, of ?events 10 1] facts before
    by (simp del: store_run.simps)
qed

text \<open>Deleting a conversation hides it and loses nothing: when its owner restores it, it is as it was,
  with its title, its participants and its messages, but for the time of its last change.\<close>

lemma delete_and_restore:
  assumes "db_wf db" and "get_current_user env credentials = Inr caller"
    and "get_current_user env' credentials' = Inr caller"
    and "seen db cid = Some c" and "owned_by c (user_id_value caller)"
    and "api env credentials (DeleteConversation cid) db = (r, db1)"
    and "api env' credentials' (RestoreConversation cid) db1 = (r', db2)"
  shows "rs_status r = 204 \<and> seen db1 cid = None \<and> rs_status r' = 200 \<and>
    db_conversation db2 = (db_conversation db)(ConversationId cid \<mapsto> c\<lparr>c_updated_at := ae_now env'\<rparr>) \<and>
    db_history db2 = db_history db"
proof -
  let ?u = "user_id_value caller" and ?d = "c\<lparr>c_deleted_at := Some (ae_now env), c_updated_at := ae_now env\<rparr>"
  note stored = visible_SomeD [OF assms(4)]
  have del: "rs_status r = 204" "db_conversation db1 = (db_conversation db)(ConversationId cid \<mapsto> ?d)"
    using api_outcome [OF assms(1,2), of "DeleteConversation cid"] assms(4-6) stored
    by (auto simp: unless_missing_def on_stored_def)
  have wf: "db_wf db1" using api_wf [OF assms(1), of env credentials "DeleteConversation cid"] assms(6) by simp
  have "owned_by ?d ?u" using assms(5) by (simp add: owned_by_def)
  then have "rs_status r' = 200" "db_conversation db2 = effect db1 (ae_now env') (ae_uuid env') ?u (RestoreConversation cid)"
    using api_outcome [OF wf assms(3), of "RestoreConversation cid"] assms(7) del(2)
    by (auto simp: unless_missing_def)
  moreover have "c\<lparr>c_deleted_at := None, c_updated_at := t\<rparr> = c\<lparr>c_updated_at := t\<rparr>" for t
    using stored by (cases c) simp
  moreover have "db_messages db2 = db_messages db"
    using api_messages [of env credentials "DeleteConversation cid" db]
      api_messages [of env' credentials' "RestoreConversation cid" db1] assms(6,7) by simp
  ultimately show ?thesis using del by (auto simp: on_stored_def visible_def db_history_def)
qed

lemma delete_and_restore_witness:
  "\<exists>r db1 r' db2. api (sample_env 5 77 ''s'') (token_of 1) (DeleteConversation 10) sample_db = (r, db1) \<and>
     api (sample_env 5 77 ''s'') (token_of 1) (RestoreConversation 10) db1 = (r', db2) \<and>
     rs_status r' = 200 \<and> db_history db2 = db_history sample_db"
proof -
  obtain r db1 where 1: "api (sample_env 5 77 ''s'') (token_of 1) (DeleteConversation 10) sample_db = (r, db1)"
    by (cases "api (sample_env 5 77 ''s'') (token_of 1) (DeleteConversation 10) sample_db")
  obtain r' db2 where 2: "api (sample_env 5 77 ''s'') (token_of 1) (RestoreConversation 10) db1 = (r', db2)"
    by (cases "api (sample_env 5 77 ''s'') (token_of 1) (RestoreConversation 10) db1")
  from delete_and_restore [OF sample_db_wf sample_caller sample_caller _ _ 1 2] show ?thesis
    using 1 2 by (auto simp: sample_stored owned_by_def)
qed

subsection \<open>The list\<close>

text \<open>A row of the list per membership: with one membership per user, each conversation once.\<close>

definition listed :: "database \<Rightarrow> uuid \<Rightarrow> conversation_row \<Rightarrow> bool" where
  "listed db u r = (cm_deleted_at r = None \<and> (cm_id r, u) \<in> pm_key ` set (db_participants db))"

lemma filter_one:
  assumes "distinct (map pm_key ps)"
  shows "map (\<lambda>p. r) (filter (\<lambda>p. pm_conversation_id p = cid \<and> pm_user_id p = u \<and> Q) ps) =
    (if Q \<and> (cid, u) \<in> pm_key ` set ps then [r] else [])"
proof (cases Q)
  case True
  have "filter (\<lambda>p. pm_conversation_id p = cid \<and> pm_user_id p = u \<and> Q) ps = filter (\<lambda>p. pm_key p = (cid, u)) ps"
    using True by (simp add: pm_key_def)
  also have "\<dots> = (case find (\<lambda>p. pm_key p = (cid, u)) ps of None \<Rightarrow> [] | Some p \<Rightarrow> [p])"
    by (rule filter_key_find [OF assms])
  finally show ?thesis
    using True by (auto simp: find_None_iff image_iff find_Some_iff split: option.splits) (metis nth_mem)
qed simp

lemma join_rows:
  assumes "db_wf db"
  shows "concat (map (\<lambda>r. map (\<lambda>p. r)
      (filter (\<lambda>p. pm_conversation_id p = cm_id r \<and> pm_user_id p = u \<and> cm_deleted_at r = None) (db_participants db))) rs) =
    filter (listed db u) rs"
  using assms by (induction rs) (simp_all add: filter_one listed_def db_wf_def participants_wf_def)

lemma row_found:
  assumes "db_wf db" and "r \<in> set (db_conversations db)"
  shows "db_conversation db (ConversationId (cm_id r)) = Some (conversation_of_row r (participants_of db (cm_id r)))"
proof -
  have "distinct (map cm_id (db_conversations db))" using assms(1) by (simp add: db_wf_def conversations_wf_def)
  note filter_key_find [OF this, of "cm_id r"]
  moreover have "r \<in> set (filter (\<lambda>x. cm_id x = cm_id r) (db_conversations db))" using assms(2) by simp
  ultimately have "r \<in> set (case find (\<lambda>x. cm_id x = cm_id r) (db_conversations db) of None \<Rightarrow> [] | Some x \<Rightarrow> [x])"
    by (simp only:)
  then have "find (\<lambda>x. cm_id x = cm_id r) (db_conversations db) = Some r" by (auto split: option.splits)
  then show ?thesis by (simp add: db_conversation_def)
qed

definition listing :: "database \<Rightarrow> uuid \<Rightarrow> conversation list" where
  "listing db u =
     map (\<lambda>r. conversation_of_row r (participants_of db (cm_id r)))
       (sort_key (\<lambda>r. - cm_created_at r) (filter (listed db u) (db_conversations db)))"

lemma list_for_participant_clean:
  assumes "db_wf db"
  shows "conversation_list_for_participant (ParticipantId u) (open_session db) = (Inr (listing db u), open_session db)"
proof -
  have "\<And>r. r \<in> set (db_conversations db) \<Longrightarrow> title_wf (ConversationTitle (cm_title r))"
    using assms by (simp add: db_wf_def conversations_wf_def)
  then have "map_result conversation_to_domain (select_for_participant u db) = Inr (listing db u)"
    unfolding select_for_participant_def listing_def join_rows [OF assms]
    by (subst map_result_Inr [where g = "\<lambda>(r, ps). conversation_of_row r ps"])
      (auto intro: conversation_to_domain_wf)
  then show ?thesis
    by (simp add: conversation_list_for_participant_def bindp_InrI [OF select_empty] lift_def)
qed

lemma listing_facts:
  assumes "db_wf db"
  shows "distinct (map c_id (listing db u))"
    and "set (listing db u) = {c. \<exists>cid. seen db cid = Some c \<and> shared_with c u}"
    and "sorted_wrt (\<lambda>a b. c_created_at b \<le> c_created_at a) (listing db u)"
proof -
  let ?row = "\<lambda>r. conversation_of_row r (participants_of db (cm_id r))"
  have "distinct (map cm_id (filter (listed db u) (db_conversations db)))"
    using assms by (simp add: db_wf_def conversations_wf_def distinct_map_filter)
  then have "distinct (map cm_id (sort_key (\<lambda>r. - cm_created_at r) (filter (listed db u) (db_conversations db))))"
    by (simp add: distinct_map)
  moreover have "map c_id (listing db u) =
      map ConversationId (map cm_id (sort_key (\<lambda>r. - cm_created_at r) (filter (listed db u) (db_conversations db))))"
    by (simp add: listing_def conversation_of_row_def)
  ultimately show "distinct (map c_id (listing db u))"
    by (simp add: distinct_map inj_on_def)
  have "sorted (map (\<lambda>r. - cm_created_at r)
      (sort_key (\<lambda>r. - cm_created_at r) (filter (listed db u) (db_conversations db))))" by simp
  then show "sorted_wrt (\<lambda>a b. c_created_at b \<le> c_created_at a) (listing db u)"
    by (simp add: listing_def sorted_wrt_map conversation_of_row_def)
  have shared: "shared_with (?row r) u \<longleftrightarrow> (cm_id r, u) \<in> pm_key ` set (db_participants db)" for r
    by (auto simp: shared_with_def conversation_of_row_def participants_of_def pm_key_def image_iff) metis
  have deleted: "c_deleted_at (?row r) = cm_deleted_at r" for r by (simp add: conversation_of_row_def)
  show "set (listing db u) = {c. \<exists>cid. seen db cid = Some c \<and> shared_with c u}"
  proof (intro equalityI subsetI)
    fix c assume "c \<in> set (listing db u)"
    then obtain r where r: "r \<in> set (db_conversations db)" "listed db u r" "c = ?row r" by (auto simp: listing_def)
    with row_found [OF assms r(1)] shared deleted have "seen db (cm_id r) = Some c" "shared_with c u"
      by (simp_all add: listed_def visible_def)
    then show "c \<in> {c. \<exists>cid. seen db cid = Some c \<and> shared_with c u}" by blast
  next
    fix c assume "c \<in> {c. \<exists>cid. seen db cid = Some c \<and> shared_with c u}"
    then obtain cid where c: "seen db cid = Some c" "shared_with c u" by blast
    from visible_SomeD [OF c(1)] obtain r where "r \<in> set (db_conversations db)" "c = ?row r" "cm_deleted_at r = None"
      using db_conversation_Some [of db "ConversationId cid" c] deleted by metis
    with c(2) shared show "c \<in> set (listing db u)" by (auto simp: listing_def listed_def)
  qed
qed

text \<open>C29: the list of conversations holds exactly the conversations, not deleted, the user is a participant
  of, each once, the newest first.\<close>

theorem conversation_list_is_exact:
  assumes "db_wf db" and "get_current_user env credentials = Inr caller"
  shows "\<exists>cs. api env credentials ListConversations db =
      (\<lparr>rs_status = 200, rs_www_authenticate = False, rs_body = ConversationsResponse (map conversation_from_domain cs)\<rparr>, db) \<and>
    distinct (map c_id cs) \<and> set cs = {c. \<exists>cid. seen db cid = Some c \<and> shared_with c (user_id_value caller)} \<and>
    sorted_wrt (\<lambda>a b. c_created_at b \<le> c_created_at a) cs"
proof -
  have "handler env credentials ListConversations (open_session db) =
      (Inr (ConversationsResponse (map conversation_from_domain (listing db (user_id_value caller)))), open_session db)"
    using assms(2) list_for_participant_clean [OF assms(1), of "user_id_value caller"]
    by (simp add: handler_caller api_list_conversations_def list_conversations_def bindp_InrI ret_def)
  from api_returns [OF _ this] listing_facts [OF assms(1), of "user_id_value caller"] show ?thesis by auto
qed

theorem conversation_list_is_exact_witness:
  "\<exists>cs. rs_body (fst (api (sample_env 5 77 ''s'') (token_of 2) ListConversations sample_db)) =
      ConversationsResponse (map conversation_from_domain cs) \<and>
    the (db_conversation sample_db (ConversationId 10)) \<in> set cs"
proof -
  obtain cs where cs: "api (sample_env 5 77 ''s'') (token_of 2) ListConversations sample_db =
      (\<lparr>rs_status = 200, rs_www_authenticate = False, rs_body = ConversationsResponse (map conversation_from_domain cs)\<rparr>, sample_db)"
    "set cs = {c. \<exists>cid. seen sample_db cid = Some c \<and> shared_with c 2}"
    using conversation_list_is_exact [OF sample_db_wf sample_caller [of 77 2]] by auto
  have "seen sample_db 10 = Some (the (db_conversation sample_db (ConversationId 10)))"
    "shared_with (the (db_conversation sample_db (ConversationId 10))) 2"
    by (simp_all add: sample_stored visible_def shared_with_def)
  with cs show ?thesis by (intro exI [of _ cs]) auto
qed

end
