(* ===== verification/Logging.thy ===== *)
theory Logging
  imports Protocol
begin

section \<open>Logging\<close>

text \<open>
  \<open>logging.py\<close>: the JSON object a log record becomes, and the setup of the root logger. A record's
  attributes are the list of its \<open>__dict__\<close>, the standard ones and those of \<open>extra=\<close>; the text of a
  message and of a traceback are the standard library's and are given. Values \<open>json.dumps\<close> cannot write
  arrive as the text \<open>default=str\<close> makes of them.
\<close>

record log_record =
  lr_created :: datetime
  lr_levelname :: string
  lr_name :: string
  lr_message :: string
  lr_dict :: "(string \<times> json) list"
  lr_exc_info :: "string option"

text \<open>\<open>vars(logging.makeLogRecord({}))\<close> and the three names added to it\<close>

definition RESERVED :: "string list" where
  "RESERVED =
     [''name'', ''msg'', ''args'', ''levelname'', ''levelno'', ''pathname'', ''filename'', ''module'', ''exc_info'',
      ''exc_text'', ''stack_info'', ''lineno'', ''funcName'', ''created'', ''msecs'', ''relativeCreated'', ''thread'',
      ''threadName'', ''processName'', ''process'', ''message'', ''asctime'', ''taskName'']"

text \<open>\<open>payload[key] = value\<close>: a key that is there keeps its place.\<close>

fun dict_set :: "string \<Rightarrow> 'a \<Rightarrow> (string \<times> 'a) list \<Rightarrow> (string \<times> 'a) list" where
  "dict_set k v [] = [(k, v)]"
| "dict_set k v ((k', v') # rest) = (if k' = k then (k, v) # rest else (k', v') # dict_set k v rest)"

definition setdefault :: "string \<Rightarrow> 'a \<Rightarrow> (string \<times> 'a) list \<Rightarrow> (string \<times> 'a) list" where
  "setdefault k v members = (if k \<in> fst ` set members then members else members @ [(k, v)])"

fun add_extras :: "(string \<times> json) list \<Rightarrow> (string \<times> json) list \<Rightarrow> (string \<times> json) list" where
  "add_extras [] payload = payload"
| "add_extras ((key, v) # rest) payload =
     add_extras rest (if key \<notin> set RESERVED then dict_set key v payload else payload)"

text \<open>\<open>JsonFormatter.format\<close>, with the value of \<open>connection_id_var\<close> in the current task\<close>

definition json_format :: "string option \<Rightarrow> log_record \<Rightarrow> json" where
  "json_format connection_id record =
     (let payload = [(''timestamp'', JText (isoformat (lr_created record))), (''level'', JText (lr_levelname record)),
                     (''logger'', JText (lr_name record)), (''message'', JText (lr_message record))];
          payload = add_extras (lr_dict record) payload;
          payload = (case connection_id of None \<Rightarrow> payload | Some c \<Rightarrow> setdefault ''connection_id'' (JText c) payload)
      in JObject (case lr_exc_info record of None \<Rightarrow> payload | Some t \<Rightarrow> dict_set ''exc_info'' (JText t) payload))"

subsection \<open>The root logger\<close>

text \<open>Capitals of the range U+0000 to U+00FF. Those of the micro sign and of y with diaeresis lie above
  it; no level has one in its name, so they may stay.\<close>

definition upper_char :: "char \<Rightarrow> string" where
  "upper_char c =
     (if 97 \<le> code c \<and> code c \<le> 122 \<or> 224 \<le> code c \<and> code c \<le> 254 \<and> code c \<noteq> 247 then [char_of (code c - 32)]
      else if code c = 223 then ''SS'' else [c])"

definition upper :: "string \<Rightarrow> string" where
  "upper s = concat (map upper_char s)"

definition level_names :: "string list" where
  "level_names = [''CRITICAL'', ''FATAL'', ''ERROR'', ''WARN'', ''WARNING'', ''INFO'', ''DEBUG'', ''NOTSET'']"

datatype log_handler = StdoutJson | OtherHandler nat

record root_logger =
  root_handlers :: "log_handler list"
  root_level :: string

text \<open>\<open>setLevel\<close> raises for a name that is no level, after the handlers were replaced.\<close>

definition configure_logging :: "string \<Rightarrow> (unit, root_logger) op" where
  "configure_logging level root =
     (let root = root\<lparr>root_handlers := [StdoutJson]\<rparr>
      in if upper level \<in> set level_names then (Inr (), root\<lparr>root_level := upper level\<rparr>) else (Inl ValueError, root))"

subsection \<open>What a line always holds\<close>

lemma map_of_dict_set: "map_of (dict_set k v members) = (map_of members)(k \<mapsto> v)"
  by (induction k v members rule: dict_set.induct) auto

lemma map_of_setdefault:
  "map_of (setdefault k v members) = (if map_of members k = None then (map_of members)(k \<mapsto> v) else map_of members)"
proof (cases "k \<in> fst ` set members")
  case True
  then show ?thesis by (metis map_of_eq_None_iff setdefault_def)
next
  case False
  then have "map_of members k = None" by (simp add: map_of_eq_None_iff)
  with False show ?thesis by (auto simp: setdefault_def map_add_def fun_eq_iff split: option.split)
qed

lemma extras_keep: "k \<notin> fst ` set extras \<or> k \<in> set RESERVED \<Longrightarrow> map_of (add_extras extras payload) k = map_of payload k"
  by (induction extras payload rule: add_extras.induct) (auto simp: map_of_dict_set)

lemma extras_given:
  assumes "distinct (map fst extras)" and "(k, v) \<in> set extras" and "k \<notin> set RESERVED"
  shows "map_of (add_extras extras payload) k = Some v"
  using assms by (induction extras payload rule: add_extras.induct) (auto simp: extras_keep map_of_dict_set image_iff)

text \<open>The message cannot be hidden by an extra field; a field of \<open>extra=\<close> is in the line under its name;
  the connection of the task is in the line unless an extra field already says which it is.\<close>

lemma format_message: "field ''message'' (json_format cid r) = Some (JText (lr_message r))"
  by (auto simp: json_format_def map_of_dict_set map_of_setdefault extras_keep RESERVED_def Let_def split: option.split)

lemma format_extra:
  assumes "distinct (map fst (lr_dict r))" and "(k, v) \<in> set (lr_dict r)" and "k \<notin> set RESERVED"
  shows "field k (json_format cid r) = Some v"
proof -
  have "k \<noteq> ''exc_info''" using assms(3) by (auto simp: RESERVED_def)
  with extras_given [OF assms] show ?thesis
    by (auto simp: json_format_def map_of_dict_set map_of_setdefault Let_def split: option.split)
qed

lemma format_connection:
  "''connection_id'' \<notin> fst ` set (lr_dict r) \<Longrightarrow> field ''connection_id'' (json_format (Some c) r) = Some (JText c)"
  by (auto simp: json_format_def map_of_dict_set map_of_setdefault extras_keep Let_def split: option.split)

end
