(* ===== verification/Lifespan.thy ===== *)
theory Lifespan
  imports Delivery Routing HttpApi Logging RateLimiter
begin

section \<open>The application: building it, starting it, stopping it\<close>

text \<open>
  \<open>app.py\<close>: \<open>create_app\<close> with the startup audit of the routers, and \<open>lifespan\<close>, which opens the
  database engine, the Redis client and the reader of the replica, serves, and closes them again. The
  state of the process is its replica, which of the two clients it holds open, and the factory and the
  limiter that requests use. Running the migrations, making and closing a client are library calls: each
  is given by how it ends.
\<close>

subsection \<open>create_app\<close>

record application =
  ap_allow_origins :: "string list"
  ap_allow_credentials :: bool
  ap_routers :: "route list list"

definition create_app :: "settings \<Rightarrow> (application, root_logger) op" where
  "create_app settings =
     (let routers = [health_router, identity_router, conversations_router, ws_router];
          app = \<lparr>ap_allow_origins = set_cors_allow_origins settings,
                 ap_allow_credentials = cors_allow_credentials settings, ap_routers = routers\<rparr>
      in thenp (configure_logging (set_log_level settings))
         (thenp (lift (assert_session_routes_are_transactional routers)) (ret app)))"

text \<open>\<open>create_app()\<close>, as the module calls it when the server imports it: the settings are those of
  \<open>get_settings\<close>, whose cache and the root logger are the state of the process so far.\<close>

definition create_default_app :: "environment \<Rightarrow> (application, settings option \<times> root_logger) op" where
  "create_default_app env globals =
     (case get_settings env (fst globals) of
        (Inl e, cache) \<Rightarrow> (Inl e, cache, snd globals)
      | (Inr settings, cache) \<Rightarrow> (case create_app settings (snd globals) of (r, root) \<Rightarrow> (r, cache, root)))"

text \<open>The lifespan reads the settings the application was built with, and their key is long enough.\<close>

lemma default_app_settings:
  assumes "create_default_app env (None, root) = (Inr app, cache, root')"
  obtains settings where "create_app settings root = (Inr app, root')" and "get_settings env' cache = (Inr settings, cache)"
    and "32 \<le> length (set_jwt_secret_key settings)"
  using assms read_settings_key
  by (auto simp: create_default_app_def get_settings_def split: sum.splits prod.splits)

lemma audit_iff:
  "assert_session_routes_are_transactional routers = Inr () \<longleftrightarrow>
    (\<forall>routes \<in> set routers. \<forall>r. reachable_route routes r \<longrightarrow>
       depends_on_session (route_dependant r) \<longrightarrow> is_transactional r)"
  by (simp add: assert_session_routes_are_transactional_def offenders_def filter_empty_conv Ball_def
      api_routes_member) blast

lemma routers_pass:
  "assert_session_routes_are_transactional [health_router, identity_router, conversations_router, ws_router] = Inr ()"
  by (simp add: assert_session_routes_are_transactional_def offenders_def health_router_def identity_router_def
      conversations_router_def ws_router_def Let_def)

subsection \<open>lifespan\<close>

text \<open>\<open>database.py\<close> and \<open>redis_client.py\<close>: with what the engine, the session factory and the client are made.\<close>

record database_engine =
  en_url :: string
  en_pool_pre_ping :: bool

record session_factory =
  sf_bind :: database_engine
  sf_expire_on_commit :: bool

record redis_client =
  rd_url :: string
  rd_socket_timeout :: timedelta
  rd_socket_connect_timeout :: timedelta

definition create_engine :: "string \<Rightarrow> database_engine" where
  "create_engine database_url = \<lparr>en_url = database_url, en_pool_pre_ping = True\<rparr>"

definition create_session_factory :: "database_engine \<Rightarrow> session_factory" where
  "create_session_factory engine = \<lparr>sf_bind = engine, sf_expire_on_commit = False\<rparr>"

definition create_redis_client :: "string \<Rightarrow> redis_client" where
  "create_redis_client redis_url =
     \<lparr>rd_url = redis_url, rd_socket_timeout = 5000000, rd_socket_connect_timeout = 5000000\<rparr>"

text \<open>The process: its replica, the engine and the client while they are open, and what of \<open>app.state\<close> the
  requests are served with.\<close>

record process =
  pr_replica :: replica
  pr_engine :: "database_engine option"
  pr_redis :: "redis_client option"
  pr_session_factory :: "session_factory option"
  pr_rate_limiter :: "redis_rate_limiter option"

text \<open>How the library calls of one life of the process end. The drain either completes within the timeout
  or has closed the first so many sockets when the timeout cancels it.\<close>

datatype drain = Drained | DrainTimedOut nat

record library_calls =
  lc_run_migrations :: "unit outcome"
  lc_get_settings :: "settings outcome"
  lc_create_engine :: "database_engine \<Rightarrow> unit outcome"
  lc_create_redis_client :: "redis_client \<Rightarrow> unit outcome"
  lc_drain :: drain
  lc_conversations :: "conversation_id list"
  lc_redis_aclose :: "unit outcome"
  lc_engine_dispose :: "unit outcome"

definition startup :: "library_calls \<Rightarrow> (unit, process) op" where
  "startup calls =
     thenp (lift (lc_run_migrations calls))
     (bindp (lift (lc_get_settings calls)) (\<lambda>settings.
      let engine = create_engine (set_database_url settings); redis = create_redis_client (set_redis_url settings) in
      thenp (lift (lc_create_engine calls engine))
      (thenp (\<lambda>p. (Inr (), p\<lparr>pr_engine := Some engine, pr_session_factory := Some (create_session_factory engine)\<rparr>))
      (thenp (lift (lc_create_redis_client calls redis))
      (\<lambda>p. (Inr (), p\<lparr>pr_redis := Some redis, pr_replica := subscriber_start new_replica,
         pr_rate_limiter := Some \<lparr>rl_limit = set_ws_rate_limit_messages settings,
           rl_window_seconds = set_ws_rate_limit_window_seconds settings\<rparr>\<rparr>))))))"

definition connections_of :: "conversation_id list \<Rightarrow> replica \<Rightarrow> connection list" where
  "connections_of cids r = concat (map (\<lambda>cid. case rp_connections r cid of None \<Rightarrow> [] | Some cs \<Rightarrow> cs) cids)"

text \<open>\<open>wait_for(connection_manager.close_all(), timeout)\<close>, its \<open>TimeoutError\<close> caught.\<close>

definition drain_sockets :: "drain \<Rightarrow> conversation_id list \<Rightarrow> replica \<Rightarrow> replica" where
  "drain_sockets d cids r =
     (case d of
        Drained \<Rightarrow> close_all 1001 cids r
      | DrainTimedOut k \<Rightarrow> close_each 1001 (take k (connections_of cids r)) r)"

definition stop_subscriber :: "(unit, process) op" where
  "stop_subscriber p = (case subscriber_stop (pr_replica p) of (x, r) \<Rightarrow> (x, p\<lparr>pr_replica := r\<rparr>))"

definition shutdown :: "library_calls \<Rightarrow> (unit, process) op" where
  "shutdown calls =
     thenp (\<lambda>p. (Inr (), p\<lparr>pr_replica := drain_sockets (lc_drain calls) (lc_conversations calls) (pr_replica p)\<rparr>))
     (thenp stop_subscriber
     (thenp (lift (lc_redis_aclose calls))
     (thenp (\<lambda>p. (Inr (), p\<lparr>pr_redis := None\<rparr>))
     (thenp (lift (lc_engine_dispose calls))
     (\<lambda>p. (Inr (), p\<lparr>pr_engine := None\<rparr>))))))"

definition lifespan :: "library_calls \<Rightarrow> (unit, process) op \<Rightarrow> (unit, process) op" where
  "lifespan calls serve = thenp (startup calls) (try_finally serve (shutdown calls))"

subsection \<open>What the drain closes\<close>

definition gone :: "socket \<Rightarrow> bool" where
  "gone s = (so_dead s \<or> so_closed s \<noteq> None)"

lemma close_gone: "gone (rp_sockets r c) \<Longrightarrow> gone (rp_sockets (snd (connection_close status d r)) c)"
  by (auto simp: connection_close_def gone_def Let_def)

lemma close_each_gone: "gone (rp_sockets r c) \<Longrightarrow> gone (rp_sockets (close_each status cs r) c)"
  by (induction cs arbitrary: r) (auto simp: close_gone)

lemma close_each_closes: "c \<in> set cs \<Longrightarrow> gone (rp_sockets (close_each status cs r) c)"
proof (induction cs arbitrary: r)
  case (Cons d cs)
  have "gone (rp_sockets (snd (connection_close status d r)) d)" by (auto simp: connection_close_def gone_def Let_def)
  with Cons show ?case by (auto simp: close_each_gone)
qed simp

lemma drain_frame:
  "rp_channels (drain_sockets d cids r) = rp_channels r" "rp_pubsub (drain_sockets d cids r) = rp_pubsub r"
  "rp_reader (drain_sockets d cids r) = rp_reader r" "rp_failure (drain_sockets d cids r) = rp_failure r"
  "rp_faults (drain_sockets d cids r) = rp_faults r"
  by (simp_all add: drain_sockets_def close_all_def close_each_same split: drain.split)

lemma drained:
  assumes "dom (rp_connections r) \<subseteq> set cids" and "c \<in> members r cid"
  shows "gone (rp_sockets (drain_sockets Drained cids r) c)" and "rp_connections (drain_sockets Drained cids r) = Map.empty"
proof -
  obtain cs where cs: "rp_connections r cid = Some cs" "c \<in> set cs"
    using assms(2) by (cases "rp_connections r cid") (simp_all add: members_def sockets_of_def)
  with assms(1) have "c \<in> set (concat (map (\<lambda>cid. case rp_connections r cid of None \<Rightarrow> [] | Some cs \<Rightarrow> cs) cids))"
    by auto (metis domI option.simps(5) subsetD)
  from close_each_closes [OF this] show "gone (rp_sockets (drain_sockets Drained cids r) c)"
    by (simp add: drain_sockets_def close_all_def)
  show "rp_connections (drain_sockets Drained cids r) = Map.empty"
    by (simp add: drain_sockets_def close_all_def)
qed

subsection \<open>The end of the process\<close>

lemma stop_ok:
  assumes "rp_failure r = None" and "rp_faults r = []"
  shows "subscriber_stop r = (Inr (), r\<lparr>rp_running := False, rp_reader := False, rp_pubsub := {}\<rparr>)"
  using assms by (simp add: subscriber_stop_def pubsub_aclose_def redis_call_def)

lemma stop_failed:
  assumes "rp_failure r = Some e"
  shows "subscriber_stop r = (Inl e, r\<lparr>rp_running := False\<rparr>)"
  using assms by (simp add: subscriber_stop_def)

lemma shutdown_ok:
  assumes "rp_failure (pr_replica p) = None" and "rp_faults (pr_replica p) = []"
    and "lc_redis_aclose calls = Inr ()" and "lc_engine_dispose calls = Inr ()"
  shows "shutdown calls p = (Inr (), p\<lparr>pr_replica :=
      (drain_sockets (lc_drain calls) (lc_conversations calls) (pr_replica p))
        \<lparr>rp_running := False, rp_reader := False, rp_pubsub := {}\<rparr>, pr_engine := None, pr_redis := None\<rparr>)"
  using assms by (simp add: shutdown_def stop_subscriber_def thenp_def bindp_def lift_def stop_ok drain_frame)

lemma shutdown_failed:
  assumes "rp_failure (pr_replica p) = Some e"
  shows "shutdown calls p = (Inl e, p\<lparr>pr_replica :=
    (drain_sockets (lc_drain calls) (lc_conversations calls) (pr_replica p))\<lparr>rp_running := False\<rparr>\<rparr>)"
  using assms by (simp add: shutdown_def stop_subscriber_def thenp_def bindp_def stop_failed drain_frame)

definition started :: "settings \<Rightarrow> process" where
  "started st =
     (let engine = create_engine (set_database_url st)
      in \<lparr>pr_replica = subscriber_start new_replica, pr_engine = Some engine,
          pr_redis = Some (create_redis_client (set_redis_url st)), pr_session_factory = Some (create_session_factory engine),
          pr_rate_limiter = Some \<lparr>rl_limit = set_ws_rate_limit_messages st,
            rl_window_seconds = set_ws_rate_limit_window_seconds st\<rparr>\<rparr>)"

lemma startup_cases:
  "startup calls p =
    (case lc_run_migrations calls of Inl e \<Rightarrow> (Inl e, p)
     | Inr _ \<Rightarrow> case lc_get_settings calls of Inl e \<Rightarrow> (Inl e, p)
     | Inr st \<Rightarrow> case lc_create_engine calls (create_engine (set_database_url st)) of Inl e \<Rightarrow> (Inl e, p)
     | Inr _ \<Rightarrow> case lc_create_redis_client calls (create_redis_client (set_redis_url st)) of
         Inl e \<Rightarrow> (Inl e, p\<lparr>pr_engine := pr_engine (started st), pr_session_factory := pr_session_factory (started st)\<rparr>)
     | Inr _ \<Rightarrow> (Inr (), started st))"
  by (simp add: startup_def started_def thenp_def bindp_def lift_def Let_def split: sum.split)

end
