(* ===== verification/LifespanProperties.thy ===== *)
theory LifespanProperties
  imports Lifespan RealtimeProperties
begin

section \<open>Properties of the application's life\<close>

text \<open>
  That the application boots only with routes that commit what they write, that the end of its life
  releases everything it holds, and what is left when the reader of the replica had died before.
\<close>

definition sample_calls :: library_calls where
  "sample_calls =
     \<lparr>lc_run_migrations = Inr (), lc_get_settings = Inr sample_settings, lc_create_engine = (\<lambda>_. Inr ()),
      lc_create_redis_client = (\<lambda>_. Inr ()), lc_drain = Drained, lc_conversations = [ConversationId 10],
      lc_redis_aclose = Inr (), lc_engine_dispose = Inr ()\<rparr>"

definition sample_process :: process where
  "sample_process =
     \<lparr>pr_replica = new_replica, pr_engine = None, pr_redis = None, pr_session_factory = None, pr_rate_limiter = None\<rparr>"

subsection \<open>Boot\<close>

text \<open>C17: the audit passes exactly when every route reachable from the routers, at any depth, that takes a
  session is one that commits it; the application's own routers pass it, so the application boots
  unless its log level is none that logging knows, and it allows credentials only to origins that are
  named.\<close>

theorem boots_with_committing_routes:
  "(assert_session_routes_are_transactional routers = Inr () \<longleftrightarrow>
     (\<forall>routes \<in> set routers. \<forall>r. reachable_route routes r \<longrightarrow>
        depends_on_session (route_dependant r) \<longrightarrow> is_transactional r)) \<and>
   (\<exists>app. fst (create_app st log) = (if upper (set_log_level st) \<in> set level_names then Inr app else Inl ValueError) \<and>
     (\<forall>routes \<in> set (ap_routers app). \<forall>r. reachable_route routes r \<longrightarrow>
        depends_on_session (route_dependant r) \<longrightarrow> is_transactional r) \<and>
     (ap_allow_credentials app \<longrightarrow> ''*'' \<notin> set (ap_allow_origins app)))"
proof (intro conjI audit_iff)
  let ?app = "\<lparr>ap_allow_origins = set_cors_allow_origins st, ap_allow_credentials = cors_allow_credentials st,
    ap_routers = [health_router, identity_router, conversations_router, ws_router]\<rparr>"
  have "fst (create_app st log) = (if upper (set_log_level st) \<in> set level_names then Inr ?app else Inl ValueError)"
    by (simp add: create_app_def routers_pass configure_logging_def thenp_def bindp_def lift_def ret_def Let_def)
  moreover note routers_pass [unfolded audit_iff]
  ultimately show "\<exists>app. fst (create_app st log) = (if upper (set_log_level st) \<in> set level_names then Inr app else Inl ValueError) \<and>
     (\<forall>routes \<in> set (ap_routers app). \<forall>r. reachable_route routes r \<longrightarrow>
        depends_on_session (route_dependant r) \<longrightarrow> is_transactional r) \<and>
     (ap_allow_credentials app \<longrightarrow> ''*'' \<notin> set (ap_allow_origins app))"
    by (intro exI [of _ ?app]) (simp add: cors_allow_credentials_def)
qed

theorem boots_with_committing_routes_witness:
  "assert_session_routes_are_transactional [[IncludedRouter [ApiRoute [''POST''] ''/x'' False session_only]]] \<noteq> Inr ()"
proof
  let ?r = "ApiRoute [''POST''] ''/x'' False session_only"
  assume "assert_session_routes_are_transactional [[IncludedRouter [?r]]] = Inr ()"
  then have "reachable_route [IncludedRouter [?r]] ?r \<Longrightarrow> depends_on_session (route_dependant ?r) \<Longrightarrow> is_transactional ?r"
    using boots_with_committing_routes [of "[[IncludedRouter [?r]]]"] by (metis list.set_intros(1))
  moreover have "reachable_route [IncludedRouter [?r]] ?r"
    by (rule reachable_route.nested [of "[?r]"]) (auto intro: reachable_route.here)
  ultimately show False by (simp add: session_only_def session_dep_def)
qed

subsection \<open>Shutdown\<close>

text \<open>C16: however serving ends, the end of a started process whose reader has not failed releases what it
  holds: the reader is stopped, the pub/sub connection, the Redis client and the database engine are
  closed, and, when the drain completes in time, every registered socket is closed or dead. What
  serving raised is raised on.\<close>

theorem shutdown_releases_everything:
  assumes "startup calls p = (Inr (), p0)" and "serve p0 = (y, p1)" and "lifespan calls serve p = (x, p')"
    and "rp_failure (pr_replica p1) = None" and "rp_faults (pr_replica p1) = []"
    and "lc_redis_aclose calls = Inr ()" and "lc_engine_dispose calls = Inr ()"
    and "dom (rp_connections (pr_replica p1)) \<subseteq> set (lc_conversations calls)"
  shows "x = y \<and> pr_engine p' = None \<and> pr_redis p' = None \<and> \<not> rp_reader (pr_replica p') \<and> rp_pubsub (pr_replica p') = {} \<and>
    (lc_drain calls = Drained \<and> c \<in> members (pr_replica p1) cid \<longrightarrow> gone (rp_sockets (pr_replica p') c))"
proof -
  have "x = y" "p' = p1\<lparr>pr_replica := (drain_sockets (lc_drain calls) (lc_conversations calls) (pr_replica p1))
        \<lparr>rp_running := False, rp_reader := False, rp_pubsub := {}\<rparr>, pr_engine := None, pr_redis := None\<rparr>"
    using assms(1-3) shutdown_ok [OF assms(4-7)]
    by (auto simp: lifespan_def thenp_def bindp_def try_finally_def split: sum.splits)
  then show ?thesis using drained(1) [OF assms(8)] by auto
qed

theorem shutdown_releases_everything_witness:
  "\<exists>x p'. lifespan sample_calls (\<lambda>p. (Inr (), p\<lparr>pr_replica := sample_replica\<rparr>))
      sample_process = (x, p') \<and>
    pr_engine p' = None \<and> gone (rp_sockets (pr_replica p') 1)"
proof -
  let ?p = "sample_process"
  let ?serve = "\<lambda>p. (Inr (), p\<lparr>pr_replica := sample_replica\<rparr>) :: (exn + unit) \<times> process"
  let ?started = "started sample_settings"
  obtain x p' where run: "lifespan sample_calls ?serve ?p = (x, p')" by (cases "lifespan sample_calls ?serve ?p")
  have start: "startup sample_calls ?p = (Inr (), ?started)" by (simp add: startup_cases sample_calls_def)
  from shutdown_releases_everything [OF start _ run, of "Inr ()" "?started\<lparr>pr_replica := sample_replica\<rparr>" 1 "ConversationId 10"]
  show ?thesis using run
    by (auto simp: sample_replica_eq subscriber_start_def new_replica_def sample_calls_def members_def sockets_of_def)
qed

text \<open>C37: a reader that died of a failed reconnection breaks the shutdown as well: stopping it raises what
  killed it, whatever happened in between, and the pub/sub subscriptions, the Redis client and the
  database engine are never released.\<close>

theorem dead_reader_breaks_shutdown:
  assumes "reading r" and "rp_channels r \<noteq> {}" and "reconnect order r = (Inl e, r1)"
    and "replica_step\<^sup>*\<^sup>* (run_turn order ReadRaised r) (pr_replica p)" and "shutdown calls p = (x, p')"
  shows "x = Inl e \<and> pr_engine p' = pr_engine p \<and> pr_redis p' = pr_redis p \<and>
    rp_pubsub (pr_replica p') = rp_pubsub (pr_replica p)"
proof -
  have "run_turn order ReadRaised r = r1\<lparr>rp_link := Rebuilding, rp_reader := False, rp_failure := Some e\<rparr>"
    using raised_turn [OF _ _ assms(2,3)] assms(1) by (simp add: reading_def)
  with steps_reader [OF assms(4), of e] have "rp_failure (pr_replica p) = Some e" by simp
  from shutdown_failed [OF this, of calls] assms(5) show ?thesis by (simp add: drain_frame)
qed

theorem dead_reader_breaks_shutdown_witness:
  "\<exists>x p'. shutdown sample_calls ((started sample_settings)\<lparr>pr_replica := run_turn [conversation_channel (ConversationId 10)] ReadRaised
        (sample_replica\<lparr>rp_faults := [Served, Refused]\<rparr>)\<rparr>) = (x, p') \<and>
     x = Inl RedisError \<and> pr_engine p' \<noteq> None \<and> pr_redis p' \<noteq> None"
proof -
  let ?r = "sample_replica\<lparr>rp_faults := [Served, Refused]\<rparr>" and ?order = "[conversation_channel (ConversationId 10)]"
  let ?p = "(started sample_settings)\<lparr>pr_replica := run_turn ?order ReadRaised ?r\<rparr>"
  obtain x p' where run: "shutdown sample_calls ?p = (x, p')" by (cases "shutdown sample_calls ?p")
  obtain r1 where "reconnect ?order ?r = (Inl RedisError, r1)"
    by (simp add: reconnect_def pubsub_aclose_def pubsub_subscribe_def redis_call_def proc_simps)
  from dead_reader_breaks_shutdown [OF _ _ this _ run] run show ?thesis
    by (auto simp: sample_replica_eq reading_def subscriber_start_def started_def Let_def)
qed

end
