(* ===== verification/Races.thy ===== *)
theory Races
  imports ConversationPolicy MessagingProperties
begin

section \<open>Two transactions at once\<close>

text \<open>
  The other theories run one transaction at a time. Here a second one commits between the statements
  of a first. Under Postgres' default isolation (READ COMMITTED) a statement sees what was committed
  when it ran, so a transaction whose reads came before the other's commit and whose writes come after
  it is \<open>interrupted reading writing others\<close>: what was read is what was in the database before, what is
  written goes to the database the others left. A transaction that has inserted a message and not
  yet committed has taken its number from the sequence, and nothing else of it is seen.
\<close>

definition interrupted ::
    "('a, session) op \<Rightarrow> ('a \<Rightarrow> ('b, session) op) \<Rightarrow> (database \<Rightarrow> database) \<Rightarrow> ('b, database) op" where
  "interrupted reading writing others db =
     (case reading (open_session db) of
        (Inl e, _) \<Rightarrow> (Inl e, others db)
      | (Inr x, _) \<Rightarrow> unit_of_work (writing x) (others db))"

text \<open>With nothing in between it is the transaction itself.\<close>

lemma interrupted_alone:
  assumes "reading (open_session db) = (x, open_session db)"
  shows "interrupted reading writing (\<lambda>db. db) db = unit_of_work (bindp reading writing) db"
proof (cases x)
  case (Inl e)
  with assms show ?thesis
    using unit_of_work_refused [of "bindp reading writing" db e] by (simp add: interrupted_def bindp_InlI)
next
  case (Inr y)
  with assms show ?thesis by (simp add: interrupted_def unit_of_work_def bindp_assoc [symmetric] bindp_def)
qed

definition refresh_reads :: "api_env \<Rightarrow> string \<Rightarrow> (refresh_token, session) op" where
  "refresh_reads env tok = refresh_lookup sql_refresh_tokens (get_token_service env) tok"

definition refresh_writes :: "api_env \<Rightarrow> refresh_token \<Rightarrow> (token_pair, session) op" where
  "refresh_writes env = refresh_rotate sql_refresh_tokens (get_token_service env) (ae_now env) (refresh_ttl env)"

definition send_reads :: "conversation_id \<Rightarrow> sender_id \<Rightarrow> client_message_id option \<Rightarrow> (message option, session) op" where
  "send_reads = post_message_check sql_conversations sql_messages"

definition send_writes ::
    "datetime \<Rightarrow> conversation_id \<Rightarrow> sender_id \<Rightarrow> message_content \<Rightarrow> client_message_id option \<Rightarrow> message option \<Rightarrow>
     (message \<times> bool, session) op" where
  "send_writes now cid sender content key existing =
     (case existing of
        Some message \<Rightarrow> ret (message, False)
      | None \<Rightarrow> bindp (message_create cid (Some sender) USER content now key) (\<lambda>message. ret (message, True)))"

lemma halves:
  "refresh_access_token sql_refresh_tokens (get_token_service env) (ae_now env) (refresh_ttl env) tok =
     bindp (refresh_reads env tok) (refresh_writes env)"
  "post_message_from_user sql_conversations sql_messages now cid sender content key =
     bindp (send_reads cid sender key) (send_writes now cid sender content key)"
  by (simp_all add: refresh_access_token_def refresh_reads_def refresh_writes_def send_reads_def
      post_message_from_user_def send_writes_def [abs_def] cong: option.case_cong)

subsection \<open>Two exchanges of one refresh token\<close>

text \<open>C6: two exchanges of one refresh token that race both succeed. The second, whose lookup ran before
  the first was committed, is answered as the first was: both successors are stored and active, so one stolen token gives a
  second, independent session.\<close>

theorem racing_refreshes_both_succeed:
  assumes "db_wf db" and "parse_refresh tok = Inr (j, secret)" and "db_token db j = Some t"
    and "rt_token_hash t = hash_secret (ae_backend env) secret" and "ae_backend env' = ae_backend env"
    and "refresh_token_is_active t (ae_now env)" and "refresh_token_is_active t (ae_now env')"
    and "db_token db (uuid_hex (ae_uuid env)) = None" and "db_token db (uuid_hex (ae_uuid env')) = None"
    and "uuid_hex (ae_uuid env) \<noteq> uuid_hex (ae_uuid env')"
    and "api env credentials (Refresh tok) db = (r, db1)"
    and "interrupted (refresh_reads env' tok) (refresh_writes env') (\<lambda>db. snd (api env credentials (Refresh tok) db)) db =
      (x, db2)"
  shows "rs_status r = 200 \<and>
    x = Inr \<lparr>tp_access_token = access_token_of env' (rt_user_id t), tp_refresh_token = refresh_token_of env'\<rparr> \<and>
    db_token db2 (uuid_hex (ae_uuid env)) = Some (stored_token_of env (rt_user_id t)) \<and>
    db_token db2 (uuid_hex (ae_uuid env')) = Some (stored_token_of env' (rt_user_id t))"
proof -
  have first: "rs_status r = 200" "db_token db1 = (db_token db)(j \<mapsto> refresh_token_revoke t (ae_now env),
      uuid_hex (ae_uuid env) \<mapsto> stored_token_of env (rt_user_id t))"
    using refresh_rotates [OF assms(1-4) assms(6,8), of credentials] assms(11) by auto
  have wf: "db_wf db1" using api_wf [OF assms(1), of env credentials "Refresh tok"] assms(11) by simp
  have j: "rt_jti t = j" using rt.stored_jti [of "open_session db" j t] assms(1,3) by simp
  have "ts_parse_refresh (get_token_service env') tok = Inr (j, secret)" using assms(2) by simp
  moreover have "ts_verify_refresh (get_token_service env') secret (rt_token_hash t) = Inr True"
    using assms(4,5) by (simp add: verify_refresh_env del: token_service_env)
  ultimately have read: "refresh_reads env' tok (open_session db) = (Inr t, open_session db)"
    using rt.lookup_known [of "open_session db" "get_token_service env'" tok j secret t True] assms(1,3)
    by (simp add: refresh_reads_def)
  have other: "uuid_hex (ae_uuid env) \<noteq> j" "uuid_hex (ae_uuid env') \<noteq> j" using assms(3,8,9) by auto
  then have now: "db_token db1 (rt_jti t) = Some (refresh_token_revoke t (ae_now env))"
    and free: "db_token db1 (uuid_hex (ae_uuid env')) = None"
    using first(2) j assms(9,10) by simp_all
  have same: "rt_user_id (refresh_token_revoke t (ae_now env)) = rt_user_id t" by (simp add: refresh_token_revoke_def)
  from rt.rotate_read [where s = "open_session db1" and ttl = "refresh_ttl env'" and t = t and now = "ae_now env'",
      OF _ _ same assms(7) generate_refresh_env [of env'] _ issue_access_env [of env']] wf now free
  obtain s where s: "refresh_writes env' t (open_session db1) =
      (Inr \<lparr>tp_access_token = access_token_of env' (rt_user_id t), tp_refresh_token = refresh_token_of env'\<rparr>, s)"
    "ready_to_commit s"
    "db_token (flushed s) = (db_token db1)(j \<mapsto> refresh_token_revoke t (ae_now env'),
       uuid_hex (ae_uuid env') \<mapsto> stored_token_of env' (rt_user_id t))"
    by (auto simp: refresh_writes_def stored_token_of_def j)
  have "(x, db2) = unit_of_work (refresh_writes env' t) db1" using assms(11,12) read by (simp add: interrupted_def)
  then have "x = Inr \<lparr>tp_access_token = access_token_of env' (rt_user_id t), tp_refresh_token = refresh_token_of env'\<rparr>"
    "db2 = flushed s" using unit_of_work_ready [where m = "refresh_writes env' t", OF s(1,2)] by simp_all
  with first s(3) other assms(10) show ?thesis by simp
qed

lemma sample_live_token:
  "parse_refresh ''j.s'' = Inr (''j'', ''s'')"
  "db_token sample_db ''j'' = Some \<lparr>rt_jti = ''j'', rt_user_id = UserId 1, rt_token_hash = ''s'', rt_expires_at = 100,
     rt_revoked_at = None\<rparr>"
  "db_token sample_db (uuid_hex u) = None"
proof -
  show "parse_refresh ''j.s'' = Inr (''j'', ''s'')" by code_simp
  show "db_token sample_db ''j'' = Some \<lparr>rt_jti = ''j'', rt_user_id = UserId 1, rt_token_hash = ''s'',
      rt_expires_at = 100, rt_revoked_at = None\<rparr>"
    by (simp add: db_token_def sample_db_def refresh_token_to_domain_def)
  have "length (uuid_hex u) \<noteq> length ''j''" by simp
  then have "uuid_hex u \<noteq> ''j''" by metis
  then show "db_token sample_db (uuid_hex u) = None" by (auto simp: db_token_def sample_db_def)
qed

theorem racing_refreshes_both_succeed_witness:
  "\<exists>x db2. interrupted (refresh_reads (sample_env 8 5 ''s3'') ''j.s'') (refresh_writes (sample_env 8 5 ''s3''))
      (\<lambda>db. snd (api (sample_env 7 4 ''s2'') None (Refresh ''j.s'') db)) sample_db = (Inr x, db2) \<and>
     db_token db2 (uuid_hex 4) \<noteq> None \<and> db_token db2 (uuid_hex 5) \<noteq> None"
proof -
  obtain r db1 where 1: "api (sample_env 7 4 ''s2'') None (Refresh ''j.s'') sample_db = (r, db1)"
    by (cases "api (sample_env 7 4 ''s2'') None (Refresh ''j.s'') sample_db")
  obtain x db2 where 2: "interrupted (refresh_reads (sample_env 8 5 ''s3'') ''j.s'') (refresh_writes (sample_env 8 5 ''s3''))
      (\<lambda>db. snd (api (sample_env 7 4 ''s2'') None (Refresh ''j.s'') db)) sample_db = (x, db2)"
    by (cases "interrupted (refresh_reads (sample_env 8 5 ''s3'') ''j.s'') (refresh_writes (sample_env 8 5 ''s3''))
      (\<lambda>db. snd (api (sample_env 7 4 ''s2'') None (Refresh ''j.s'') db)) sample_db")
  have "uuid_hex (4 :: uuid) \<noteq> uuid_hex 5" by code_simp
  with racing_refreshes_both_succeed [OF sample_db_wf sample_live_token(1,2) _ _ _ _ _ _ _ 1 2] show ?thesis
    using 2 by (auto simp: sample_live_token hash_secret_def sample_backend_def refresh_token_is_active_def)
qed

subsection \<open>Two sends under one key\<close>

lemma keeps_send_writes: "content_wf content \<Longrightarrow> keeps n (send_writes now cid sender content key existing)"
  unfolding send_writes_def
  by (cases existing) (auto intro!: keeps_ret keeps_bindp keeps_writes)

lemma send_writes_duplicate:
  assumes "db_wf db" and "db_known_conversation db cid" and "content_wf content"
    and "find (has_client_id k) (db_history db cid) = Some m"
  shows "\<exists>s. unit_of_work (send_writes now cid sender content (Some k) None) db = (Inl IntegrityError, rollback db s)"
proof -
  have "fst (message_create cid (Some sender) USER content now (Some k) (open_session db)) = Inl IntegrityError"
    using mt.create_duplicate_law [of "open_session db" cid content k] assms by simp
  then have "fst (send_writes now cid sender content (Some k) None (open_session db)) = Inl IntegrityError"
    by (cases "message_create cid (Some sender) USER content now (Some k) (open_session db)")
      (simp add: send_writes_def bindp_def)
  then show ?thesis
    using unit_of_work_error [of "send_writes now cid sender content (Some k) None" db IntegrityError]
    by (cases "send_writes now cid sender content (Some k) None (open_session db)") auto
qed

lemma rolled_back:
  assumes "db_wf db" and "content_wf content"
    and "unit_of_work (send_writes now cid sender content key None) db = (x, rollback db s)"
  shows "db_wf (rollback db s)" and "only_messages db (rollback db s)" and "db_history (rollback db s) = db_history db"
  using unit_of_work_keeps(1) [where m = "send_writes now cid sender content key None", OF _ assms(1)]
    keeps_send_writes [OF assms(2)] assms(3)
  by (metis snd_conv) (simp_all add: rollback_def only_messages_def db_history_def fun_eq_iff)

text \<open>C8: the unique constraint is the backstop of the idempotent send: a second send under a client message
  id, whose check ran before the first was committed, raises, and the conversation holds the first
  message alone; sent again, it returns that message.\<close>

theorem racing_sends_store_one:
  assumes "db_wf db" and "member db cid (sender_id_value sender)" and "content_wf content"
    and "member db cid (sender_id_value sender')" and "content_wf content'"
    and "find (has_client_id k) (db_history db cid) = None"
    and "mw_from_user (sql_message_writer now now) cid sender content (Some k) db = (Inr (m, True), db1)"
    and "interrupted (send_reads cid sender' (Some k)) (send_writes now' cid sender' content' (Some k))
      (\<lambda>db. snd (mw_from_user (sql_message_writer now now) cid sender content (Some k) db)) db = (x, db2)"
  shows "x = Inl IntegrityError \<and> db_history db2 cid = db_history db cid @ [m] \<and>
    mw_from_user (sql_message_writer now' now') cid sender' content' (Some k) db2 = (Inr (m, False), db2)"
proof -
  obtain c c' where c: "visible (db_conversation db cid) = Some c" "ParticipantId (sender_id_value sender) \<in> c_participant_ids c"
    "visible (db_conversation db cid) = Some c'" "ParticipantId (sender_id_value sender') \<in> c_participant_ids c'"
    using assms(2,4) by (meson memberE)
  from writer_new [where key = "Some k" and now = now and later = now, OF assms(1-3)] assms(6,7)
  have db1: "db_wf db1" "db_history db1 = (db_history db)(cid := db_history db cid @ [m])" "m_client_message_id m = Some k"
    by (auto dest: arg_cong [where f = m_client_message_id])
  have frame: "only_messages db db1"
    using writer_frame [OF assms(1), of now now cid sender content "Some k"] assms(7) by simp
  have read: "send_reads cid sender' (Some k) (open_session db) = (Inr None, open_session db)"
    using st.check_result [of "open_session db" cid sender' "Some k"] assms(1,6) c by (simp add: send_reads_def)
  have found: "find (has_client_id k) (db_history db1 cid) = Some m"
    using assms(6) db1(2,3) by (simp add: find_append has_client_id_def)
  have known: "db_known_conversation db1 cid"
    using only_messages_views(3) [OF frame] visible_SomeD [OF c(1)] by (metis db_conversation_None db_known_conversation_def option.distinct(1))
  have "(x, db2) = unit_of_work (send_writes now' cid sender' content' (Some k) None) db1"
    using assms(7,8) read by (simp add: interrupted_def)
  with send_writes_duplicate [OF db1(1) known assms(5) found, of now' sender'] obtain s where
    s: "x = Inl IntegrityError" "db2 = rollback db1 s"
      "unit_of_work (send_writes now' cid sender' content' (Some k) None) db1 = (x, rollback db1 s)" by auto
  note same = rolled_back [OF db1(1) assms(5) s(3), folded s(2)]
  have "member db2 cid (sender_id_value sender')"
    using only_messages_views(2) [OF same(2)] only_messages_views(2) [OF frame] assms(4) by simp
  from writer_duplicate [OF same(1) this] found same(3)
  have "mw_from_user (sql_message_writer now' now') cid sender' content' (Some k) db2 = (Inr (m, False), db2)" by simp
  with s(1) same(3) db1(2) show ?thesis by simp
qed

theorem racing_sends_store_one_witness:
  "\<exists>m db2. interrupted (send_reads (ConversationId 10) (SenderId 1) (Some (ClientMessageId 9)))
      (send_writes 6 (ConversationId 10) (SenderId 1) (MessageContent ''hi'') (Some (ClientMessageId 9)))
      (\<lambda>db. snd (mw_from_user (sql_message_writer 5 5) (ConversationId 10) (SenderId 1) (MessageContent ''hi'')
        (Some (ClientMessageId 9)) db)) sample_db = (Inl IntegrityError, db2) \<and>
     db_history db2 (ConversationId 10) = db_history sample_db (ConversationId 10) @ [m]"
proof -
  let ?k = "Some (ClientMessageId 9)" and ?cid = "ConversationId 10" and ?hi = "MessageContent ''hi''"
  let ?first = "mw_from_user (sql_message_writer 5 5) ?cid (SenderId 1) ?hi ?k"
  let ?second = "interrupted (send_reads ?cid (SenderId 1) ?k) (send_writes 6 ?cid (SenderId 1) ?hi ?k) (\<lambda>db. snd (?first db)) sample_db"
  have wf: "content_wf ?hi" by (simp add: content_wf_def)
  have mem: "member sample_db ?cid (sender_id_value (SenderId 1))" using sample_member by simp
  have free: "find (has_client_id (ClientMessageId 9)) (db_history sample_db ?cid) = None"
    by (simp add: find_None_iff db_history_def sample_db_def sample_message_def message_of_row_def has_client_id_def)
  then have "\<forall>k. ?k = Some k \<longrightarrow> find (has_client_id k) (db_history sample_db ?cid) = None" by simp
  from writer_new [OF sample_db_wf mem wf this, of 5 5] obtain m db1 where 1: "?first sample_db = (Inr (m, True), db1)" by blast
  obtain x db2 where 2: "?second = (x, db2)" by (cases ?second)
  from racing_sends_store_one [OF sample_db_wf mem wf mem wf free 1 2] 2 show ?thesis by auto
qed

subsection \<open>Numbers out of order\<close>

text \<open>What a transaction committing now adds to the messages others have committed since it began.\<close>

definition commit_late :: "session \<Rightarrow> database \<Rightarrow> database \<Rightarrow> database" where
  "commit_late s began current =
     current\<lparr>db_messages := sort_key mm_id (db_messages current @ drop (length (db_messages began)) (db_messages (s_db s)))\<rparr>"

lemma post_new_row:
  assumes "db_wf db" and "member db cid (sender_id_value sender)" and "content_wf content"
    and "\<forall>k. key = Some k \<longrightarrow> find (has_client_id k) (db_history db cid) = None"
    and "post_message_from_user sql_conversations sql_messages now cid sender content key (open_session db) = (Inr (m, True), s)"
  shows "\<exists>r. m = message_of_row r \<and> r = (new_message_row cid (Some sender) USER content now key)\<lparr>mm_id := db_message_seq db + 1\<rparr> \<and>
    s = (open_session db)\<lparr>s_db := db\<lparr>db_message_seq := db_message_seq db + 1, db_messages := db_messages db @ [r]\<rparr>\<rparr> \<and>
    db_wf (s_db s)"
proof -
  obtain c where c: "visible (db_conversation db cid) = Some c" "ParticipantId (sender_id_value sender) \<in> c_participant_ids c"
    using assms(2) by (rule memberE)
  have "send_reads cid sender key (open_session db) = (Inr None, open_session db)"
    using st.check_result [of "open_session db" cid sender key] assms(1,4) c by (auto simp: send_reads_def split: option.split)
  then have create: "bindp (message_create cid (Some sender) USER content now key) (\<lambda>m. ret (m, True)) (open_session db) =
      (Inr (m, True), s)"
    using assms(5) by (simp add: halves(2) bindp_InrI send_writes_def)
  have known: "db_known_conversation db cid"
    using visible_SomeD [OF c(1)] by (metis db_conversation_None db_known_conversation_def option.distinct(1))
  have "\<not> key_taken (conversation_id_value cid) (map_option client_message_id_value key) (db_messages db)"
    using assms(4) by (auto simp: key_taken_iff)
  from message_create_ok [of "open_session db" cid content key "Some sender" USER now] assms(1,3) known this
  obtain d r where "message_create cid (Some sender) USER content now key (open_session db) =
      (Inr (message_of_row r), (open_session db)\<lparr>s_db := d\<rparr>)" "db_wf d"
    "r = (new_message_row cid (Some sender) USER content now key)\<lparr>mm_id := db_message_seq db + 1\<rparr>"
    "d = db\<lparr>db_message_seq := db_message_seq db + 1, db_messages := db_messages db @ [r]\<rparr>"
    by auto
  with create show ?thesis by (intro exI [of _ r]) (auto simp: bindp_InrI ret_def)
qed

lemma late_row_sorts:
  assumes "sorted_wrt (<) (map mm_id (ms @ [r, r']))"
  shows "sort_key mm_id ((ms @ [r']) @ [r]) = ms @ [r, r']"
proof (rule map_sorted_distinct_set_unique [where f = mm_id])
  have d: "distinct (map mm_id (ms @ [r, r']))" "sorted (map mm_id (ms @ [r, r']))"
    using assms by (simp_all only: strict_sorted_iff)
  have same: "set (sort_key mm_id ((ms @ [r']) @ [r])) = set (ms @ [r, r'])" by auto
  have inj: "inj_on mm_id (set (ms @ [r, r']))" "distinct (ms @ [r, r'])"
    using d(1) by (simp_all only: distinct_map)
  then show "inj_on mm_id (set (sort_key mm_id ((ms @ [r']) @ [r])) \<union> set (ms @ [r, r']))"
    by (simp only: same Un_absorb)
  have "distinct (sort_key mm_id ((ms @ [r']) @ [r]))" using inj(2) by auto
  then show "distinct (map mm_id (sort_key mm_id ((ms @ [r']) @ [r])))"
    using inj(1) by (simp only: distinct_map same simp_thms)
  show "distinct (map mm_id (ms @ [r, r']))" "sorted (map mm_id (ms @ [r, r']))" by (rule d)+
  show "set (sort_key mm_id ((ms @ [r']) @ [r])) = set (ms @ [r, r'])" by (rule same)
qed simp

lemma distinct_filter_snoc2:
  "distinct (map f (filter P (xs @ [a]))) \<Longrightarrow> distinct (map f (filter P (xs @ [b]))) \<Longrightarrow>
    (P a \<Longrightarrow> P b \<Longrightarrow> f a \<noteq> f b) \<Longrightarrow> distinct (map f (filter P (xs @ [a, b])))"
  by (cases "P a"; cases "P b"; auto)

lemma late_commit_wf:
  assumes "db_wf (db\<lparr>db_message_seq := n, db_messages := ms @ [r]\<rparr>)"
    and "db_wf (db\<lparr>db_message_seq := n + 1, db_messages := ms @ [r']\<rparr>)"
    and "mm_id r = n" and "mm_id r' = n + 1" and "\<forall>q \<in> set ms. mm_id q < n"
    and "mm_client_message_id r = None \<or> mm_client_message_id r \<noteq> mm_client_message_id r'"
  shows "db_wf (db\<lparr>db_message_seq := n + 1, db_messages := ms @ [r, r']\<rparr>)"
proof -
  have m: "messages_wf (db\<lparr>db_message_seq := n, db_messages := ms @ [r]\<rparr>)"
    "messages_wf (db\<lparr>db_message_seq := n + 1, db_messages := ms @ [r']\<rparr>)"
    using assms(1,2) by (simp_all only: db_wf_def)
  have "sorted_wrt (<) (map mm_id (ms @ [r, r']))"
    using m(1) assms(3-5) by (auto simp: messages_wf_def sorted_wrt_append)
  moreover have "distinct (map mm_key (filter (\<lambda>r. mm_client_message_id r \<noteq> None) (ms @ [r, r'])))"
    using m assms(6) by (intro distinct_filter_snoc2) (simp_all add: messages_wf_def mm_key_def)
  ultimately have "messages_wf (db\<lparr>db_message_seq := n + 1, db_messages := ms @ [r, r']\<rparr>)"
    using m assms(3-5) by (auto simp: messages_wf_def)
  with assms(2) show ?thesis
    by (simp add: db_wf_def users_wf_def tokens_wf_def conversations_wf_def participants_wf_def owners_admitted_def)
qed

text \<open>The rows two overlapping sends insert.\<close>

lemma overlapping_rows:
  assumes "db_wf db" and "member db cid (sender_id_value sender)" and "member db cid (sender_id_value sender')"
    and "content_wf content" and "content_wf content'" and "key = None \<or> key \<noteq> key'"
    and "\<forall>k. key = Some k \<or> key' = Some k \<longrightarrow> find (has_client_id k) (db_history db cid) = None"
    and "post_message_from_user sql_conversations sql_messages now cid sender content key (open_session db) = (Inr (m, True), s)"
    and "mw_from_user (sql_message_writer now' now') cid sender' content' key'
      (db\<lparr>db_message_seq := db_message_seq (s_db s)\<rparr>) = (Inr (m', True), db1)"
  obtains r r' where "m = message_of_row r" and "m' = message_of_row r'"
    and "mm_id r = db_message_seq db + 1" and "mm_id r' = db_message_seq db + 1 + 1"
    and "mm_conversation_id r = conversation_id_value cid" and "mm_conversation_id r' = conversation_id_value cid"
    and "mm_client_message_id r = None \<or> mm_client_message_id r \<noteq> mm_client_message_id r'"
    and "s_db s = db\<lparr>db_message_seq := db_message_seq db + 1, db_messages := db_messages db @ [r]\<rparr>" and "db_wf (s_db s)"
    and "db1 = db\<lparr>db_message_seq := db_message_seq db + 1 + 1, db_messages := db_messages db @ [r']\<rparr>" and "db_wf db1"
proof -
  let ?n = "db_message_seq db" and ?busy = "db\<lparr>db_message_seq := db_message_seq (s_db s)\<rparr>"
  obtain r where r: "m = message_of_row r" "r = (new_message_row cid (Some sender) USER content now key)\<lparr>mm_id := ?n + 1\<rparr>"
    "s = (open_session db)\<lparr>s_db := db\<lparr>db_message_seq := ?n + 1, db_messages := db_messages db @ [r]\<rparr>\<rparr>" "db_wf (s_db s)"
    using post_new_row [OF assms(1,2,4) _ assms(8)] assms(7) by blast
  have busy: "?busy = db\<lparr>db_message_seq := ?n + 1\<rparr>" using r(3) by simp
  have wf: "db_wf ?busy" unfolding busy using assms(1) by (rule db_wf_seq) simp
  have "only_messages db ?busy" "db_history ?busy = db_history db"
    by (simp_all add: only_messages_def db_history_def fun_eq_iff)
  then have mem: "member ?busy cid (sender_id_value sender')" "db_history ?busy = db_history db"
    using assms(3) only_messages_views(2) by blast+
  have fresh: "\<forall>k. key' = Some k \<longrightarrow> find (has_client_id k) (db_history ?busy cid) = None"
    using assms(7) mem(2) by simp
  from unit_of_work_Inr [OF assms(9) [unfolded writer_simps]] obtain s' where
    s': "post_message_from_user sql_conversations sql_messages now' cid sender' content' key' (open_session ?busy) = (Inr (m', True), s')"
    "insert_all (s_new s') (s_db s') = Inr db1" by blast
  obtain r' where r': "m' = message_of_row r'"
    "r' = (new_message_row cid (Some sender') USER content' now' key')\<lparr>mm_id := db_message_seq ?busy + 1\<rparr>"
    "s' = (open_session ?busy)\<lparr>s_db := ?busy\<lparr>db_message_seq := db_message_seq ?busy + 1, db_messages := db_messages ?busy @ [r']\<rparr>\<rparr>"
    "db_wf (s_db s')"
    using post_new_row [OF wf mem(1) assms(5) fresh s'(1)] by blast
  have "mm_client_message_id r = map_option client_message_id_value key"
    "mm_client_message_id r' = map_option client_message_id_value key'"
    using r(2) r'(2) by (simp_all add: new_message_row_def)
  then have "mm_client_message_id r = None \<or> mm_client_message_id r \<noteq> mm_client_message_id r'"
    using assms(6) by (cases key; cases key') (auto dest: client_message_id.expand)
  moreover have "db1 = db\<lparr>db_message_seq := ?n + 1 + 1, db_messages := db_messages db @ [r']\<rparr>" "db_wf db1"
    using s'(2) r'(3,4) busy by simp_all
  ultimately show thesis
    using r r'(1,2) busy by (intro that [of r r']) (simp_all add: new_message_row_def)
qed

text \<open>C11: messages are numbered in the order they are inserted and seen in the order they are committed.
  When a send that took the lower number commits after one that took the higher, a client that has
  seen the second and comes back with its number as cursor is sent nothing, although the first,
  which it has not seen, is in the history. Nor does any later replay return it, whatever is
  written in between and whichever later message the client has seen, while the history holds it for good.\<close>

theorem late_commit_is_never_replayed:
  assumes "db_wf db" and "member db cid (sender_id_value sender)" and "member db cid (sender_id_value sender')"
    and "content_wf content" and "content_wf content'" and "key = None \<or> key \<noteq> key'"
    and "\<forall>k. key = Some k \<or> key' = Some k \<longrightarrow> find (has_client_id k) (db_history db cid) = None"
    and "post_message_from_user sql_conversations sql_messages now cid sender content key (open_session db) = (Inr (m, True), s)"
    and "mw_from_user (sql_message_writer now' now') cid sender' content' key'
      (db\<lparr>db_message_seq := db_message_seq (s_db s)\<rparr>) = (Inr (m', True), db1)"
    and "db2 = commit_late s db db1"
  shows "m_id m < m_id m' \<and> db_history db1 cid = db_history db cid @ [m'] \<and> db_history db2 cid = db_history db cid @ [m, m'] \<and>
    sql_message_replayer cid (Some (m_id m')) db2 = (Inr [], db2) \<and>
    (\<forall>events n. m_id m' \<le> n \<longrightarrow>
       m \<in> set (db_history (store_run events db2) cid) \<and>
       (\<exists>ms. fst (sql_message_replayer cid (Some n) (store_run events db2)) = Inr ms \<and> m \<notin> set ms))"
proof -
  let ?n = "db_message_seq db" and ?ms = "db_messages db"
  obtain r r' where rows: "m = message_of_row r" "m' = message_of_row r'"
    and ids: "mm_id r = ?n + 1" "mm_id r' = ?n + 1 + 1"
    and here: "mm_conversation_id r = conversation_id_value cid" "mm_conversation_id r' = conversation_id_value cid"
    and keys: "mm_client_message_id r = None \<or> mm_client_message_id r \<noteq> mm_client_message_id r'"
    and first: "s_db s = db\<lparr>db_message_seq := ?n + 1, db_messages := ?ms @ [r]\<rparr>" "db_wf (s_db s)"
    and second: "db1 = db\<lparr>db_message_seq := ?n + 1 + 1, db_messages := ?ms @ [r']\<rparr>" "db_wf db1"
    by (rule overlapping_rows [OF assms(1-9)])
  have below: "\<forall>q \<in> set ?ms. mm_id q < ?n + 1" using assms(1) by (auto simp: db_wf_def messages_wf_def)
  have "sorted_wrt (<) (map mm_id ?ms)" using assms(1) by (simp add: db_wf_def messages_wf_def)
  then have "sorted_wrt (<) (map mm_id (?ms @ [r, r']))" using ids below by (auto simp: sorted_wrt_append)
  from late_row_sorts [OF this] have db2: "db2 = db\<lparr>db_message_seq := ?n + 1 + 1, db_messages := ?ms @ [r, r']\<rparr>"
    using assms(10) first(1) second(1) by (simp add: commit_late_def)
  have wf2: "db_wf db2" unfolding db2
    by (rule late_commit_wf [where n = "?n + 1"]) (use first second ids below keys in simp_all)
  have h: "db_history db1 cid = db_history db cid @ [m']" "db_history db2 cid = db_history db cid @ [m, m']"
    using here rows by (simp_all add: second(1) db2 db_history_def)
  have "filter (id_above (Some (m_id m'))) (db_history db2 cid) = []"
    using below ids rows unfolding h(2)
    by (auto simp: filter_empty_conv id_above_def db_history_def less_message_id_def)
  moreover have below: "m_id m < m_id m'" using ids rows by (simp add: less_message_id_def)
  moreover have "m \<in> set (db_history (store_run events db2) cid) \<and>
      (\<exists>ms. fst (sql_message_replayer cid (Some n) (store_run events db2)) = Inr ms \<and> m \<notin> set ms)"
    if "m_id m' \<le> n" for events n
    using replay_passes_over [OF wf2, of m cid n events] below that h(2) by simp
  ultimately show ?thesis using sql_replay [OF wf2] h by simp
qed

theorem late_commit_is_never_replayed_witness:
  "\<exists>m m' s db1. m \<in> set (db_history (commit_late s sample_db db1) (ConversationId 10)) \<and>
     m \<notin> set (db_history db1 (ConversationId 10)) \<and> m' \<in> set (db_history db1 (ConversationId 10)) \<and>
     fst (sql_message_replayer (ConversationId 10) (Some (m_id m')) (commit_late s sample_db db1)) = Inr [] \<and>
     (\<exists>ms. fst (sql_message_replayer (ConversationId 10) (Some (m_id m'))
         (store_run [UserMessage 7 (ConversationId 10) (SenderId 1) ''hello'' None] (commit_late s sample_db db1))) = Inr ms \<and>
       m \<notin> set ms)"
proof -
  let ?cid = "ConversationId 10" and ?hi = "MessageContent ''hi''" and ?yo = "MessageContent ''yo''"
  have content: "content_wf ?hi" "content_wf ?yo" by (simp_all add: content_wf_def)
  have mem: "member sample_db ?cid (sender_id_value (SenderId 1))" "member sample_db ?cid (sender_id_value (SenderId 2))"
    using sample_member by simp_all
  obtain c where c: "visible (db_conversation sample_db ?cid) = Some c"
    "ParticipantId (sender_id_value (SenderId 1)) \<in> c_participant_ids c"
    using mem(1) by (rule memberE)
  have clean: "clean (open_session sample_db)" by simp
  from st.from_user_new [where key = None and now = 5, OF clean _ c(2) content(1), of ?cid] c(1)
  obtain s m where 1: "post_message_from_user sql_conversations sql_messages 5 ?cid (SenderId 1) ?hi None
      (open_session sample_db) = (Inr (m, True), s)" by auto
  let ?busy = "sample_db\<lparr>db_message_seq := db_message_seq (s_db s)\<rparr>"
  from post_new_row [OF sample_db_wf mem(1) content(1) _ 1] obtain r where
    r: "m = message_of_row r" "mm_id r = 4" "db_message_seq (s_db s) = 4" by auto
  have "db_wf ?busy" unfolding r(3) by (rule db_wf_seq [OF sample_db_wf]) simp
  moreover have "only_messages sample_db ?busy" by (simp add: only_messages_def)
  then have "member ?busy ?cid (sender_id_value (SenderId 2))" using mem(2) only_messages_views(2) by blast
  ultimately obtain db1 m' where 2: "mw_from_user (sql_message_writer 6 6) ?cid (SenderId 2) ?yo None ?busy = (Inr (m', True), db1)"
    using writer_new [where key = None and now = 6 and later = 6, OF _ _ content(2)] by blast
  from late_commit_is_never_replayed [OF sample_db_wf mem content _ _ 1 2 refl]
  have h: "m_id m < m_id m'" "db_history db1 ?cid = db_history sample_db ?cid @ [m']"
    "db_history (commit_late s sample_db db1) ?cid = db_history sample_db ?cid @ [m, m']"
    "fst (sql_message_replayer ?cid (Some (m_id m')) (commit_late s sample_db db1)) = Inr []"
    "\<exists>ms. fst (sql_message_replayer ?cid (Some (m_id m'))
      (store_run [UserMessage 7 ?cid (SenderId 1) ''hello'' None] (commit_late s sample_db db1))) = Inr ms \<and> m \<notin> set ms"
    by (auto simp del: store_run.simps store_step.simps)
  have "m \<notin> set (db_history sample_db ?cid)"
    using r(1,2) by (auto simp: db_history_def sample_db_def sample_message_def dest!: arg_cong [where f = m_id])
  with h show ?thesis by (intro exI [of _ m] exI [of _ m'] exI [of _ s] exI [of _ db1]) auto
qed

end
