(* ===== verification/Migrations.thy ===== *)
theory Migrations
  imports Identifiers Prelude
begin

section \<open>The schema and its migrations\<close>

text \<open>
  \<open>src/migrations/versions\<close>: the five revisions as operations on a catalog of tables with their rows,
  \<open>migrations/env.py\<close>: one run of the migrations, and the tables the row models of both contexts
  declare. An operation of Alembic's \<open>op\<close> is its DDL statement: it fails when its object is there or
  is missing, or when the rows break what it asks for, as SQL has it. A row gives a value per column; a column a
  table does not have is \<open>Null\<close> in its rows.
\<close>

subsection \<open>Catalogs\<close>

datatype column_type = Uuid_t | String_t "nat option" | Text_t | BigInteger_t | DateTime_tz

datatype cell = Null | UuidCell uuid | TextCell string | IntCell int | TimeCell int

type_synonym row = "string \<Rightarrow> cell"

record column =
  co_name :: string
  co_type :: column_type
  co_nullable :: bool
  co_autoincrement :: bool
  co_server_default :: "cell option"

datatype table_constraint =
    PrimaryKey "string list"
  | ForeignKey "string list" string "string list" bool
  | UniqueKey string "string list"

record table =
  tb_name :: string
  tb_columns :: "column list"
  tb_constraints :: "table_constraint list"
  tb_rows :: "row list"

record table_index =
  ix_name :: string
  ix_table :: string
  ix_columns :: "string list"
  ix_unique :: bool

record catalog =
  ct_tables :: "table list"
  ct_indexes :: "table_index list"

definition empty_catalog :: catalog where
  "empty_catalog = \<lparr>ct_tables = [], ct_indexes = []\<rparr>"

datatype ddl_error =
    DuplicateObject
  | UndefinedObject
  | DependentObjects
  | NotNullViolation
  | UniqueViolation
  | ForeignKeyViolation
  | UnknownRevision

type_synonym ddl = "catalog \<Rightarrow> ddl_error + catalog"

definition column :: "string \<Rightarrow> column_type \<Rightarrow> bool \<Rightarrow> column" where
  "column name ty nullable =
     \<lparr>co_name = name, co_type = ty, co_nullable = nullable, co_autoincrement = False, co_server_default = None\<rparr>"

subsection \<open>Operations\<close>

definition find_table :: "string \<Rightarrow> catalog \<Rightarrow> table option" where
  "find_table name c = find (\<lambda>t. tb_name t = name) (ct_tables c)"

fun refers_to :: "string \<Rightarrow> table_constraint \<Rightarrow> bool" where
  "refers_to name (ForeignKey _ target _ _) = (target = name)"
| "refers_to name _ = False"

definition create_table :: "string \<Rightarrow> column list \<Rightarrow> table_constraint list \<Rightarrow> ddl" where
  "create_table name columns constraints c =
     (if find_table name c \<noteq> None then Inl DuplicateObject
      else Inr (c\<lparr>ct_tables := ct_tables c @
             [\<lparr>tb_name = name, tb_columns = columns, tb_constraints = constraints, tb_rows = []\<rparr>]\<rparr>))"

definition drop_table :: "string \<Rightarrow> ddl" where
  "drop_table name c =
     (if find_table name c = None then Inl UndefinedObject
      else if \<exists>t \<in> set (ct_tables c). tb_name t \<noteq> name \<and> (\<exists>k \<in> set (tb_constraints t). refers_to name k)
      then Inl DependentObjects
      else Inr \<lparr>ct_tables = filter (\<lambda>t. tb_name t \<noteq> name) (ct_tables c),
                ct_indexes = filter (\<lambda>i. ix_table i \<noteq> name) (ct_indexes c)\<rparr>)"

text \<open>A change of one table, which must be there.\<close>

definition put_table :: "string \<Rightarrow> table \<Rightarrow> catalog \<Rightarrow> catalog" where
  "put_table name t c = c\<lparr>ct_tables := map (\<lambda>q. if tb_name q = name then t else q) (ct_tables c)\<rparr>"

definition alter_table :: "string \<Rightarrow> (table \<Rightarrow> ddl_error + table) \<Rightarrow> ddl" where
  "alter_table name f c =
     (case find_table name c of
        None \<Rightarrow> Inl UndefinedObject
      | Some t \<Rightarrow> bindr (f t) (\<lambda>t'. Inr (put_table name t' c)))"

definition key_of :: "string list \<Rightarrow> row \<Rightarrow> cell list" where
  "key_of columns row = map row columns"

text \<open>Rows with a \<open>Null\<close> in the key are distinct from every other.\<close>

definition keys_unique :: "string list \<Rightarrow> row list \<Rightarrow> bool" where
  "keys_unique columns rows = distinct (filter (\<lambda>k. Null \<notin> set k) (map (key_of columns) rows))"

definition create_index :: "string \<Rightarrow> string \<Rightarrow> string list \<Rightarrow> bool \<Rightarrow> ddl" where
  "create_index name table columns unique c =
     (case find_table table c of
        None \<Rightarrow> Inl UndefinedObject
      | Some t \<Rightarrow>
          if \<exists>i \<in> set (ct_indexes c). ix_name i = name then Inl DuplicateObject
          else if unique \<and> \<not> keys_unique columns (tb_rows t) then Inl UniqueViolation
          else Inr (c\<lparr>ct_indexes := ct_indexes c @
                 [\<lparr>ix_name = name, ix_table = table, ix_columns = columns, ix_unique = unique\<rparr>]\<rparr>))"

definition drop_index :: "string \<Rightarrow> ddl" where
  "drop_index name c =
     (if \<forall>i \<in> set (ct_indexes c). ix_name i \<noteq> name then Inl UndefinedObject
      else Inr (c\<lparr>ct_indexes := filter (\<lambda>i. ix_name i \<noteq> name) (ct_indexes c)\<rparr>))"

definition add_column :: "string \<Rightarrow> column \<Rightarrow> ddl" where
  "add_column table new = alter_table table (\<lambda>t.
     let value = (case co_server_default new of None \<Rightarrow> Null | Some v \<Rightarrow> v)
     in if co_name new \<in> co_name ` set (tb_columns t) then Inl DuplicateObject
        else if \<not> co_nullable new \<and> value = Null \<and> tb_rows t \<noteq> [] then Inl NotNullViolation
        else Inr (t\<lparr>tb_columns := tb_columns t @ [new],
                    tb_rows := map (\<lambda>row. row(co_name new := value)) (tb_rows t)\<rparr>))"

fun mentions :: "string \<Rightarrow> table_constraint \<Rightarrow> bool" where
  "mentions col (PrimaryKey columns) = (col \<in> set columns)"
| "mentions col (ForeignKey columns _ _ _) = (col \<in> set columns)"
| "mentions col (UniqueKey _ columns) = (col \<in> set columns)"

text \<open>The constraints and indexes on a column go with it.\<close>

definition drop_column :: "string \<Rightarrow> string \<Rightarrow> ddl" where
  "drop_column table name c =
     bindr (alter_table table (\<lambda>t.
        if name \<notin> co_name ` set (tb_columns t) then Inl UndefinedObject
        else Inr (t\<lparr>tb_columns := filter (\<lambda>q. co_name q \<noteq> name) (tb_columns t),
                    tb_constraints := filter (\<lambda>k. \<not> mentions name k) (tb_constraints t),
                    tb_rows := map (\<lambda>row. row(name := Null)) (tb_rows t)\<rparr>)) c)
       (\<lambda>c'. Inr (c'\<lparr>ct_indexes := filter (\<lambda>i. \<not> (ix_table i = table \<and> name \<in> set (ix_columns i))) (ct_indexes c')\<rparr>))"

definition update_column :: "string \<Rightarrow> (column \<Rightarrow> column) \<Rightarrow> table \<Rightarrow> ddl_error + table" where
  "update_column name f t =
     (if name \<notin> co_name ` set (tb_columns t) then Inl UndefinedObject
      else Inr (t\<lparr>tb_columns := map (\<lambda>q. if co_name q = name then f q else q) (tb_columns t)\<rparr>))"

text \<open>\<open>alter_column(table, name, server_default=...)\<close> and \<open>alter_column(table, name, nullable=...)\<close>\<close>

definition alter_default :: "string \<Rightarrow> string \<Rightarrow> cell option \<Rightarrow> ddl" where
  "alter_default table name v = alter_table table (update_column name (\<lambda>q. q\<lparr>co_server_default := v\<rparr>))"

definition alter_nullable :: "string \<Rightarrow> string \<Rightarrow> bool \<Rightarrow> ddl" where
  "alter_nullable table name nullable = alter_table table (\<lambda>t.
     if \<not> nullable \<and> (\<exists>row \<in> set (tb_rows t). row name = Null) then Inl NotNullViolation
     else update_column name (\<lambda>q. q\<lparr>co_nullable := nullable\<rparr>) t)"

definition create_unique_constraint :: "string \<Rightarrow> string \<Rightarrow> string list \<Rightarrow> ddl" where
  "create_unique_constraint name table columns = alter_table table (\<lambda>t.
     if \<not> keys_unique columns (tb_rows t) then Inl UniqueViolation
     else Inr (t\<lparr>tb_constraints := tb_constraints t @ [UniqueKey name columns]\<rparr>))"

fun is_unique :: "string \<Rightarrow> table_constraint \<Rightarrow> bool" where
  "is_unique name (UniqueKey n _) = (n = name)"
| "is_unique name _ = False"

definition drop_unique_constraint :: "string \<Rightarrow> string \<Rightarrow> ddl" where
  "drop_unique_constraint name table = alter_table table (\<lambda>t.
     if \<forall>k \<in> set (tb_constraints t). \<not> is_unique name k then Inl UndefinedObject
     else Inr (t\<lparr>tb_constraints := filter (\<lambda>k. \<not> is_unique name k) (tb_constraints t)\<rparr>))"

fun primary_key :: "table_constraint list \<Rightarrow> string list" where
  "primary_key [] = []"
| "primary_key (PrimaryKey columns # _) = columns"
| "primary_key (_ # rest) = primary_key rest"

text \<open>A foreign key of a row is found in the table it refers to, unless it holds a \<open>Null\<close>.\<close>

fun reference_ok :: "catalog \<Rightarrow> row \<Rightarrow> table_constraint \<Rightarrow> bool" where
  "reference_ok c row (ForeignKey columns target keys _) =
     (Null \<in> set (key_of columns row) \<or>
      (case find_table target c of
         None \<Rightarrow> False | Some t \<Rightarrow> key_of columns row \<in> set (map (key_of keys) (tb_rows t))))"
| "reference_ok c row _ = True"

text \<open>\<open>INSERT INTO target SELECT ... FROM source\<close>, each row of the source giving one of the target.\<close>

definition insert_select :: "string \<Rightarrow> string \<Rightarrow> (row \<Rightarrow> row) \<Rightarrow> ddl" where
  "insert_select target source f c =
     (case find_table source c of
        None \<Rightarrow> Inl UndefinedObject
      | Some s \<Rightarrow> alter_table target (\<lambda>t.
          let rows = tb_rows t @ map f (tb_rows s)
          in if \<exists>row \<in> set (map f (tb_rows s)). \<exists>q \<in> set (tb_columns t). \<not> co_nullable q \<and> row (co_name q) = Null
             then Inl NotNullViolation
             else if \<not> keys_unique (primary_key (tb_constraints t)) rows then Inl UniqueViolation
             else if \<exists>row \<in> set (map f (tb_rows s)). \<exists>k \<in> set (tb_constraints t). \<not> reference_ok c row k
             then Inl ForeignKeyViolation
             else Inr (t\<lparr>tb_rows := rows\<rparr>)) c)"

fun run_all :: "ddl list \<Rightarrow> ddl" where
  "run_all [] c = Inr c"
| "run_all (f # fs) c = bindr (f c) (run_all fs)"

subsection \<open>The revisions\<close>

definition upgrade_0001 :: ddl where
  "upgrade_0001 = run_all
     [create_table ''users''
        [column ''id'' Uuid_t False, column ''email'' (String_t (Some 320)) False,
         column ''password_hash'' (String_t None) False, column ''created_at'' DateTime_tz False]
        [PrimaryKey [''id'']],
      create_index ''ix_users_email'' ''users'' [''email''] True,
      create_table ''refresh_tokens''
        [column ''jti'' (String_t None) False, column ''user_id'' Uuid_t False,
         column ''token_hash'' (String_t None) False, column ''expires_at'' DateTime_tz False,
         column ''revoked_at'' DateTime_tz True]
        [ForeignKey [''user_id''] ''users'' [''id''] True, PrimaryKey [''jti'']],
      create_index ''ix_refresh_tokens_user_id'' ''refresh_tokens'' [''user_id''] False]"

definition downgrade_0001 :: ddl where
  "downgrade_0001 = run_all
     [drop_index ''ix_refresh_tokens_user_id'', drop_table ''refresh_tokens'',
      drop_index ''ix_users_email'', drop_table ''users'']"

definition upgrade_0002 :: ddl where
  "upgrade_0002 = run_all
     [create_table ''conversations''
        [column ''id'' Uuid_t False, column ''owner_id'' Uuid_t False,
         column ''title'' (String_t (Some 200)) False, column ''created_at'' DateTime_tz False,
         column ''updated_at'' DateTime_tz False, column ''deleted_at'' DateTime_tz True]
        [PrimaryKey [''id'']],
      create_index ''ix_conversations_owner_id'' ''conversations'' [''owner_id''] False,
      create_table ''messages''
        [(column ''id'' BigInteger_t False)\<lparr>co_autoincrement := True\<rparr>, column ''conversation_id'' Uuid_t False,
         column ''sender_id'' Uuid_t False, column ''content'' Text_t False, column ''created_at'' DateTime_tz False]
        [ForeignKey [''conversation_id''] ''conversations'' [''id''] False, PrimaryKey [''id'']],
      create_index ''ix_messages_conversation_id_id'' ''messages'' [''conversation_id'', ''id''] False]"

definition downgrade_0002 :: ddl where
  "downgrade_0002 = run_all
     [drop_index ''ix_messages_conversation_id_id'', drop_table ''messages'',
      drop_index ''ix_conversations_owner_id'', drop_table ''conversations'']"

definition upgrade_0003 :: ddl where
  "upgrade_0003 = run_all
     [add_column ''messages''
        ((column ''role'' (String_t (Some 16)) False)\<lparr>co_server_default := Some (TextCell ''user'')\<rparr>),
      alter_default ''messages'' ''role'' None,
      alter_nullable ''messages'' ''sender_id'' True]"

definition downgrade_0003 :: ddl where
  "downgrade_0003 = run_all [alter_nullable ''messages'' ''sender_id'' False, drop_column ''messages'' ''role'']"

definition upgrade_0004 :: ddl where
  "upgrade_0004 = run_all
     [add_column ''messages'' (column ''client_message_id'' Uuid_t True),
      create_unique_constraint ''uq_messages_conversation_id_client_message_id'' ''messages''
        [''conversation_id'', ''client_message_id'']]"

definition downgrade_0004 :: ddl where
  "downgrade_0004 = run_all
     [drop_unique_constraint ''uq_messages_conversation_id_client_message_id'' ''messages'',
      drop_column ''messages'' ''client_message_id'']"

text \<open>\<open>SELECT id, owner_id, created_at FROM conversations\<close>\<close>

definition owner_row :: "row \<Rightarrow> row" where
  "owner_row r = (\<lambda>_. Null)(''conversation_id'' := r ''id'', ''user_id'' := r ''owner_id'', ''joined_at'' := r ''created_at'')"

definition upgrade_0005 :: ddl where
  "upgrade_0005 = run_all
     [create_table ''conversation_participants''
        [column ''conversation_id'' Uuid_t False, column ''user_id'' Uuid_t False, column ''joined_at'' DateTime_tz False]
        [ForeignKey [''conversation_id''] ''conversations'' [''id''] False, PrimaryKey [''conversation_id'', ''user_id'']],
      create_index ''ix_conversation_participants_user_id'' ''conversation_participants'' [''user_id''] False,
      insert_select ''conversation_participants'' ''conversations'' owner_row]"

definition downgrade_0005 :: ddl where
  "downgrade_0005 = run_all
     [drop_index ''ix_conversation_participants_user_id'', drop_table ''conversation_participants'']"

text \<open>The chain, by \<open>down_revision\<close>.\<close>

record revision =
  rv_revision :: string
  rv_down_revision :: "string option"
  rv_upgrade :: ddl
  rv_downgrade :: ddl

definition revision_0001 :: revision where
  "revision_0001 = \<lparr>rv_revision = ''0001_identity'', rv_down_revision = None,
     rv_upgrade = upgrade_0001, rv_downgrade = downgrade_0001\<rparr>"

definition revision_0002 :: revision where
  "revision_0002 = \<lparr>rv_revision = ''0002_conversations'', rv_down_revision = Some ''0001_identity'',
     rv_upgrade = upgrade_0002, rv_downgrade = downgrade_0002\<rparr>"

definition revision_0003 :: revision where
  "revision_0003 = \<lparr>rv_revision = ''0003_message_role'', rv_down_revision = Some ''0002_conversations'',
     rv_upgrade = upgrade_0003, rv_downgrade = downgrade_0003\<rparr>"

definition revision_0004 :: revision where
  "revision_0004 = \<lparr>rv_revision = ''0004_client_message_id'', rv_down_revision = Some ''0003_message_role'',
     rv_upgrade = upgrade_0004, rv_downgrade = downgrade_0004\<rparr>"

definition revision_0005 :: revision where
  "revision_0005 = \<lparr>rv_revision = ''0005_conversation_participants'', rv_down_revision = Some ''0004_client_message_id'',
     rv_upgrade = upgrade_0005, rv_downgrade = downgrade_0005\<rparr>"

definition revisions :: "revision list" where
  "revisions = [revision_0001, revision_0002, revision_0003, revision_0004, revision_0005]"

text \<open>The revisions still to apply: the chain from the current one on.\<close>

fun pending_revisions :: "nat \<Rightarrow> string option \<Rightarrow> revision list" where
  "pending_revisions 0 current = []"
| "pending_revisions (Suc n) current =
     (case find (\<lambda>r. rv_down_revision r = current) revisions of
        None \<Rightarrow> []
      | Some r \<Rightarrow> r # pending_revisions n (Some (rv_revision r)))"

text \<open>A database under Alembic: its catalog and its \<open>alembic_version\<close>. \<open>_do_run_migrations\<close> holds the advisory
  lock through one transaction: the upgrades and the new version are committed together or not at all. A
  version that is none of the chain, as a later release leaves it, is refused.\<close>

record versioned =
  vd_version :: "string option"
  vd_catalog :: catalog

definition known_revision :: "string option \<Rightarrow> bool" where
  "known_revision current = (current = None \<or> current \<in> set (map (\<lambda>r. Some (rv_revision r)) revisions))"

definition run_migrations :: "versioned \<Rightarrow> (ddl_error + unit) \<times> versioned" where
  "run_migrations v =
     (let todo = pending_revisions (length revisions) (vd_version v)
      in if \<not> known_revision (vd_version v) then (Inl UnknownRevision, v)
         else case run_all (map rv_upgrade todo) (vd_catalog v) of
           Inl e \<Rightarrow> (Inl e, v)
         | Inr c \<Rightarrow>
             (Inr (), \<lparr>vd_version = (if todo = [] then vd_version v else Some (rv_revision (last todo))), vd_catalog = c\<rparr>))"

subsection \<open>The tables the row models declare\<close>

type_synonym model = "table \<times> table_index list"

definition user_model :: model where
  "user_model =
     (\<lparr>tb_name = ''users'',
       tb_columns = [column ''id'' Uuid_t False, column ''email'' (String_t (Some 320)) False,
         column ''password_hash'' (String_t None) False, column ''created_at'' DateTime_tz False],
       tb_constraints = [PrimaryKey [''id'']], tb_rows = []\<rparr>,
      [\<lparr>ix_name = ''ix_users_email'', ix_table = ''users'', ix_columns = [''email''], ix_unique = True\<rparr>])"

definition refresh_token_model :: model where
  "refresh_token_model =
     (\<lparr>tb_name = ''refresh_tokens'',
       tb_columns = [column ''jti'' (String_t None) False, column ''user_id'' Uuid_t False,
         column ''token_hash'' (String_t None) False, column ''expires_at'' DateTime_tz False,
         column ''revoked_at'' DateTime_tz True],
       tb_constraints = [PrimaryKey [''jti''], ForeignKey [''user_id''] ''users'' [''id''] True], tb_rows = []\<rparr>,
      [\<lparr>ix_name = ''ix_refresh_tokens_user_id'', ix_table = ''refresh_tokens'', ix_columns = [''user_id''],
        ix_unique = False\<rparr>])"

definition conversation_model :: model where
  "conversation_model =
     (\<lparr>tb_name = ''conversations'',
       tb_columns = [column ''id'' Uuid_t False, column ''owner_id'' Uuid_t False,
         column ''title'' (String_t (Some 200)) False, column ''created_at'' DateTime_tz False,
         column ''updated_at'' DateTime_tz False, column ''deleted_at'' DateTime_tz True],
       tb_constraints = [PrimaryKey [''id'']], tb_rows = []\<rparr>,
      [\<lparr>ix_name = ''ix_conversations_owner_id'', ix_table = ''conversations'', ix_columns = [''owner_id''],
        ix_unique = False\<rparr>])"

definition conversation_participant_model :: model where
  "conversation_participant_model =
     (\<lparr>tb_name = ''conversation_participants'',
       tb_columns = [column ''conversation_id'' Uuid_t False, column ''user_id'' Uuid_t False,
         column ''joined_at'' DateTime_tz False],
       tb_constraints = [ForeignKey [''conversation_id''] ''conversations'' [''id''] False,
         PrimaryKey [''conversation_id'', ''user_id'']], tb_rows = []\<rparr>,
      [\<lparr>ix_name = ''ix_conversation_participants_user_id'', ix_table = ''conversation_participants'',
        ix_columns = [''user_id''], ix_unique = False\<rparr>])"

definition message_model :: model where
  "message_model =
     (\<lparr>tb_name = ''messages'',
       tb_columns = [(column ''id'' BigInteger_t False)\<lparr>co_autoincrement := True\<rparr>, column ''conversation_id'' Uuid_t False,
         column ''sender_id'' Uuid_t True, column ''role'' (String_t (Some 16)) False, column ''content'' Text_t False,
         column ''created_at'' DateTime_tz False, column ''client_message_id'' Uuid_t True],
       tb_constraints = [UniqueKey ''uq_messages_conversation_id_client_message_id'' [''conversation_id'', ''client_message_id''],
         PrimaryKey [''id''], ForeignKey [''conversation_id''] ''conversations'' [''id''] False],
       tb_rows = []\<rparr>,
      [\<lparr>ix_name = ''ix_messages_conversation_id_id'', ix_table = ''messages'', ix_columns = [''conversation_id'', ''id''],
        ix_unique = False\<rparr>])"

text \<open>\<open>Base.metadata\<close>, with the models of both contexts imported\<close>

definition metadata :: "model list" where
  "metadata = [user_model, refresh_token_model, conversation_model, conversation_participant_model, message_model]"

definition models_metadata :: "table list" where
  "models_metadata = map fst metadata"

definition models_indexes :: "table_index list" where
  "models_indexes = concat (map snd metadata)"

lemmas models_defs = models_metadata_def models_indexes_def metadata_def user_model_def refresh_token_model_def
  conversation_model_def conversation_participant_model_def message_model_def

text \<open>Two tables declare the same: the same columns and constraints, in whatever order.\<close>

definition same_declaration :: "table \<Rightarrow> table \<Rightarrow> bool" where
  "same_declaration s t =
     (tb_name s = tb_name t \<and> set (tb_columns s) = set (tb_columns t) \<and> set (tb_constraints s) = set (tb_constraints t))"

definition same_schema :: "catalog \<Rightarrow> table list \<Rightarrow> table_index list \<Rightarrow> bool" where
  "same_schema c tables indexes =
     (length (ct_tables c) = length tables \<and>
      (\<forall>t \<in> set tables. \<exists>s \<in> set (ct_tables c). same_declaration s t) \<and>
      (\<forall>s \<in> set (ct_tables c). \<exists>t \<in> set tables. same_declaration s t) \<and>
      set (ct_indexes c) = set indexes)"

subsection \<open>Facts about the operations\<close>

lemma find_table_Some: "find_table name c = Some t \<Longrightarrow> tb_name t = name \<and> t \<in> set (ct_tables c)"
  by (auto simp: find_table_def find_Some_iff in_set_conv_nth)

lemma find_put_table:
  assumes "find_table name c = Some t" and "tb_name t' = name"
  shows "find_table name (put_table name t' c) = Some t'"
proof -
  have "find (\<lambda>q. tb_name q = name) (map (\<lambda>q. if tb_name q = name then t' else q) ts) =
      map_option (\<lambda>_. t') (find (\<lambda>q. tb_name q = name) ts)" for ts
    using assms(2) by (induction ts) auto
  with assms(1) show ?thesis by (simp add: find_table_def put_table_def)
qed

lemma find_put_other: "name \<noteq> other \<Longrightarrow> tb_name t' = name \<Longrightarrow> find_table other (put_table name t' c) = find_table other c"
proof -
  assume a: "name \<noteq> other" "tb_name t' = name"
  have "find (\<lambda>q. tb_name q = other) (map (\<lambda>q. if tb_name q = name then t' else q) ts) = find (\<lambda>q. tb_name q = other) ts" for ts
    using a by (induction ts) auto
  then show ?thesis by (simp add: find_table_def put_table_def)
qed

lemma put_table_twice: "tb_name t = name \<Longrightarrow> put_table name u (put_table name t c) = put_table name u c"
  by (simp add: put_table_def comp_def)

lemma put_table_same:
  assumes "distinct (map tb_name (ct_tables c))" and "find_table name c = Some t"
  shows "put_table name t c = c"
proof -
  have "\<And>q. q \<in> set (ct_tables c) \<Longrightarrow> tb_name q = name \<Longrightarrow> q = t"
    using assms find_table_Some [OF assms(2)] by (auto simp: distinct_map inj_on_def)
  then have "map (\<lambda>q. if tb_name q = name then t else q) (ct_tables c) = ct_tables c" by (induction "ct_tables c") (auto intro: map_idI)
  then show ?thesis by (simp add: put_table_def)
qed

lemma put_table_indexes [simp]: "ct_indexes (put_table name t c) = ct_indexes c"
  by (simp add: put_table_def)

lemma alter_table_eq: "find_table name c = Some t \<Longrightarrow> alter_table name f c = bindr (f t) (\<lambda>t'. Inr (put_table name t' c))"
  by (simp add: alter_table_def)

lemma bindr_simps [simp]: "bindr (Inr x) f = f x" "bindr (Inl e) f = Inl e"
  by (simp_all add: bindr_def)

end
