(* ===== verification/MigrationProperties.thy ===== *)
theory MigrationProperties
  imports Migrations
begin

section \<open>Properties of the migrations\<close>

text \<open>
  The migrations build the schema the row models declare; the two that move data, 0003 and 0005, do so
  without losing any, and are undone by their downgrades, but for the one case 0003 cannot undo.
\<close>

text \<open>C24: from an empty database, one run of the migrations succeeds, reaches the last revision, and leaves
  exactly the tables, columns, constraints and indexes the row models declare; a second run, as that of
  another replica that waited for the lock, changes nothing.\<close>

theorem migrations_build_the_models_schema:
  "\<exists>v. run_migrations \<lparr>vd_version = None, vd_catalog = empty_catalog\<rparr> = (Inr (), v) \<and>
     vd_version v = Some ''0005_conversation_participants'' \<and>
     same_schema (vd_catalog v) models_metadata models_indexes \<and> run_migrations v = (Inr (), v)"
proof -
  have "case run_migrations \<lparr>vd_version = None, vd_catalog = empty_catalog\<rparr> of (r, v) \<Rightarrow>
      r = Inr () \<and> vd_version v = Some ''0005_conversation_participants'' \<and>
      same_schema (vd_catalog v) models_metadata models_indexes"
    by code_simp
  then obtain v where v: "run_migrations \<lparr>vd_version = None, vd_catalog = empty_catalog\<rparr> = (Inr (), v)"
    "vd_version v = Some ''0005_conversation_participants''" "same_schema (vd_catalog v) models_metadata models_indexes"
    by (auto split: prod.splits)
  have "pending_revisions (length revisions) (Some ''0005_conversation_participants'') = []" by code_simp
  moreover have "known_revision (Some ''0005_conversation_participants'')" by code_simp
  ultimately have "run_migrations v = (Inr (), v)" using v(2) by (simp add: run_migrations_def)
  with v show ?thesis by blast
qed

definition participants_table :: "row list \<Rightarrow> table" where
  "participants_table rows =
     \<lparr>tb_name = ''conversation_participants'',
      tb_columns = [column ''conversation_id'' Uuid_t False, column ''user_id'' Uuid_t False, column ''joined_at'' DateTime_tz False],
      tb_constraints = [ForeignKey [''conversation_id''] ''conversations'' [''id''] False,
        PrimaryKey [''conversation_id'', ''user_id'']],
      tb_rows = rows\<rparr>"

lemma participants_table_fields [simp]:
  "tb_name (participants_table rows) = ''conversation_participants''" "tb_rows (participants_table rows) = rows"
  "(participants_table rows)\<lparr>tb_rows := rows'\<rparr> = participants_table rows'"
  by (simp_all add: participants_table_def)

lemma owner_keys_unique:
  assumes "distinct (map (\<lambda>row. row ''id'') rows)"
  shows "keys_unique [''conversation_id'', ''user_id''] (map owner_row rows)"
  unfolding keys_unique_def
  by (rule distinct_filter) (use assms in \<open>auto simp: distinct_map inj_on_def key_of_def owner_row_def\<close>)

lemma owner_rows_fit:
  assumes "find_table ''conversations'' c = Some t" and "row \<in> set (map owner_row (tb_rows t))"
    and "\<forall>row \<in> set (tb_rows t). row ''id'' \<noteq> Null \<and> row ''owner_id'' \<noteq> Null \<and> row ''created_at'' \<noteq> Null"
  shows "q \<in> set (tb_columns (participants_table [])) \<Longrightarrow> row (co_name q) \<noteq> Null"
    and "k \<in> set (tb_constraints (participants_table [])) \<Longrightarrow> reference_ok c row k"
  using assms by (auto simp: participants_table_def column_def owner_row_def key_of_def)

lemma insert_owner_rows:
  assumes "find_table ''conversations'' c = Some t" and "find_table ''conversation_participants'' c = Some (participants_table [])"
    and "\<forall>row \<in> set (tb_rows t). row ''id'' \<noteq> Null \<and> row ''owner_id'' \<noteq> Null \<and> row ''created_at'' \<noteq> Null"
    and "distinct (map (\<lambda>row. row ''id'') (tb_rows t))"
  shows "insert_select ''conversation_participants'' ''conversations'' owner_row c =
    Inr (put_table ''conversation_participants'' (participants_table (map owner_row (tb_rows t))) c)"
proof -
  have key: "primary_key (tb_constraints (participants_table [])) = [''conversation_id'', ''user_id'']"
    by (simp add: participants_table_def)
  note fits = owner_rows_fit [OF assms(1) _ assms(3)]
  have "\<not> (\<exists>row \<in> set (map owner_row (tb_rows t)). \<exists>q \<in> set (tb_columns (participants_table [])).
      \<not> co_nullable q \<and> row (co_name q) = Null)" using fits(1) by blast
  moreover have "\<not> (\<exists>row \<in> set (map owner_row (tb_rows t)). \<exists>k \<in> set (tb_constraints (participants_table [])).
      \<not> reference_ok c row k)" using fits(2) by blast
  ultimately show ?thesis
    by (simp add: insert_select_def assms(1) alter_table_eq [OF assms(2)] key owner_keys_unique [OF assms(4)] Let_def
        del: set_map bex_simps)
qed

text \<open>C27: adding the participants admits the owner of every conversation there is, deleted ones included, as
  of its creation, and nobody else; nothing else changes, and the downgrade brings back exactly what
  was there.\<close>

theorem participants_are_backfilled:
  assumes "find_table ''conversations'' c = Some t" and "find_table ''conversation_participants'' c = None"
    and "\<forall>i \<in> set (ct_indexes c). ix_name i \<noteq> ''ix_conversation_participants_user_id'' \<and>
      ix_table i \<noteq> ''conversation_participants''"
    and "\<forall>q \<in> set (ct_tables c). \<forall>k \<in> set (tb_constraints q). \<not> refers_to ''conversation_participants'' k"
    and "\<forall>row \<in> set (tb_rows t). row ''id'' \<noteq> Null \<and> row ''owner_id'' \<noteq> Null \<and> row ''created_at'' \<noteq> Null"
    and "distinct (map (\<lambda>row. row ''id'') (tb_rows t))"
  shows "\<exists>c' p. upgrade_0005 c = Inr c' \<and> find_table ''conversation_participants'' c' = Some p \<and>
    tb_rows p = map owner_row (tb_rows t) \<and> ct_tables c' = ct_tables c @ [p] \<and> downgrade_0005 c' = Inr c"
proof -
  let ?name = "''conversation_participants''"
  let ?ix = "\<lparr>ix_name = ''ix_conversation_participants_user_id'', ix_table = ?name, ix_columns = [''user_id''], ix_unique = False\<rparr>"
  let ?p = "participants_table (map owner_row (tb_rows t))"
  let ?made = "c\<lparr>ct_tables := ct_tables c @ [participants_table []], ct_indexes := ct_indexes c @ [?ix]\<rparr>"
  let ?c = "c\<lparr>ct_tables := ct_tables c @ [?p], ct_indexes := ct_indexes c @ [?ix]\<rparr>"
  have others: "\<forall>q \<in> set (ct_tables c). tb_name q \<noteq> ?name" using assms(2) by (auto simp: find_table_def find_None_iff)
  have made: "find_table ''conversations'' ?made = Some t" "find_table ?name ?made = Some (participants_table [])"
    using assms(1,2) by (simp_all add: find_table_def find_append)
  have "put_table ?name ?p ?made = ?c" using others by (simp add: put_table_def map_idI)
  with insert_owner_rows [OF made assms(5,6)]
  have "insert_select ?name ''conversations'' owner_row ?made = Inr ?c" by simp
  moreover have "find_table ?name (c\<lparr>ct_tables := ct_tables c @ [participants_table []]\<rparr>) = Some (participants_table [])"
    using assms(2) by (simp add: find_table_def find_append)
  ultimately have up: "upgrade_0005 c = Inr ?c"
    using assms(2,3) by (simp add: upgrade_0005_def create_table_def create_index_def participants_table_def)
  have down: "downgrade_0005 ?c = Inr c"
    using assms(2-4) others
    by (auto simp: downgrade_0005_def drop_index_def drop_table_def find_table_def find_append filter_id_conv)
  have "find_table ?name ?c = Some ?p" using assms(2) by (simp add: find_table_def find_append)
  with up down show ?thesis by (intro exI [of _ ?c] exI [of _ ?p]) simp
qed

definition sample_conversation_row :: row where
  "sample_conversation_row = (\<lambda>_. Null)(''id'' := UuidCell 10, ''owner_id'' := UuidCell 1, ''created_at'' := TimeCell 0)"

definition sample_catalog :: catalog where
  "sample_catalog =
     \<lparr>ct_tables = [\<lparr>tb_name = ''conversations'', tb_columns = tb_columns (models_metadata ! 2),
        tb_constraints = tb_constraints (models_metadata ! 2), tb_rows = [sample_conversation_row]\<rparr>],
      ct_indexes = [models_indexes ! 2]\<rparr>"

theorem participants_are_backfilled_witness:
  "\<exists>c' p. upgrade_0005 sample_catalog = Inr c' \<and> find_table ''conversation_participants'' c' = Some p \<and>
     map (\<lambda>row. (row ''conversation_id'', row ''user_id'')) (tb_rows p) = [(UuidCell 10, UuidCell 1)]"
proof -
  have "find_table ''conversations'' sample_catalog = Some (hd (ct_tables sample_catalog))"
    "find_table ''conversation_participants'' sample_catalog = None"
    "\<forall>i \<in> set (ct_indexes sample_catalog). ix_name i \<noteq> ''ix_conversation_participants_user_id'' \<and>
      ix_table i \<noteq> ''conversation_participants''"
    "\<forall>q \<in> set (ct_tables sample_catalog). \<forall>k \<in> set (tb_constraints q). \<not> refers_to ''conversation_participants'' k"
    by (simp_all add: sample_catalog_def find_table_def models_defs)
  note facts = this
  obtain c' p where "upgrade_0005 sample_catalog = Inr c'" "find_table ''conversation_participants'' c' = Some p"
    "tb_rows p = map owner_row (tb_rows (hd (ct_tables sample_catalog)))"
    using participants_are_backfilled [OF facts] by (auto simp: sample_catalog_def sample_conversation_row_def)
  then show ?thesis
    by (intro exI [of _ c'] exI [of _ p]) (simp add: sample_catalog_def owner_row_def sample_conversation_row_def)
qed

subsection \<open>Roles\<close>

definition role_column :: column where
  "role_column = column ''role'' (String_t (Some 16)) False"

definition sender_nullable :: "bool \<Rightarrow> column \<Rightarrow> column" where
  "sender_nullable b q = (if co_name q = ''sender_id'' then q\<lparr>co_nullable := b\<rparr> else q)"

lemma sender_nullable_name [simp]: "co_name (sender_nullable b q) = co_name q"
  by (simp add: sender_nullable_def)

definition with_role :: "table \<Rightarrow> table" where
  "with_role t = t\<lparr>tb_rows := map (\<lambda>row. row(''role'' := TextCell ''user'')) (tb_rows t),
     tb_columns := map (sender_nullable True) (tb_columns t) @ [role_column]\<rparr>"

text \<open>A catalog at revision 0002, as far as 0003 looks at it.\<close>

definition before_roles :: "catalog \<Rightarrow> table \<Rightarrow> bool" where
  "before_roles c t =
     (find_table ''messages'' c = Some t \<and> distinct (map tb_name (ct_tables c)) \<and>
      ''role'' \<notin> co_name ` set (tb_columns t) \<and> ''sender_id'' \<in> co_name ` set (tb_columns t) \<and>
      (\<forall>q \<in> set (tb_columns t). co_name q = ''sender_id'' \<longrightarrow> \<not> co_nullable q) \<and>
      (\<forall>k \<in> set (tb_constraints t). \<not> mentions ''role'' k) \<and>
      (\<forall>i \<in> set (ct_indexes c). \<not> (ix_table i = ''messages'' \<and> ''role'' \<in> set (ix_columns i))) \<and>
      (\<forall>row \<in> set (tb_rows t). row ''role'' = Null \<and> row ''sender_id'' \<noteq> Null))"

lemma roles_up:
  assumes "before_roles c t"
  shows "upgrade_0003 c = Inr (put_table ''messages'' (with_role t) c)"
proof -
  let ?new = "role_column\<lparr>co_server_default := Some (TextCell ''user'')\<rparr>"
  let ?rows = "map (\<lambda>row. row(''role'' := TextCell ''user'')) (tb_rows t)"
  let ?t1 = "t\<lparr>tb_columns := tb_columns t @ [?new], tb_rows := ?rows\<rparr>"
  let ?t2 = "t\<lparr>tb_rows := ?rows, tb_columns := tb_columns t @ [role_column]\<rparr>"
  have t: "find_table ''messages'' c = Some t" "tb_name t = ''messages''" "''role'' \<notin> co_name ` set (tb_columns t)"
    "''sender_id'' \<in> co_name ` set (tb_columns t)"
    using assms find_table_Some by (auto simp: before_roles_def)
  have 1: "add_column ''messages'' ?new c = Inr (put_table ''messages'' ?t1 c)"
    using t by (simp add: add_column_def alter_table_eq role_column_def column_def Let_def)
  have f1: "find_table ''messages'' (put_table ''messages'' ?t1 c) = Some ?t1" by (rule find_put_table [OF t(1)]) (simp add: t(2))
  have "map (\<lambda>q. if co_name q = ''role'' then q\<lparr>co_server_default := None\<rparr> else q) (tb_columns t) = tb_columns t"
    using t(3) by (intro map_idI) (metis imageI)
  then have 2: "alter_default ''messages'' ''role'' None (put_table ''messages'' ?t1 c) = Inr (put_table ''messages'' ?t2 c)"
    unfolding alter_default_def alter_table_eq [OF f1]
    using t(2) by (simp add: update_column_def put_table_twice role_column_def column_def)
  have f2: "find_table ''messages'' (put_table ''messages'' ?t2 c) = Some ?t2" by (rule find_put_table [OF t(1)]) (simp add: t(2))
  have 3: "alter_nullable ''messages'' ''sender_id'' True (put_table ''messages'' ?t2 c) = Inr (put_table ''messages'' (with_role t) c)"
    unfolding alter_nullable_def alter_table_eq [OF f2]
    using t(2,4) by (simp add: update_column_def put_table_twice with_role_def role_column_def column_def
        sender_nullable_def [abs_def])
  show ?thesis using 1 2 3 by (simp add: upgrade_0003_def role_column_def)
qed

lemma role_dropped:
  assumes "before_roles c t"
    and "u = t\<lparr>tb_rows := map (\<lambda>row. row(''role'' := TextCell ''user'')) (tb_rows t), tb_columns := tb_columns t @ [role_column]\<rparr>"
  shows "drop_column ''messages'' ''role'' (put_table ''messages'' u c) = Inr c"
proof -
  have t: "find_table ''messages'' c = Some t" "tb_name t = ''messages''" "''role'' \<notin> co_name ` set (tb_columns t)"
    "distinct (map tb_name (ct_tables c))" "\<forall>k \<in> set (tb_constraints t). \<not> mentions ''role'' k"
    "\<forall>i \<in> set (ct_indexes c). \<not> (ix_table i = ''messages'' \<and> ''role'' \<in> set (ix_columns i))"
    "\<forall>row \<in> set (tb_rows t). row ''role'' = Null"
    using assms(1) find_table_Some by (auto simp: before_roles_def)
  have u: "tb_name u = ''messages''" by (simp add: assms(2) t(2))
  have f2: "find_table ''messages'' (put_table ''messages'' u c) = Some u" by (rule find_put_table [OF t(1) u])
  have "filter (\<lambda>q. co_name q \<noteq> ''role'') (tb_columns t @ [role_column]) = tb_columns t"
    using t(3) by (auto simp: filter_id_conv role_column_def column_def image_iff)
  moreover have "map (\<lambda>row. row(''role'' := Null)) (map (\<lambda>row. row(''role'' := TextCell ''user'')) (tb_rows t)) = tb_rows t"
    using t(7) by (auto intro!: map_idI simp: fun_upd_idem)
  moreover have "filter (\<lambda>k. \<not> mentions ''role'' k) (tb_constraints t) = tb_constraints t"
    using t(5) by (simp add: filter_id_conv)
  ultimately have "alter_table ''messages'' (\<lambda>t. if ''role'' \<notin> co_name ` set (tb_columns t) then Inl UndefinedObject
        else Inr (t\<lparr>tb_columns := filter (\<lambda>q. co_name q \<noteq> ''role'') (tb_columns t),
                    tb_constraints := filter (\<lambda>k. \<not> mentions ''role'' k) (tb_constraints t),
                    tb_rows := map (\<lambda>row. row(''role'' := Null)) (tb_rows t)\<rparr>)) (put_table ''messages'' u c) =
      Inr (put_table ''messages'' t (put_table ''messages'' u c))"
    unfolding alter_table_eq [OF f2] by (simp add: assms(2) role_column_def column_def)
  moreover have "put_table ''messages'' t (put_table ''messages'' u c) = c"
    using put_table_same [OF t(4,1)] u by (simp add: put_table_twice)
  moreover have "filter (\<lambda>i. \<not> (ix_table i = ''messages'' \<and> ''role'' \<in> set (ix_columns i))) (ct_indexes c) = ct_indexes c"
    using t(6) by (simp add: filter_id_conv)
  ultimately show ?thesis by (simp add: drop_column_def)
qed

lemma roles_down:
  assumes "before_roles c t"
  shows "downgrade_0003 (put_table ''messages'' (with_role t) c) = Inr c"
proof -
  let ?c = "put_table ''messages'' (with_role t) c"
  let ?t = "t\<lparr>tb_rows := map (\<lambda>row. row(''role'' := TextCell ''user'')) (tb_rows t), tb_columns := tb_columns t @ [role_column]\<rparr>"
  have t: "find_table ''messages'' c = Some t" "tb_name t = ''messages''" "''role'' \<notin> co_name ` set (tb_columns t)"
    "''sender_id'' \<in> co_name ` set (tb_columns t)" "distinct (map tb_name (ct_tables c))"
    "\<forall>k \<in> set (tb_constraints t). \<not> mentions ''role'' k"
    "\<forall>i \<in> set (ct_indexes c). \<not> (ix_table i = ''messages'' \<and> ''role'' \<in> set (ix_columns i))"
    "\<forall>row \<in> set (tb_rows t). row ''role'' = Null \<and> row ''sender_id'' \<noteq> Null"
    using assms find_table_Some by (auto simp: before_roles_def)
  have f: "find_table ''messages'' ?c = Some (with_role t)" by (rule find_put_table [OF t(1)]) (simp add: t(2) with_role_def)
  have "\<And>q. q \<in> set (tb_columns t) \<Longrightarrow> sender_nullable False (sender_nullable True q) = q"
    using assms by (auto simp: before_roles_def sender_nullable_def)
  then have undone: "map (sender_nullable False) (map (sender_nullable True) (tb_columns t)) = tb_columns t"
    by (simp add: map_idI)
  have cols: "map (sender_nullable False) (tb_columns (with_role t)) = tb_columns t @ [role_column]"
    using undone by (simp add: with_role_def) (simp add: sender_nullable_def role_column_def column_def)
  have known: "''sender_id'' \<in> co_name ` set (tb_columns (with_role t))"
    using t(4) by (simp add: with_role_def image_image)
  have filled: "\<not> (\<exists>row \<in> set (tb_rows (with_role t)). row ''sender_id'' = Null)"
    using t(8) by (simp add: with_role_def)
  have "update_column ''sender_id'' (\<lambda>q. q\<lparr>co_nullable := False\<rparr>) (with_role t) = Inr ?t"
    using known cols by (simp add: update_column_def sender_nullable_def [abs_def]) (simp add: with_role_def)
  then have 1: "alter_nullable ''messages'' ''sender_id'' False ?c = Inr (put_table ''messages'' ?t c)"
    unfolding alter_nullable_def alter_table_eq [OF f]
    using filled t(2) by (simp add: put_table_twice with_role_def)
  have 2: "drop_column ''messages'' ''role'' (put_table ''messages'' ?t c) = Inr c" by (rule role_dropped [OF assms refl])
  show ?thesis using 1 2 by (simp add: downgrade_0003_def)
qed

text \<open>C39: the upgrade to roles gives every message already there the role of a user and changes no other
  value, and the downgrade brings back exactly what was there; but once one message has no sender, as
  every reply of the assistant has none, the downgrade fails.\<close>

theorem roles_are_added_and_removed:
  assumes "before_roles c t"
  shows "\<exists>c'. upgrade_0003 c = Inr c' \<and>
      (\<exists>t'. find_table ''messages'' c' = Some t' \<and>
        tb_rows t' = map (\<lambda>row. row(''role'' := TextCell ''user'')) (tb_rows t)) \<and>
      downgrade_0003 c' = Inr c \<and>
      (\<forall>later t'' row. find_table ''messages'' later = Some t'' \<and> row \<in> set (tb_rows t'') \<and> row ''sender_id'' = Null \<longrightarrow>
        downgrade_0003 later = Inl NotNullViolation)"
proof -
  have f: "find_table ''messages'' (put_table ''messages'' (with_role t) c) = Some (with_role t)"
    using assms find_table_Some by (intro find_put_table) (auto simp: before_roles_def with_role_def)
  show ?thesis
  proof (intro exI conjI allI impI)
    show "upgrade_0003 c = Inr (put_table ''messages'' (with_role t) c)" by (rule roles_up [OF assms])
    show "find_table ''messages'' (put_table ''messages'' (with_role t) c) = Some (with_role t)" by (rule f)
    show "tb_rows (with_role t) = map (\<lambda>row. row(''role'' := TextCell ''user'')) (tb_rows t)" by (simp add: with_role_def)
    show "downgrade_0003 (put_table ''messages'' (with_role t) c) = Inr c" by (rule roles_down [OF assms])
    show "downgrade_0003 later = Inl NotNullViolation"
      if "find_table ''messages'' later = Some t'' \<and> row \<in> set (tb_rows t'') \<and> row ''sender_id'' = Null" for later t'' row
      using that by (auto simp: downgrade_0003_def alter_nullable_def alter_table_eq)
  qed
qed

definition sample_messages :: catalog where
  "sample_messages =
     (case run_all [upgrade_0001, upgrade_0002] empty_catalog of
        Inl _ \<Rightarrow> empty_catalog
      | Inr c \<Rightarrow> put_table ''messages'' ((the (find_table ''messages'' c))
          \<lparr>tb_rows := [(\<lambda>_. Null)(''id'' := IntCell 1, ''sender_id'' := UuidCell 1, ''content'' := TextCell ''hi'')]\<rparr>) c)"

theorem roles_are_added_and_removed_witness:
  "\<exists>c' t'. upgrade_0003 sample_messages = Inr c' \<and> find_table ''messages'' c' = Some t' \<and>
     map (\<lambda>row. row ''role'') (tb_rows t') = [TextCell ''user''] \<and> downgrade_0003 c' = Inr sample_messages"
proof -
  have before: "before_roles sample_messages (the (find_table ''messages'' sample_messages))"
    by (simp add: before_roles_def sample_messages_def upgrade_0001_def upgrade_0002_def create_table_def create_index_def
        find_table_def empty_catalog_def keys_unique_def put_table_def column_def)
  from roles_are_added_and_removed [OF before] obtain c' t' where "upgrade_0003 sample_messages = Inr c'"
    "find_table ''messages'' c' = Some t'" "downgrade_0003 c' = Inr sample_messages"
    "tb_rows t' = map (\<lambda>row. row(''role'' := TextCell ''user'')) (tb_rows (the (find_table ''messages'' sample_messages)))"
    by blast
  moreover have "length (tb_rows (the (find_table ''messages'' sample_messages))) = 1" by code_simp
  then have "map (\<lambda>row. TextCell ''user'') (tb_rows (the (find_table ''messages'' sample_messages))) = [TextCell ''user'']"
    by (auto simp: length_Suc_conv)
  ultimately show ?thesis by (intro exI [of _ c'] exI [of _ t']) (simp add: comp_def)
qed

end
