(* ===== verification/Schema.thy ===== *)
theory Schema
  imports Migrations StoreInvariant Samples
begin

section \<open>The store fits the schema the migrations build\<close>

text \<open>
  \<open>Database\<close> keeps each table as a list of records and \<open>Migrations\<close> builds the tables the server checks.
  Here the records are written out as the rows the row models map them to, and a catalog with rows is
  \<open>legal\<close> when every value fits its column and every constraint and unique index holds.
\<close>

subsection \<open>Records as rows\<close>

definition nullable_cell :: "('a \<Rightarrow> cell) \<Rightarrow> 'a option \<Rightarrow> cell" where
  "nullable_cell f v = (case v of None \<Rightarrow> Null | Some x \<Rightarrow> f x)"

lemma nullable_cell_simps [simp]: "nullable_cell f None = Null" "nullable_cell f (Some x) = f x"
  by (simp_all add: nullable_cell_def)

definition user_cells :: "user_row \<Rightarrow> row" where
  "user_cells r = (\<lambda>_. Null)
     (''id'' := UuidCell (um_id r), ''email'' := TextCell (um_email r),
      ''password_hash'' := TextCell (um_password_hash r), ''created_at'' := TimeCell (um_created_at r))"

definition refresh_token_cells :: "refresh_token_row \<Rightarrow> row" where
  "refresh_token_cells r = (\<lambda>_. Null)
     (''jti'' := TextCell (tm_jti r), ''user_id'' := UuidCell (tm_user_id r),
      ''token_hash'' := TextCell (tm_token_hash r), ''expires_at'' := TimeCell (tm_expires_at r),
      ''revoked_at'' := nullable_cell TimeCell (tm_revoked_at r))"

definition conversation_cells :: "conversation_row \<Rightarrow> row" where
  "conversation_cells r = (\<lambda>_. Null)
     (''id'' := UuidCell (cm_id r), ''owner_id'' := UuidCell (cm_owner_id r), ''title'' := TextCell (cm_title r),
      ''created_at'' := TimeCell (cm_created_at r), ''updated_at'' := TimeCell (cm_updated_at r),
      ''deleted_at'' := nullable_cell TimeCell (cm_deleted_at r))"

definition participant_cells :: "participant_row \<Rightarrow> row" where
  "participant_cells r = (\<lambda>_. Null)
     (''conversation_id'' := UuidCell (pm_conversation_id r), ''user_id'' := UuidCell (pm_user_id r),
      ''joined_at'' := TimeCell (pm_joined_at r))"

definition message_cells :: "message_row \<Rightarrow> row" where
  "message_cells r = (\<lambda>_. Null)
     (''id'' := IntCell (mm_id r), ''conversation_id'' := UuidCell (mm_conversation_id r),
      ''sender_id'' := nullable_cell UuidCell (mm_sender_id r), ''role'' := TextCell (mm_role r),
      ''content'' := TextCell (mm_content r), ''created_at'' := TimeCell (mm_created_at r),
      ''client_message_id'' := nullable_cell UuidCell (mm_client_message_id r))"

lemmas cells_defs = user_cells_def refresh_token_cells_def conversation_cells_def participant_cells_def message_cells_def

definition rows_of :: "database \<Rightarrow> string \<Rightarrow> row list" where
  "rows_of db name =
     (if name = ''users'' then map user_cells (db_users db)
      else if name = ''refresh_tokens'' then map refresh_token_cells (db_refresh_tokens db)
      else if name = ''conversations'' then map conversation_cells (db_conversations db)
      else if name = ''conversation_participants'' then map participant_cells (db_participants db)
      else if name = ''messages'' then map message_cells (db_messages db)
      else [])"

definition filled :: "database \<Rightarrow> catalog \<Rightarrow> catalog" where
  "filled db c = c\<lparr>ct_tables := map (\<lambda>t. t\<lparr>tb_rows := rows_of db (tb_name t)\<rparr>) (ct_tables c)\<rparr>"

subsection \<open>Legal catalogs\<close>

fun cell_fits :: "column_type \<Rightarrow> cell \<Rightarrow> bool" where
  "cell_fits Uuid_t (UuidCell _) = True"
| "cell_fits (String_t None) (TextCell _) = True"
| "cell_fits (String_t (Some n)) (TextCell s) = (length s \<le> n)"
| "cell_fits Text_t (TextCell _) = True"
| "cell_fits BigInteger_t (IntCell i) = (- (2 ^ 63) \<le> i \<and> i < 2 ^ 63)"
| "cell_fits DateTime_tz (TimeCell _) = True"
| "cell_fits _ _ = False"

definition row_fits :: "column list \<Rightarrow> row \<Rightarrow> bool" where
  "row_fits columns row =
     (\<forall>q \<in> set columns. if row (co_name q) = Null then co_nullable q else cell_fits (co_type q) (row (co_name q)))"

fun constraint_holds :: "catalog \<Rightarrow> row list \<Rightarrow> table_constraint \<Rightarrow> bool" where
  "constraint_holds c rows (PrimaryKey columns) =
     (keys_unique columns rows \<and> (\<forall>row \<in> set rows. Null \<notin> set (key_of columns row)))"
| "constraint_holds c rows (ForeignKey columns target keys cascade) =
     (\<forall>row \<in> set rows. reference_ok c row (ForeignKey columns target keys cascade))"
| "constraint_holds c rows (UniqueKey name columns) = keys_unique columns rows"

definition legal :: "catalog \<Rightarrow> bool" where
  "legal c =
     ((\<forall>t \<in> set (ct_tables c). (\<forall>row \<in> set (tb_rows t). row_fits (tb_columns t) row) \<and>
         (\<forall>k \<in> set (tb_constraints t). constraint_holds c (tb_rows t) k)) \<and>
      (\<forall>i \<in> set (ct_indexes c). ix_unique i \<longrightarrow>
         (case find_table (ix_table i) c of None \<Rightarrow> False | Some t \<Rightarrow> keys_unique (ix_columns i) (tb_rows t))))"

subsection \<open>The schema at the head\<close>

definition head :: versioned where
  "head = snd (run_migrations \<lparr>vd_version = None, vd_catalog = empty_catalog\<rparr>)"

lemma head_reached: "run_migrations \<lparr>vd_version = None, vd_catalog = empty_catalog\<rparr> = (Inr (), head)"
proof -
  have "fst (run_migrations \<lparr>vd_version = None, vd_catalog = empty_catalog\<rparr>) = Inr ()" by code_simp
  then show ?thesis by (simp add: head_def prod_eq_iff)
qed

definition messages_columns :: "column list" where
  "messages_columns =
     [(column ''id'' BigInteger_t False)\<lparr>co_autoincrement := True\<rparr>, column ''conversation_id'' Uuid_t False,
      column ''sender_id'' Uuid_t True, column ''content'' Text_t False, column ''created_at'' DateTime_tz False,
      column ''role'' (String_t (Some 16)) False, column ''client_message_id'' Uuid_t True]"

lemma head_schema:
  "map (\<lambda>t. (tb_name t, tb_columns t, tb_constraints t)) (ct_tables (vd_catalog head)) =
     [(''users'', tb_columns (fst user_model), [PrimaryKey [''id'']]),
      (''refresh_tokens'', tb_columns (fst refresh_token_model),
       [ForeignKey [''user_id''] ''users'' [''id''] True, PrimaryKey [''jti'']]),
      (''conversations'', tb_columns (fst conversation_model), [PrimaryKey [''id'']]),
      (''messages'', messages_columns,
       [ForeignKey [''conversation_id''] ''conversations'' [''id''] False, PrimaryKey [''id''],
        UniqueKey ''uq_messages_conversation_id_client_message_id'' [''conversation_id'', ''client_message_id'']]),
      (''conversation_participants'', tb_columns (fst conversation_participant_model),
       [ForeignKey [''conversation_id''] ''conversations'' [''id''] False, PrimaryKey [''conversation_id'', ''user_id'']])]"
  "filter ix_unique (ct_indexes (vd_catalog head)) = snd user_model"
  by code_simp+

lemma filled_tables:
  "ct_tables (filled db c) =
     map (\<lambda>(n, cs, ks). \<lparr>tb_name = n, tb_columns = cs, tb_constraints = ks, tb_rows = rows_of db n\<rparr>)
       (map (\<lambda>t. (tb_name t, tb_columns t, tb_constraints t)) (ct_tables c))"
  by (simp add: filled_def comp_def)

lemma head_filled:
  "ct_tables (filled db (vd_catalog head)) =
     [\<lparr>tb_name = ''users'', tb_columns = tb_columns (fst user_model), tb_constraints = [PrimaryKey [''id'']],
       tb_rows = map user_cells (db_users db)\<rparr>,
      \<lparr>tb_name = ''refresh_tokens'', tb_columns = tb_columns (fst refresh_token_model),
       tb_constraints = [ForeignKey [''user_id''] ''users'' [''id''] True, PrimaryKey [''jti'']],
       tb_rows = map refresh_token_cells (db_refresh_tokens db)\<rparr>,
      \<lparr>tb_name = ''conversations'', tb_columns = tb_columns (fst conversation_model),
       tb_constraints = [PrimaryKey [''id'']], tb_rows = map conversation_cells (db_conversations db)\<rparr>,
      \<lparr>tb_name = ''messages'', tb_columns = messages_columns,
       tb_constraints = [ForeignKey [''conversation_id''] ''conversations'' [''id''] False, PrimaryKey [''id''],
         UniqueKey ''uq_messages_conversation_id_client_message_id'' [''conversation_id'', ''client_message_id'']],
       tb_rows = map message_cells (db_messages db)\<rparr>,
      \<lparr>tb_name = ''conversation_participants'', tb_columns = tb_columns (fst conversation_participant_model),
       tb_constraints = [ForeignKey [''conversation_id''] ''conversations'' [''id''] False,
         PrimaryKey [''conversation_id'', ''user_id'']],
       tb_rows = map participant_cells (db_participants db)\<rparr>]"
  unfolding filled_tables head_schema by (simp add: rows_of_def)

lemma find_filled:
  "find_table ''users'' (filled db (vd_catalog head)) = Some (hd (ct_tables (filled db (vd_catalog head))))"
  "find_table ''conversations'' (filled db (vd_catalog head)) = Some (ct_tables (filled db (vd_catalog head)) ! 2)"
  by (simp_all add: find_table_def head_filled)

subsection \<open>When a catalog filled from the store is legal\<close>

lemma keys_not_null [simp]:
  "Null \<notin> set (key_of [''id''] (user_cells u))" "Null \<notin> set (key_of [''jti''] (refresh_token_cells t))"
  "Null \<notin> set (key_of [''id''] (conversation_cells c))" "Null \<notin> set (key_of [''id''] (message_cells m))"
  "Null \<notin> set (key_of [''conversation_id'', ''user_id''] (participant_cells p))"
  by (simp_all add: key_of_def cells_defs)

lemma keys_unique_map:
  assumes "inj f" and "\<And>x. key_of columns (h x) = f (g x)" and "\<And>k. Null \<notin> set (f k)"
  shows "keys_unique columns (map h xs) = distinct (map g xs)"
proof -
  have "filter (\<lambda>k. Null \<notin> set k) (map (key_of columns) (map h xs)) = map f (map g xs)"
    using assms(2,3) by (simp add: comp_def filter_id_conv)
  then show ?thesis
    using assms(1) by (simp only: keys_unique_def distinct_map [of f]) (blast intro: inj_on_subset)
qed

lemma table_keys_unique:
  "keys_unique [''id''] (map user_cells us) = distinct (map um_id us)"
  "keys_unique [''email''] (map user_cells us) = distinct (map um_email us)"
  "keys_unique [''jti''] (map refresh_token_cells ts) = distinct (map tm_jti ts)"
  "keys_unique [''id''] (map conversation_cells cs) = distinct (map cm_id cs)"
  "keys_unique [''conversation_id'', ''user_id''] (map participant_cells ps) = distinct (map pm_key ps)"
  "keys_unique [''id''] (map message_cells ms) = distinct (map mm_id ms)"
  by (rule keys_unique_map [where f = "\<lambda>i. [UuidCell i]"] keys_unique_map [where f = "\<lambda>t. [TextCell t]"]
        keys_unique_map [where f = "\<lambda>k. [UuidCell (fst k), UuidCell (snd k)]"] keys_unique_map [where f = "\<lambda>i. [IntCell i]"];
      auto simp: inj_def key_of_def cells_defs pm_key_def)+

lemma message_keys_unique:
  "keys_unique [''conversation_id'', ''client_message_id''] (map message_cells ms) =
    distinct (map mm_key (filter (\<lambda>r. mm_client_message_id r \<noteq> None) ms))"
proof -
  let ?f = "\<lambda>k. [UuidCell (fst k), nullable_cell UuidCell (snd k)]"
  have "filter (\<lambda>k. Null \<notin> set k) (map (key_of [''conversation_id'', ''client_message_id'']) (map message_cells ms)) =
      map ?f (map mm_key (filter (\<lambda>r. mm_client_message_id r \<noteq> None) ms))"
    by (induction ms) (auto simp: key_of_def message_cells_def mm_key_def)
  moreover have "inj ?f" by (auto simp: inj_on_def nullable_cell_def split: option.splits)
  ultimately show ?thesis
    unfolding keys_unique_def by (simp only: distinct_map [of ?f]) (blast intro: inj_on_subset)
qed

lemma cells_fit:
  "row_fits (tb_columns (fst user_model)) (user_cells u) = (length (um_email u) \<le> 320)"
  "row_fits (tb_columns (fst refresh_token_model)) (refresh_token_cells t)"
  "row_fits (tb_columns (fst conversation_model)) (conversation_cells c) = (length (cm_title c) \<le> 200)"
  "row_fits (tb_columns (fst conversation_participant_model)) (participant_cells p)"
  "row_fits messages_columns (message_cells m) =
    (- (2 ^ 63) \<le> mm_id m \<and> mm_id m < 2 ^ 63 \<and> length (mm_role m) \<le> 16)"
  by (auto simp: row_fits_def cells_defs models_defs messages_columns_def column_def nullable_cell_def split: option.split)

lemma references_hold:
  assumes "c = filled db (vd_catalog head)"
  shows "reference_ok c (refresh_token_cells t) (ForeignKey [''user_id''] ''users'' [''id''] x) =
      (tm_user_id t \<in> um_id ` set (db_users db))"
    and "reference_ok c (participant_cells p) (ForeignKey [''conversation_id''] ''conversations'' [''id''] x) =
      (pm_conversation_id p \<in> cm_id ` set (db_conversations db))"
    and "reference_ok c (message_cells m) (ForeignKey [''conversation_id''] ''conversations'' [''id''] x) =
      (mm_conversation_id m \<in> cm_id ` set (db_conversations db))"
  by (auto simp: assms find_filled head_filled key_of_def cells_defs image_image)

text \<open>What the schema at the head demands, in terms of the records.\<close>

lemma legal_iff:
  "legal (filled db (vd_catalog head)) \<longleftrightarrow>
     ((\<forall>u \<in> set (db_users db). length (um_email u) \<le> 320) \<and>
      distinct (map um_id (db_users db)) \<and> distinct (map um_email (db_users db))) \<and>
     (distinct (map tm_jti (db_refresh_tokens db)) \<and>
      (\<forall>t \<in> set (db_refresh_tokens db). tm_user_id t \<in> um_id ` set (db_users db))) \<and>
     ((\<forall>c \<in> set (db_conversations db). length (cm_title c) \<le> 200) \<and> distinct (map cm_id (db_conversations db))) \<and>
     (distinct (map pm_key (db_participants db)) \<and>
      (\<forall>p \<in> set (db_participants db). pm_conversation_id p \<in> cm_id ` set (db_conversations db))) \<and>
     ((\<forall>m \<in> set (db_messages db). - (2 ^ 63) \<le> mm_id m \<and> mm_id m < 2 ^ 63 \<and> length (mm_role m) \<le> 16 \<and>
        mm_conversation_id m \<in> cm_id ` set (db_conversations db)) \<and>
      distinct (map mm_id (db_messages db)) \<and>
      distinct (map mm_key (filter (\<lambda>r. mm_client_message_id r \<noteq> None) (db_messages db))))"
proof -
  let ?c = "filled db (vd_catalog head)"
  have ix: "ct_indexes ?c = ct_indexes (vd_catalog head)" by (simp add: filled_def)
  have "(\<forall>i \<in> set (ct_indexes ?c). ix_unique i \<longrightarrow>
        (case find_table (ix_table i) ?c of None \<Rightarrow> False | Some t \<Rightarrow> keys_unique (ix_columns i) (tb_rows t))) \<longleftrightarrow>
      (\<forall>i \<in> set (filter ix_unique (ct_indexes (vd_catalog head))).
        case find_table (ix_table i) ?c of None \<Rightarrow> False | Some t \<Rightarrow> keys_unique (ix_columns i) (tb_rows t))"
    unfolding ix by auto
  also have "\<dots> \<longleftrightarrow> distinct (map um_email (db_users db))"
    unfolding head_schema by (simp add: user_model_def find_filled head_filled table_keys_unique)
  finally have indexes: "(\<forall>i \<in> set (ct_indexes ?c). ix_unique i \<longrightarrow>
        (case find_table (ix_table i) ?c of None \<Rightarrow> False | Some t \<Rightarrow> keys_unique (ix_columns i) (tb_rows t))) \<longleftrightarrow>
      distinct (map um_email (db_users db))" .
  show ?thesis
    unfolding legal_def indexes unfolding head_filled
    by (auto simp: cells_fit table_keys_unique message_keys_unique references_hold [OF refl] simp del: reference_ok.simps)
qed

lemma title_bound: "title_wf (ConversationTitle t) \<Longrightarrow> length t \<le> 200"
  by (auto simp: title_wf_def mk_conversation_title_def MAX_TITLE_LENGTH_def Let_def split: if_splits)

lemma stored_rows_legal:
  assumes "db_wf db" and "db_message_seq db < 2 ^ 63"
  shows "legal (filled db (vd_catalog head))"
proof -
  have "- (2 ^ 63) \<le> mm_id m \<and> mm_id m < 2 ^ 63 \<and> length (mm_role m) \<le> 16" if "m \<in> set (db_messages db)" for m
    using assms that by (fastforce simp: db_wf_defs message_row_wf_def)
  with assms(1) title_bound show ?thesis
    unfolding legal_iff by (auto simp: db_wf_defs strict_sorted_iff)
qed

subsection \<open>The inserts check exactly that\<close>

lemma insert_participants_iff:
  assumes "distinct (map pm_key (db_participants db))"
  shows "isl (insert_participants ps db) \<longleftrightarrow>
    \<not> (distinct (map pm_key (db_participants db @ ps)) \<and>
       (\<forall>p \<in> set ps. pm_conversation_id p \<in> cm_id ` set (db_conversations db)))"
  using assms
proof (induction ps arbitrary: db)
  case (Cons p ps)
  show ?case
  proof (cases "insert_participant p db")
    case (Inl e)
    with Cons.prems show ?thesis by (auto simp: bindr_def insert_participant_def pm_key_def split: if_splits)
  next
    case (Inr db1)
    note shape = insert_participant_shape [OF Inr]
    then have "distinct (map pm_key (db_participants db1))" using Cons.prems by auto
    from Cons.IH [OF this] Inr shape show ?thesis by (auto simp: bindr_def)
  qed
qed simp

lemma insert_user_iff:
  assumes "legal (filled db (vd_catalog head))"
  shows "isl (insert_user r db) \<longleftrightarrow> \<not> legal (filled (db\<lparr>db_users := db_users db @ [r]\<rparr>) (vd_catalog head))"
  using assms unfolding legal_iff by (auto simp: insert_user_def)

lemma insert_refresh_token_iff:
  assumes "legal (filled db (vd_catalog head))"
  shows "isl (insert_refresh_token r db) \<longleftrightarrow>
    \<not> legal (filled (db\<lparr>db_refresh_tokens := db_refresh_tokens db @ [r]\<rparr>) (vd_catalog head))"
  using assms unfolding legal_iff by (auto simp: insert_refresh_token_def)

lemma insert_participant_iff:
  assumes "legal (filled db (vd_catalog head))"
  shows "isl (insert_participant r db) \<longleftrightarrow>
    \<not> legal (filled (db\<lparr>db_participants := db_participants db @ [r]\<rparr>) (vd_catalog head))"
  using assms unfolding legal_iff by (auto simp: insert_participant_def pm_key_def)

lemma insert_conversation_iff:
  assumes "legal (filled db (vd_catalog head))"
  shows "isl (insert_conversation r ps db) \<longleftrightarrow>
    \<not> legal (filled (db\<lparr>db_conversations := db_conversations db @ [r], db_participants := db_participants db @ ps\<rparr>)
        (vd_catalog head))"
proof -
  have "distinct (map pm_key (db_participants (db\<lparr>db_conversations := db_conversations db @ [r]\<rparr>)))"
    using assms unfolding legal_iff by simp
  from insert_participants_iff [OF this, of ps] assms show ?thesis
    unfolding legal_iff by (auto simp: insert_conversation_def)
qed

lemma insert_message_iff:
  assumes "legal (filled db (vd_catalog head))" and "\<forall>m \<in> set (db_messages db). mm_id m \<le> db_message_seq db"
    and "0 \<le> db_message_seq db" and "db_message_seq db + 1 < 2 ^ 63"
  shows "isl (fst (insert_message r db)) \<longleftrightarrow>
    \<not> legal (filled (db\<lparr>db_messages := db_messages db @ [r\<lparr>mm_id := db_message_seq db + 1\<rparr>]\<rparr>) (vd_catalog head))"
proof -
  have "db_message_seq db + 1 \<notin> mm_id ` set (db_messages db)" using assms(2) by auto
  moreover have "key_taken (mm_conversation_id r) (mm_client_message_id r) (db_messages db) \<longleftrightarrow>
      mm_client_message_id r \<noteq> None \<and>
      mm_key (r\<lparr>mm_id := i\<rparr>) \<in> mm_key ` set (filter (\<lambda>r. mm_client_message_id r \<noteq> None) (db_messages db))" for i
    unfolding key_taken_def mm_key_def image_iff set_filter by (simp add: Bex_def) metis
  ultimately show ?thesis
    using assms(1,3,4) unfolding legal_iff by (auto simp: insert_message_def Let_def)
qed

text \<open>C25: the store and the migrations agree. Whatever satisfies the invariant of the store fits the schema
  the migrations build from nothing, and the inserts of the store refuse a row exactly when the table
  with that row would break the schema: a column too narrow, a key or a unique value taken, a
  reference to nothing.\<close>

theorem store_enforces_the_schema:
  assumes "db_wf db" and "db_message_seq db + 1 < 2 ^ 63"
  shows "\<exists>v. run_migrations \<lparr>vd_version = None, vd_catalog = empty_catalog\<rparr> = (Inr (), v) \<and>
    legal (filled db (vd_catalog v)) \<and>
    (\<forall>r. isl (insert_user r db) \<longleftrightarrow> \<not> legal (filled (db\<lparr>db_users := db_users db @ [r]\<rparr>) (vd_catalog v))) \<and>
    (\<forall>r. isl (insert_refresh_token r db) \<longleftrightarrow>
       \<not> legal (filled (db\<lparr>db_refresh_tokens := db_refresh_tokens db @ [r]\<rparr>) (vd_catalog v))) \<and>
    (\<forall>r ps. isl (insert_conversation r ps db) \<longleftrightarrow>
       \<not> legal (filled (db\<lparr>db_conversations := db_conversations db @ [r],
                            db_participants := db_participants db @ ps\<rparr>) (vd_catalog v))) \<and>
    (\<forall>r. isl (insert_participant r db) \<longleftrightarrow>
       \<not> legal (filled (db\<lparr>db_participants := db_participants db @ [r]\<rparr>) (vd_catalog v))) \<and>
    (\<forall>r. isl (fst (insert_message r db)) \<longleftrightarrow>
       \<not> legal (filled (db\<lparr>db_messages := db_messages db @ [r\<lparr>mm_id := db_message_seq db + 1\<rparr>]\<rparr>) (vd_catalog v)))"
proof -
  have seq: "\<forall>m \<in> set (db_messages db). mm_id m \<le> db_message_seq db" "0 \<le> db_message_seq db"
    using assms(1) by (simp_all add: db_wf_defs)
  have fits: "legal (filled db (vd_catalog head))" using assms(2) by (intro stored_rows_legal assms(1)) simp
  show ?thesis
    by (intro exI [of _ head] conjI allI head_reached fits insert_user_iff [OF fits] insert_refresh_token_iff [OF fits]
        insert_conversation_iff [OF fits] insert_participant_iff [OF fits] insert_message_iff [OF fits seq assms(2)])
qed

theorem store_enforces_the_schema_witness:
  "\<exists>v. run_migrations \<lparr>vd_version = None, vd_catalog = empty_catalog\<rparr> = (Inr (), v) \<and>
    \<not> legal (filled (sample_db\<lparr>db_participants := db_participants sample_db @
       [\<lparr>pm_conversation_id = 10, pm_user_id = 2, pm_joined_at = 5\<rparr>]\<rparr>) (vd_catalog v))"
proof -
  have "isl (insert_participant \<lparr>pm_conversation_id = 10, pm_user_id = 2, pm_joined_at = 5\<rparr> sample_db)"
    by (simp add: insert_participant_def sample_db_def)
  with store_enforces_the_schema [OF sample_db_wf] show ?thesis by auto
qed

end
