(* ===== verification/Boot.thy ===== *)
theory Boot
  imports LifespanProperties Schema
begin

section \<open>The boot of a replica\<close>

text \<open>
  What a replica does before it serves: the module \<open>app.py\<close> is imported and builds the application, the
  lifespan runs the migrations (\<open>shared/infrastructure/outbound/migrations.py\<close>, which has Alembic run
  \<open>migrations/env.py\<close>), and opens its clients. Then the migrations of several replicas at once: a step
  relation over the advisory lock of \<open>_do_run_migrations\<close>, in which every replica takes its turns in any
  order and may lose its connection at any time. What the file system, the driver and
  \<open>logging.config.fileConfig\<close> do is given by a \<open>host\<close>.
\<close>

subsection \<open>Running the migrations from the process\<close>

record alembic_config =
  al_config_file_name :: "string option"
  al_script_location :: string
  al_url :: string

record host =
  ho_environment :: environment
  ho_parents :: "string list"
  ho_is_file :: "string \<Rightarrow> bool"
  ho_file_config :: "root_logger \<Rightarrow> root_logger"
  ho_option :: "string \<Rightarrow> string outcome"
  ho_connect :: "string \<Rightarrow> unit outcome"
  ho_dispose :: "unit outcome"

record globals =
  gl_settings :: "settings option"
  gl_logger :: root_logger
  gl_database :: versioned

definition join_path :: "string \<Rightarrow> string \<Rightarrow> string" where
  "join_path directory name = (if directory = ''/'' then directory else directory @ ''/'') @ name"

definition project_root :: "host \<Rightarrow> string outcome" where
  "project_root host =
     (case find (\<lambda>directory. ho_is_file host (join_path directory ''alembic.ini'')) (ho_parents host) of
        None \<Rightarrow> Inl RuntimeError
      | Some directory \<Rightarrow> Inr directory)"

definition cached_settings :: "environment \<Rightarrow> (settings, globals) op" where
  "cached_settings env g = (case get_settings env (gl_settings g) of (r, cache) \<Rightarrow> (r, g\<lparr>gl_settings := cache\<rparr>))"

text \<open>An error of the database as the driver raises it\<close>

fun ddl_exn :: "ddl_error \<Rightarrow> exn" where
  "ddl_exn NotNullViolation = IntegrityError"
| "ddl_exn UniqueViolation = IntegrityError"
| "ddl_exn ForeignKeyViolation = IntegrityError"
| "ddl_exn _ = OtherError 0"

definition migrate_database :: "(unit, globals) op" where
  "migrate_database g =
     (case run_migrations (gl_database g) of
        (Inl e, v) \<Rightarrow> (Inl (ddl_exn e), g\<lparr>gl_database := v\<rparr>)
      | (Inr _, v) \<Rightarrow> (Inr (), g\<lparr>gl_database := v\<rparr>))"

text \<open>The options of an Alembic configuration are those of a \<open>ConfigParser\<close>, which reads a percent sign as the
  start of a reference. \<open>set\<close> removes the pairs of percent signs, then the references, and refuses the value
  when a percent sign is left; \<open>get\<close> gives one percent sign for a pair and the value of the option, here
  \<open>ho_option\<close>, for a reference.\<close>

fun drop_pairs :: "string \<Rightarrow> string" where
  "drop_pairs (c # d # s) = (if c = CHR ''%'' \<and> d = CHR ''%'' then drop_pairs s else c # drop_pairs (d # s))"
| "drop_pairs s = s"

definition reference :: "string \<Rightarrow> (string \<times> string) option" where
  "reference s =
     (if take 2 s = ''%('' then
        (case (takeWhile (\<lambda>c. c \<noteq> CHR '')'') (drop 2 s), dropWhile (\<lambda>c. c \<noteq> CHR '')'') (drop 2 s)) of
           (name, rest) \<Rightarrow> if name \<noteq> [] \<and> take 2 rest = '')s'' then Some (name, drop 2 rest) else None)
      else None)"

lemma reference_shorter [termination_simp]: "reference s = Some (name, rest) \<Longrightarrow> length rest < length s"
  using length_dropWhile_le [of "\<lambda>c. c \<noteq> CHR '')''" "drop 2 s"]
  by (cases s) (auto simp: reference_def split: if_splits prod.splits)

function drop_references :: "string \<Rightarrow> string" where
  "drop_references [] = []"
| "drop_references (c # s) =
     (case reference (c # s) of None \<Rightarrow> c # drop_references s | Some (name, rest) \<Rightarrow> drop_references rest)"
  by pat_completeness auto
termination by (relation "measure length") (auto dest: reference_shorter)

definition set_main_option :: "string \<Rightarrow> string outcome" where
  "set_main_option value = (if CHR ''%'' \<in> set (drop_references (drop_pairs value)) then Inl ValueError else Inr value)"

function get_option :: "(string \<Rightarrow> string outcome) \<Rightarrow> string \<Rightarrow> string outcome" where
  "get_option other [] = Inr []"
| "get_option other (c # s) =
     (if c \<noteq> CHR ''%'' then bindr (get_option other s) (\<lambda>t. Inr (c # t))
      else if take 1 s = ''%'' then bindr (get_option other (drop 1 s)) (\<lambda>t. Inr (c # t))
      else case reference (c # s) of
             None \<Rightarrow> Inl (OtherError 2)
           | Some (name, rest) \<Rightarrow> bindr (other name) (\<lambda>v. bindr (get_option other rest) (\<lambda>t. Inr (v @ t))))"
  by pat_completeness auto
termination by (relation "measure (\<lambda>(other, s). length s)") (auto dest: reference_shorter)

definition run_migrations_online :: "host \<Rightarrow> alembic_config \<Rightarrow> (unit, globals) op" where
  "run_migrations_online host config =
     bindp (lift (get_option (ho_option host) (al_url config))) (\<lambda>url.
     thenp (lift (ho_connect host url)) (thenp migrate_database (lift (ho_dispose host))))"

text \<open>\<open>env.py\<close> as a whole: \<open>fileConfig\<close> only where there is a file, then the URL of the settings, then the run.\<close>

definition env_module :: "host \<Rightarrow> alembic_config \<Rightarrow> (unit, globals) op" where
  "env_module host config =
     thenp (case al_config_file_name config of
              None \<Rightarrow> ret ()
            | Some _ \<Rightarrow> (\<lambda>g. (Inr (), g\<lparr>gl_logger := ho_file_config host (gl_logger g)\<rparr>)))
     (bindp (cached_settings (ho_environment host)) (\<lambda>settings.
      bindp (lift (set_main_option (set_database_url settings))) (\<lambda>url.
        run_migrations_online host (config\<lparr>al_url := url\<rparr>))))"

definition upgrade_head :: "host \<Rightarrow> (unit, globals) op" where
  "upgrade_head host =
     bindp (lift (project_root host)) (\<lambda>root.
     bindp (lift (set_main_option (join_path root ''migrations''))) (\<lambda>location.
       env_module host \<lparr>al_config_file_name = None, al_script_location = location, al_url = []\<rparr>))"

subsection \<open>From the import of the module to the first request\<close>

definition import_app :: "host \<Rightarrow> (application, globals) op" where
  "import_app host g =
     (case create_default_app (ho_environment host) (gl_settings g, gl_logger g) of
        (r, cache, root) \<Rightarrow> (r, g\<lparr>gl_settings := cache, gl_logger := root\<rparr>))"

text \<open>The lifespan up to its \<open>yield\<close>; the first two of its library calls are here what they do.\<close>

definition boot :: "host \<Rightarrow> library_calls \<Rightarrow> (application, globals \<times> process) op" where
  "boot host calls = (\<lambda>(g, p).
     case import_app host g of
       (Inl e, g1) \<Rightarrow> (Inl e, g1, p)
     | (Inr app, g1) \<Rightarrow>
         (case upgrade_head host g1 of (migrated, g2) \<Rightarrow>
          case (if isl migrated then (Inl RuntimeError, g2) else cached_settings (ho_environment host) g2) of
            (settings, g3) \<Rightarrow>
              (case startup (calls\<lparr>lc_run_migrations := migrated, lc_get_settings := settings\<rparr>) p of
                 (r, p') \<Rightarrow> (map_sum id (\<lambda>_. app) r, g3, p'))))"

lemma migrate_database_frame:
  "migrate_database g = (r, g') \<Longrightarrow> gl_settings g' = gl_settings g \<and> gl_logger g' = gl_logger g \<and>
     (r = Inr () \<longrightarrow> run_migrations (gl_database g) = (Inr (), gl_database g'))"
  by (auto simp: migrate_database_def split: prod.splits sum.splits)

text \<open>Run from the process, the migrations leave the logging of the process alone; run by the command of
  Alembic, which names its file, they replace it.\<close>

lemma env_module_logger:
  assumes "env_module host config g = (Inr (), g')"
  shows "gl_logger g' = (if al_config_file_name config = None then gl_logger g else ho_file_config host (gl_logger g))"
  using assms
  by (auto simp: env_module_def run_migrations_online_def cached_settings_def proc_simps dest!: migrate_database_frame
      split: sum.splits prod.splits option.splits)

lemma upgrade_head_ok:
  assumes "upgrade_head host g = (Inr (), g')" and "gl_settings g = Some st"
  shows "gl_logger g' = gl_logger g \<and> gl_settings g' = Some st \<and>
    run_migrations (gl_database g) = (Inr (), gl_database g')"
  using assms
  by (auto simp: upgrade_head_def env_module_def run_migrations_online_def cached_settings_def get_settings_def proc_simps
      dest!: migrate_database_frame split: sum.splits prod.splits)

lemma map_sum_eq_Inr: "map_sum id f x = Inr y \<longleftrightarrow> (\<exists>z. x = Inr z \<and> y = f z)"
  by (cases x) auto

text \<open>A replica that has booted logs in JSON at the level of its settings, runs at the last revision and holds an
  engine, a Redis client, a reader and a limiter made of the settings it was built with.\<close>

lemma boot_ready:
  assumes "boot host calls (g, p) = (Inr app, g', p')" and "gl_settings g = None"
  obtains st where "gl_settings g' = Some st" and "32 \<le> length (set_jwt_secret_key st)"
    and "gl_logger g' = \<lparr>root_handlers = [StdoutJson], root_level = upper (set_log_level st)\<rparr>"
    and "run_migrations (gl_database g) = (Inr (), gl_database g')"
    and "p' = started st"
proof -
  obtain a g1 where imported: "import_app host g = (a, g1)" by (cases "import_app host g")
  with assms(1) have app: "import_app host g = (Inr app, g1)"
    by (cases a) (auto simp: boot_def map_sum_eq_Inr split: prod.splits)
  from this assms(2) obtain cache root where created: "create_default_app (ho_environment host) (None, gl_logger g) = (Inr app, cache, root)"
    and g1: "g1 = g\<lparr>gl_settings := cache, gl_logger := root\<rparr>"
    by (auto simp: import_app_def split: prod.splits)
  obtain st where st: "create_app st (gl_logger g) = (Inr app, root)" "32 \<le> length (set_jwt_secret_key st)"
    and got: "get_settings (ho_environment host) cache = (Inr st, cache)"
    by (rule default_app_settings [OF created])
  from got have cache: "cache = Some st" by (auto simp: get_settings_def split: option.splits sum.splits)
  have logger: "root = \<lparr>root_handlers = [StdoutJson], root_level = upper (set_log_level st)\<rparr>"
    using st(1) by (cases "gl_logger g")
      (auto simp: create_app_def configure_logging_def thenp_def bindp_def lift_def ret_def Let_def split: if_splits sum.splits)
  obtain m g2 where m: "upgrade_head host g1 = (m, g2)" by (cases "upgrade_head host g1")
  with assms app have ok: "m = Inr ()" by (cases m) (auto simp: boot_def startup_cases)
  with upgrade_head_ok [of host g1 g2 st] m g1 cache have g2: "gl_logger g2 = root" "gl_settings g2 = Some st"
    "run_migrations (gl_database g) = (Inr (), gl_database g2)" by auto
  with assms app m ok have "g' = g2" "p' = started st"
    by (auto simp: boot_def cached_settings_def get_settings_def startup_cases split: sum.splits)
  with g2 st(2) logger show thesis using that by blast
qed

subsection \<open>A percent sign in the database URL\<close>

text \<open>A URL without percent signs goes through the configuration as it is.\<close>

lemma plain_option:
  assumes "CHR ''%'' \<notin> set url"
  shows "set_main_option url = Inr url" and "get_option other url = Inr url"
proof -
  have kept: "drop_pairs url = url" using assms by (induction url rule: drop_pairs.induct) auto
  have "drop_references url = url" using assms
    by (induction url rule: drop_references.induct) (auto simp: reference_def split: option.split)
  with kept assms show "set_main_option url = Inr url" by (simp add: set_main_option_def)
  show "get_option other url = Inr url" using assms by (induction url) (auto simp: bindr_def)
qed

lemma percent_refused:
  assumes "CHR ''%'' \<notin> set u" and "c \<noteq> CHR ''%''" and "c \<noteq> CHR ''(''"
  shows "set_main_option (u @ CHR ''%'' # c # w) = Inl ValueError"
proof -
  have tail: "\<exists>x. drop_pairs (c # w) = c # x" using assms(2) by (cases w) auto
  have "drop_pairs (u @ CHR ''%'' # c # w) = u @ CHR ''%'' # drop_pairs (c # w)"
    using assms(1,2) by (induction u rule: drop_pairs.induct) auto
  with tail obtain x where x: "drop_pairs (u @ CHR ''%'' # c # w) = u @ CHR ''%'' # c # x" by auto
  have "CHR ''%'' \<in> set (drop_references (u @ CHR ''%'' # c # x))" using assms
    by (induction u) (auto simp: reference_def split: option.split)
  with x show ?thesis by (simp add: set_main_option_def)
qed

text \<open>C38: a percent sign in the database URL that starts neither a pair nor a reference, as in a
  percent-encoded password, keeps every replica from booting: the configuration of the migrations refuses
  the URL, the boot raises, and nothing is migrated or opened.\<close>

theorem percent_in_url_stops_the_boot:
  assumes "gl_settings g = None" and "read_settings (ho_environment host) = Inr st"
    and "set_database_url st = u @ CHR ''%'' # c # w" and "CHR ''%'' \<notin> set u" and "c \<notin> {CHR ''%'', CHR ''(''}"
    and "boot host calls (g, p) = (r, g', p')"
  shows "isl r \<and> gl_database g' = gl_database g \<and> p' = p"
proof -
  have refused: "set_main_option (set_database_url st) = Inl ValueError" using percent_refused assms(3-5) by auto
  obtain a g1 where app: "import_app host g = (a, g1)" by (cases "import_app host g")
  with assms(1,2) have g1: "gl_settings g1 = Some st" "gl_database g1 = gl_database g"
    by (auto simp: import_app_def create_default_app_def get_settings_def split: prod.splits)
  obtain m g2 where up: "upgrade_head host g1 = (m, g2)" by (cases "upgrade_head host g1")
  with g1 refused have "isl m \<and> gl_database g2 = gl_database g"
    by (auto simp: upgrade_head_def env_module_def cached_settings_def get_settings_def proc_simps split: sum.splits)
  with app up g1(2) assms(6) show ?thesis
    by (cases a; cases m) (auto simp: boot_def startup_cases)
qed

definition sample_environment :: "string \<Rightarrow> environment" where
  "sample_environment database_url =
     \<lparr>var_environment = Absent, var_log_level = Absent, var_host = Absent, var_port = Absent,
      var_database_url = Given database_url, var_redis_url = Given ''redis://redis:6379/0'',
      var_jwt_secret_key = Given ''0123456789abcdef0123456789abcdef'', var_jwt_algorithm = Absent,
      var_access_token_ttl_seconds = Absent, var_refresh_token_ttl_seconds = Absent,
      var_ws_auth_timeout_seconds = Absent, var_ws_rate_limit_messages = Absent,
      var_ws_rate_limit_window_seconds = Absent, var_shutdown_drain_timeout_seconds = Absent,
      var_cors_allow_origins = Absent\<rparr>"

definition sample_host :: "string \<Rightarrow> host" where
  "sample_host database_url =
     \<lparr>ho_environment = sample_environment database_url, ho_parents = [''/app/src/dizzchat'', ''/app/src'', ''/app'', ''/''],
      ho_is_file = (\<lambda>path. path = ''/app/alembic.ini''), ho_file_config = (\<lambda>root. root),
      ho_option = (\<lambda>_. Inl KeyError), ho_connect = (\<lambda>_. Inr ()), ho_dispose = Inr ()\<rparr>"

definition sample_globals :: globals where
  "sample_globals = \<lparr>gl_settings = None, gl_logger = \<lparr>root_handlers = [], root_level = ''WARNING''\<rparr>,
     gl_database = \<lparr>vd_version = None, vd_catalog = empty_catalog\<rparr>\<rparr>"

lemma sample_settings_read:
  "\<exists>st. read_settings (sample_environment url) = Inr st \<and> set_database_url st = url \<and> set_log_level st = ''INFO''"
  by (simp add: sample_environment_def read_settings_def bindr_def long_enough_def)

theorem percent_in_url_stops_the_boot_witness:
  "isl (fst (boot (sample_host ''postgresql+asyncpg://chat:p%40ss@db/chat'') sample_calls (sample_globals, sample_process)))"
proof -
  let ?url = "''postgresql+asyncpg://chat:p%40ss@db/chat''" and ?u = "''postgresql+asyncpg://chat:p''"
  obtain st where "read_settings (sample_environment ?url) = Inr st" "set_database_url st = ?u @ CHR ''%'' # CHR ''4'' # ''0ss@db/chat''"
    using sample_settings_read [of ?url] by auto
  with percent_in_url_stops_the_boot [of sample_globals "sample_host ?url" st ?u "CHR ''4''" "''0ss@db/chat''" sample_calls sample_process]
  show ?thesis
    by (cases "boot (sample_host ?url) sample_calls (sample_globals, sample_process)")
      (auto simp: sample_globals_def sample_host_def)
qed

text \<open>The same replica with a password that needs no encoding boots.\<close>

lemma sample_boots:
  "\<exists>app g p. boot (sample_host ''postgresql+asyncpg://chat:pass@db/chat'') sample_calls (sample_globals, sample_process) =
     (Inr app, g, p) \<and> gl_database g = head"
proof -
  let ?url = "''postgresql+asyncpg://chat:pass@db/chat''"
  obtain st where st: "read_settings (sample_environment ?url) = Inr st" "set_database_url st = ?url" "set_log_level st = ''INFO''"
    using sample_settings_read [of ?url] by auto
  obtain app root where app: "create_app st (gl_logger sample_globals) = (Inr app, root)"
    using st(3) by (auto simp: create_app_def configure_logging_def level_names_def upper_def upper_char_def code_def routers_pass
        proc_simps Let_def)
  define g1 where "g1 = sample_globals\<lparr>gl_settings := Some st, gl_logger := root\<rparr>"
  have imported: "import_app (sample_host ?url) sample_globals = (Inr app, g1)"
    using app st(1) by (simp add: import_app_def create_default_app_def get_settings_def sample_host_def sample_globals_def g1_def)
  have "project_root (sample_host ?url) = Inr ''/app''" by (simp add: project_root_def sample_host_def join_path_def)
  moreover have "set_main_option (join_path ''/app'' ''migrations'') = Inr ''/app/migrations''"
    by (simp add: join_path_def plain_option(1))
  moreover have "run_migrations (gl_database g1) = (Inr (), head)" by (simp add: g1_def sample_globals_def head_reached)
  moreover have "set_main_option ?url = Inr ?url" "get_option other ?url = Inr ?url" for other
    by (rule plain_option; simp)+
  ultimately have "upgrade_head (sample_host ?url) g1 = (Inr (), g1\<lparr>gl_database := head\<rparr>)"
    using st(2) by (simp add: upgrade_head_def env_module_def run_migrations_online_def migrate_database_def cached_settings_def
        get_settings_def proc_simps sample_host_def g1_def)
  with imported show ?thesis
    by (simp add: boot_def cached_settings_def get_settings_def startup_cases sample_calls_def g1_def)
qed

subsection \<open>Several replicas at once\<close>

text \<open>How far a replica is with its migrations: it waits for the advisory lock, holds it, has run the
  revisions in its transaction, or has come out of \<open>run_migrations_online\<close>.\<close>

datatype migrator = Booting | Waiting | Locked | Migrated "ddl_error + unit" versioned | Ended "unit outcome"

record migrating =
  mr_database :: versioned
  mr_holder :: "nat option"
  mr_migrators :: "migrator list"

definition set_migrator :: "nat \<Rightarrow> migrator \<Rightarrow> migrating \<Rightarrow> migrating" where
  "set_migrator i m s = s\<lparr>mr_migrators := (mr_migrators s)[i := m]\<rparr>"

fun has_ended :: "migrator \<Rightarrow> bool" where
  "has_ended (Ended _) = True"
| "has_ended _ = False"

fun inside :: "migrator \<Rightarrow> bool" where
  "inside Locked = True"
| "inside (Migrated _ _) = True"
| "inside _ = False"

text \<open>The steps of \<open>_do_run_migrations\<close>: the statement that asks for the lock, the lock being granted, the
  revisions, and the end of the transaction, which commits or rolls back and gives the lock back.\<close>

inductive migrate_step :: "migrating \<Rightarrow> migrating \<Rightarrow> bool" where
  asks: "i < length (mr_migrators s) \<Longrightarrow> mr_migrators s ! i = Booting \<Longrightarrow> migrate_step s (set_migrator i Waiting s)"
| granted: "i < length (mr_migrators s) \<Longrightarrow> mr_migrators s ! i = Waiting \<Longrightarrow> mr_holder s = None \<Longrightarrow>
    migrate_step s ((set_migrator i Locked s)\<lparr>mr_holder := Some i\<rparr>)"
| upgrades: "i < length (mr_migrators s) \<Longrightarrow> mr_migrators s ! i = Locked \<Longrightarrow> run_migrations (mr_database s) = (q, v) \<Longrightarrow>
    migrate_step s (set_migrator i (Migrated q v) s)"
| commits: "i < length (mr_migrators s) \<Longrightarrow> mr_migrators s ! i = Migrated (Inr ()) v \<Longrightarrow>
    migrate_step s ((set_migrator i (Ended (Inr ())) s)\<lparr>mr_database := v, mr_holder := None\<rparr>)"
| rolls_back: "i < length (mr_migrators s) \<Longrightarrow> mr_migrators s ! i = Migrated (Inl e) v \<Longrightarrow>
    migrate_step s ((set_migrator i (Ended (Inl (ddl_exn e))) s)\<lparr>mr_holder := None\<rparr>)"

text \<open>A lost connection ends the transaction, and with it the lock.\<close>

inductive connection_lost :: "migrating \<Rightarrow> migrating \<Rightarrow> bool" where
  "i < length (mr_migrators s) \<Longrightarrow> \<not> has_ended (mr_migrators s ! i) \<Longrightarrow>
    connection_lost s ((set_migrator i (Ended (Inl (OtherError 1))) s)
      \<lparr>mr_holder := (if mr_holder s = Some i then None else mr_holder s)\<rparr>)"

definition migrators :: "nat \<Rightarrow> versioned \<Rightarrow> migrating" where
  "migrators n v = \<lparr>mr_database = v, mr_holder = None, mr_migrators = replicate n Booting\<rparr>"

lemma set_migrator_simps [simp]:
  "mr_database (set_migrator i m s) = mr_database s" "mr_holder (set_migrator i m s) = mr_holder s"
  "mr_migrators (set_migrator i m s) = (mr_migrators s)[i := m]"
  by (simp_all add: set_migrator_def)

text \<open>A run of the migrations leaves nothing to run.\<close>

lemmas chain_defs = revisions_def revision_0001_def revision_0002_def revision_0003_def revision_0004_def revision_0005_def

lemma pending_last:
  assumes "pending_revisions (length revisions) current \<noteq> []"
  shows "pending_revisions (length revisions) (Some (rv_revision (last (pending_revisions (length revisions) current)))) = []"
proof -
  have length: "length revisions = Suc (Suc (Suc (Suc (Suc 0))))" by (simp add: revisions_def)
  have "find (\<lambda>r. rv_down_revision r = current) revisions \<noteq> None"
    using assms unfolding length by (simp only: pending_revisions.simps) (auto split: option.splits)
  then have "\<exists>r \<in> set revisions. rv_down_revision r = current" by (auto simp: find_None_iff)
  then consider "current = None" | "current = Some ''0001_identity''" | "current = Some ''0002_conversations''"
    | "current = Some ''0003_message_role''" | "current = Some ''0004_client_message_id''"
    unfolding chain_defs by fastforce
  then have "rv_revision (last (pending_revisions (length revisions) current)) = ''0005_conversation_participants''"
    unfolding length by cases (simp_all add: chain_defs)
  then show ?thesis unfolding length by (simp add: chain_defs)
qed

lemma pending_known: "r \<in> set (pending_revisions n current) \<Longrightarrow> known_revision (Some (rv_revision r))"
proof (induction n current rule: pending_revisions.induct)
  case (2 n current)
  then obtain r0 where r0: "find (\<lambda>r. rv_down_revision r = current) revisions = Some r0"
    by (cases "find (\<lambda>r. rv_down_revision r = current) revisions") auto
  with 2(2) have r: "r = r0 \<or> r \<in> set (pending_revisions n (Some (rv_revision r0)))" by simp
  from find_Some_D [OF r0] have "r0 \<in> set revisions" by simp
  with r 2(1) [OF r0] show ?case by (auto simp: known_revision_def)
qed simp

lemma run_migrations_again: "run_migrations v = (Inr (), v') \<Longrightarrow> run_migrations v' = (Inr (), v')"
  using pending_last [of "vd_version v"] pending_known [of "last _" "length revisions" "vd_version v"]
  by (auto simp: run_migrations_def Let_def split: sum.splits if_splits)

lemma run_migrations_fails: "run_migrations v = (Inl e, v') \<Longrightarrow> v' = v"
  by (auto simp: run_migrations_def Let_def split: sum.splits if_splits)

text \<open>A replica of an earlier release does not boot on the database of a later one.\<close>

lemma later_version_refused:
  "\<not> known_revision (vd_version v) \<Longrightarrow> run_migrations v = (Inl UnknownRevision, v)"
  by (simp add: run_migrations_def)

text \<open>The invariant of the migrating replicas, and the turns that are left to them.\<close>

fun accounted :: "versioned \<Rightarrow> versioned \<Rightarrow> migrator \<Rightarrow> bool" where
  "accounted v0 db (Migrated q v) = (run_migrations db = (q, v))"
| "accounted v0 db (Ended r) = (r = Inr () \<longrightarrow> run_migrations v0 = (Inr (), db))"
| "accounted v0 db _ = True"

definition serialized :: "versioned \<Rightarrow> migrating \<Rightarrow> bool" where
  "serialized v0 s =
     ((\<forall>i < length (mr_migrators s). inside (mr_migrators s ! i) = (mr_holder s = Some i)) \<and>
      (\<forall>i. mr_holder s = Some i \<longrightarrow> i < length (mr_migrators s)) \<and>
      mr_database s \<in> {v0, snd (run_migrations v0)} \<and>
      (\<forall>m \<in> set (mr_migrators s). accounted v0 (mr_database s) m))"

fun turns_left :: "migrator \<Rightarrow> nat" where
  "turns_left Booting = 4"
| "turns_left Waiting = 3"
| "turns_left Locked = 2"
| "turns_left (Migrated _ _) = 1"
| "turns_left (Ended _) = 0"

lemma serialized_start: "serialized v (migrators n v)"
  by (auto simp: serialized_def migrators_def)

lemma upgraded:
  assumes "v \<in> {v0, snd (run_migrations v0)}" and "run_migrations v = (Inr (), v')"
  shows "run_migrations v0 = (Inr (), v')"
proof (cases "v = v0")
  case False
  obtain r v1 where run: "run_migrations v0 = (r, v1)" by (cases "run_migrations v0")
  with False assms(1) have "v = v1" by simp
  with False run have "r = Inr ()" using run_migrations_fails by (cases r) auto
  with run have "run_migrations v1 = (Inr (), v1)" by (simp add: run_migrations_again)
  with assms(2) run \<open>v = v1\<close> \<open>r = Inr ()\<close> show ?thesis by simp
qed (use assms in simp)

text \<open>One replica takes a turn: the lock goes where its turn puts it, and the others are accounted for as before.\<close>

lemma serialized_turn:
  assumes "serialized v0 s" and "i < length (mr_migrators s)" and "mr_migrators s' = (mr_migrators s)[i := m]"
    and "mr_holder s' = (if inside m then Some i else if inside (mr_migrators s ! i) then None else mr_holder s)"
    and "inside m \<Longrightarrow> inside (mr_migrators s ! i) \<or> mr_holder s = None"
    and "mr_database s' \<in> {v0, snd (run_migrations v0)}" and "accounted v0 (mr_database s') m"
    and "\<And>j. j < length (mr_migrators s) \<Longrightarrow> j \<noteq> i \<Longrightarrow> accounted v0 (mr_database s') (mr_migrators s ! j)"
  shows "serialized v0 s'"
proof -
  have lock: "inside (mr_migrators s ! j) = (mr_holder s = Some j)" if "j < length (mr_migrators s)" for j
    using assms(1) that by (simp add: serialized_def)
  have held: "j < length (mr_migrators s)" if "mr_holder s = Some j" for j using assms(1) that by (simp add: serialized_def)
  have "inside (mr_migrators s' ! j) = (mr_holder s' = Some j)" if "j < length (mr_migrators s)" for j
    using lock [OF that] lock [OF assms(2)] assms(2-5) that by (cases "j = i") (auto split: if_splits)
  moreover have "j < length (mr_migrators s')" if "mr_holder s' = Some j" for j
    using that held assms(2-4) by (auto split: if_splits)
  moreover have "accounted v0 (mr_database s') m'" if "m' \<in> set (mr_migrators s')" for m'
    using that assms(2,3,7,8) by (auto simp: in_set_conv_nth nth_list_update split: if_splits)
  ultimately show ?thesis using assms(3,6) by (simp add: serialized_def)
qed

lemma serialized_step:
  assumes "serialized v0 s" and "migrate_step s s' \<or> connection_lost s s'"
  shows "serialized v0 s'"
proof -
  have db: "mr_database s \<in> {v0, snd (run_migrations v0)}" using assms(1) by (simp add: serialized_def)
  have all: "accounted v0 (mr_database s) (mr_migrators s ! j)" if "j < length (mr_migrators s)" for j
    using assms(1) that by (simp add: serialized_def)
  have lock: "inside (mr_migrators s ! j) = (mr_holder s = Some j)" if "j < length (mr_migrators s)" for j
    using assms(1) that by (simp add: serialized_def)
  from assms(2) show ?thesis
  proof
    assume "migrate_step s s'"
    then show ?thesis
    proof cases
      case (commits i v)
      with all [of i] have "run_migrations (mr_database s) = (Inr (), v)" by simp
      with db have upgrade: "run_migrations v0 = (Inr (), v)" by (rule upgraded)
      have "accounted v0 v (mr_migrators s ! j)" if "j < length (mr_migrators s)" "j \<noteq> i" for j
        using lock [OF that(1)] lock [OF commits(2)] commits(3) that(2) upgrade
        by (cases "mr_migrators s ! j") auto
      with commits upgrade show ?thesis by (intro serialized_turn [OF assms(1) commits(2)]) auto
    next
      case (asks i)
      with db all show ?thesis by (intro serialized_turn [OF assms(1) asks(2)]) auto
    next
      case (granted i)
      with db all show ?thesis by (intro serialized_turn [OF assms(1) granted(2)]) auto
    next
      case (upgrades i q v)
      with db all lock [of i] show ?thesis by (intro serialized_turn [OF assms(1) upgrades(2)]) auto
    next
      case (rolls_back i e v)
      with db all show ?thesis by (intro serialized_turn [OF assms(1) rolls_back(2)]) auto
    qed
  next
    assume "connection_lost s s'"
    then show ?thesis
    proof cases
      case (1 i)
      with db all lock show ?thesis by (intro serialized_turn [OF assms(1) 1(2)]) auto
    qed
  qed
qed

text \<open>Whoever is inside has a turn, and so has everybody who waits when nobody is.\<close>

lemma inside_turn:
  assumes "i < length (mr_migrators s)" and "inside (mr_migrators s ! i)"
  shows "\<exists>s'. migrate_step s s'"
proof (cases "mr_migrators s ! i")
  case Locked
  with assms show ?thesis by (metis migrate_step.upgrades surj_pair)
next
  case (Migrated q v)
  with assms show ?thesis by (cases q) (auto intro: migrate_step.intros)
qed (use assms in auto)

lemma free_turn:
  assumes "serialized v0 s" and "i < length (mr_migrators s)" and "\<not> has_ended (mr_migrators s ! i)"
  shows "\<exists>s'. migrate_step s s'"
proof (cases "mr_holder s")
  case (Some j)
  with assms(1) have "j < length (mr_migrators s)" "inside (mr_migrators s ! j)" by (auto simp: serialized_def)
  then show ?thesis by (rule inside_turn)
next
  case None
  show ?thesis
  proof (cases "inside (mr_migrators s ! i)")
    case False
    with assms(2,3) None show ?thesis by (cases "mr_migrators s ! i") (auto intro: migrate_step.intros)
  qed (use assms(2) inside_turn in blast)
qed

lemma sum_list_set: "i < length xs \<Longrightarrow> sum_list (xs[i := x]) + xs ! i = sum_list xs + (x :: nat)"
  by (induction xs arbitrary: i) (auto split: nat.split)

lemma turns_step:
  assumes "migrate_step s s' \<or> connection_lost s s'"
  shows "sum_list (map turns_left (mr_migrators s')) < sum_list (map turns_left (mr_migrators s)) \<and>
    length (mr_migrators s') = length (mr_migrators s)"
proof -
  have "sum_list (map turns_left (ms[i := m])) < sum_list (map turns_left ms)"
    if "i < length ms" "turns_left m < turns_left (ms ! i)" for ms i m
  proof -
    from that have "sum_list (map turns_left (ms[i := m])) + turns_left (ms ! i) = sum_list (map turns_left ms) + turns_left m"
      using sum_list_set [of i "map turns_left ms" "turns_left m"] by (simp add: map_update)
    with that(2) show ?thesis by simp
  qed
  moreover have "0 < turns_left m" if "\<not> has_ended m" for m using that by (cases m) auto
  ultimately show ?thesis using assms by (auto elim!: migrate_step.cases connection_lost.cases)
qed

text \<open>C26: whatever replicas boot on one database at once, in whatever order they take their turns and
  whichever lose their connection, the migrations are applied once: at most one replica is inside its
  transaction, the database is as it was or as one run of the migrations leaves it, and every replica that
  came through has the migrated one; no replica can be kept from its turn, and after four turns each they
  have all ended.\<close>

theorem migrations_run_once:
  assumes "((sup migrate_step connection_lost) ^^ k) (migrators n v0) s"
  shows "length (mr_migrators s) = n \<and> k \<le> 4 * n \<and>
    (\<forall>i < n. \<forall>j < n. inside (mr_migrators s ! i) \<and> inside (mr_migrators s ! j) \<longrightarrow> i = j) \<and>
    mr_database s \<in> {v0, snd (run_migrations v0)} \<and>
    (\<forall>i < n. mr_migrators s ! i = Ended (Inr ()) \<longrightarrow> run_migrations v0 = (Inr (), mr_database s)) \<and>
    ((\<exists>i < n. \<not> has_ended (mr_migrators s ! i)) \<longrightarrow> (\<exists>s'. migrate_step s s'))"
proof -
  have inv: "serialized v0 s \<and> length (mr_migrators s) = n \<and> k + sum_list (map turns_left (mr_migrators s)) \<le> 4 * n"
    using assms
  proof (induction k arbitrary: s)
    case 0
    then show ?case by (auto simp: serialized_start) (auto simp: migrators_def sum_list_replicate)
  next
    case (Suc k)
    then obtain t where t: "((sup migrate_step connection_lost) ^^ k) (migrators n v0) t" "migrate_step t s \<or> connection_lost t s"
      by (auto simp: sup_fun_def sup_bool_def)
    with Suc.IH [OF t(1)] serialized_step [OF _ t(2)] turns_step [OF t(2)] show ?case by auto
  qed
  have progress: "\<exists>s'. migrate_step s s'" if "i < n" "\<not> has_ended (mr_migrators s ! i)" for i
    using free_turn [of v0 s i] inv that by auto
  have came: "accounted v0 (mr_database s) (mr_migrators s ! i)" if "i < n" for i
    using inv that by (simp add: serialized_def)
  have "run_migrations v0 = (Inr (), mr_database s)" if "i < n" "mr_migrators s ! i = Ended (Inr ())" for i
    using came [OF that(1)] that(2) by simp
  moreover have "i = j" if "i < n" "j < n" "inside (mr_migrators s ! i)" "inside (mr_migrators s ! j)" for i j
    using inv that by (auto simp: serialized_def)
  moreover have "mr_database s \<in> {v0, snd (run_migrations v0)}" using inv by (simp add: serialized_def)
  ultimately show ?thesis using inv progress by auto
qed

lemma seven_turns:
  assumes "R a b" and "R b c" and "R c d" and "R d e" and "R e f" and "R f g" and "R g h"
  shows "(R ^^ 7) a h"
proof -
  have "(R ^^ Suc (Suc (Suc (Suc (Suc (Suc (Suc 0))))))) a h"
    by (rule relpowp_Suc_I relpowp_0_I assms)+
  then show ?thesis by (simp add: eval_nat_numeral)
qed

text \<open>Two replicas on an empty database: the first gets the lock and loses its connection, the second migrates.\<close>

theorem migrations_run_once_witness:
  "\<exists>s. ((sup migrate_step connection_lost) ^^ 7) (migrators 2 \<lparr>vd_version = None, vd_catalog = empty_catalog\<rparr>) s \<and>
     mr_migrators s = [Ended (Inl (OtherError 1)), Ended (Inr ())] \<and>
     run_migrations \<lparr>vd_version = None, vd_catalog = empty_catalog\<rparr> = (Inr (), mr_database s)"
proof -
  let ?v = "\<lparr>vd_version = None, vd_catalog = empty_catalog\<rparr>" and ?R = "sup migrate_step connection_lost"
  let ?s = "\<lambda>db h m m'. \<lparr>mr_database = db, mr_holder = h, mr_migrators = [m, m']\<rparr>"
  have "?R (migrators 2 ?v) (?s ?v None Waiting Booting)"
    using asks [of 0 "migrators 2 ?v"] by (simp add: migrators_def set_migrator_def eval_nat_numeral)
  moreover have "?R (?s ?v None Waiting Booting) (?s ?v None Waiting Waiting)"
    using asks [of 1 "?s ?v None Waiting Booting"] by (simp add: set_migrator_def)
  moreover have "?R (?s ?v None Waiting Waiting) (?s ?v (Some 0) Locked Waiting)"
    using granted [of 0 "?s ?v None Waiting Waiting"] by (simp add: set_migrator_def)
  moreover have "?R (?s ?v (Some 0) Locked Waiting) (?s ?v None (Ended (Inl (OtherError 1))) Waiting)"
    using connection_lost.intros [of 0 "?s ?v (Some 0) Locked Waiting"] by (simp add: set_migrator_def)
  moreover have "?R (?s ?v None (Ended (Inl (OtherError 1))) Waiting) (?s ?v (Some 1) (Ended (Inl (OtherError 1))) Locked)"
    using granted [of 1 "?s ?v None (Ended (Inl (OtherError 1))) Waiting"] by (simp add: set_migrator_def)
  moreover have "?R (?s ?v (Some 1) (Ended (Inl (OtherError 1))) Locked)
      (?s ?v (Some 1) (Ended (Inl (OtherError 1))) (Migrated (Inr ()) head))"
    using upgrades [of 1 "?s ?v (Some 1) (Ended (Inl (OtherError 1))) Locked" "Inr ()" head]
    by (simp add: set_migrator_def head_reached)
  moreover have "?R (?s ?v (Some 1) (Ended (Inl (OtherError 1))) (Migrated (Inr ()) head))
      (?s head None (Ended (Inl (OtherError 1))) (Ended (Inr ())))"
    using commits [of 1 "?s ?v (Some 1) (Ended (Inl (OtherError 1))) (Migrated (Inr ()) head)" head]
    by (simp add: set_migrator_def)
  ultimately have run: "(?R ^^ 7) (migrators 2 ?v) (?s head None (Ended (Inl (OtherError 1))) (Ended (Inr ())))"
    by (rule seven_turns)
  from migrations_run_once [OF run] have "run_migrations ?v = (Inr (), head)" by (auto simp: eval_nat_numeral)
  with run show ?thesis by (intro exI [of _ "?s head None (Ended (Inl (OtherError 1))) (Ended (Inr ()))"]) simp
qed

end
