(* ===== verification/HttpWire.thy ===== *)
theory HttpWire
  imports HttpApi Protocol RateLimiter
begin

section \<open>HTTP requests and responses on the wire\<close>

text \<open>
  Between the typed requests of HttpApi and what a client sends and gets: the routes of \<open>router.py\<close> with
  their controllers, the fields a body, a path and a query have by the \<open>...Request\<close> schemas and the
  signatures of the controllers, and the members of the \<open>...Response\<close> schemas. Of the framework the model
  has what these rest on: a path template matches segment by segment, the first route that matches path
  and method is taken, a body that is no JSON is refused before the dependencies are resolved and any
  other invalid input after them. Which texts count as a UUID or an \<open>int\<close>, how a \<open>datetime\<close> is written, what
  an \<open>Authorization\<close> header holds and the answer to a path without a route are the framework's
  (\<open>http_framework\<close>); \<open>http_documented\<close> states what the client relies on.
\<close>

datatype wire_body = No_body | Plain string | Json json

record http_framework =
  hf_uuid :: "string \<Rightarrow> uuid option"
  hf_int :: "string \<Rightarrow> int option"
  hf_datetime :: "datetime \<Rightarrow> string"
  hf_bearer :: "string \<Rightarrow> string option"
  hf_unrouted :: "string \<Rightarrow> string \<Rightarrow> nat \<times> wire_body"

definition http_documented :: "http_framework \<Rightarrow> bool" where
  "http_documented hf =
     ((\<forall>u. hf_uuid hf (uuid_str u) = Some u) \<and> (\<forall>i. hf_int hf (int_str i) = Some i) \<and>
      (\<forall>token. token \<noteq> [] \<longrightarrow> hf_bearer hf (''Bearer '' @ token) = Some token))"

subsection \<open>Routes\<close>

text \<open>The controllers, by their names.\<close>

datatype endpoint =
    Ep_health | Ep_signup | Ep_login | Ep_refresh | Ep_current_user
  | Ep_create_conversation | Ep_list_conversations | Ep_rename_conversation | Ep_delete_conversation
  | Ep_restore_conversation | Ep_get_conversation_history | Ep_add_participant | Ep_list_participants
  | Ep_remove_participant

definition identity_endpoints :: "(string \<times> string \<times> endpoint) list" where
  "identity_endpoints =
     [(''POST'', ''/auth/signup'', Ep_signup),
      (''POST'', ''/auth/login'', Ep_login),
      (''POST'', ''/auth/refresh'', Ep_refresh),
      (''GET'', ''/auth/me'', Ep_current_user)]"

definition conversations_endpoints :: "(string \<times> string \<times> endpoint) list" where
  "conversations_endpoints =
     [(''POST'', ''/conversations'', Ep_create_conversation),
      (''GET'', ''/conversations'', Ep_list_conversations),
      (''PATCH'', ''/conversations/{conversation_id}'', Ep_rename_conversation),
      (''DELETE'', ''/conversations/{conversation_id}'', Ep_delete_conversation),
      (''POST'', ''/conversations/{conversation_id}/restore'', Ep_restore_conversation),
      (''GET'', ''/conversations/{conversation_id}/messages'', Ep_get_conversation_history),
      (''POST'', ''/conversations/{conversation_id}/participants'', Ep_add_participant),
      (''GET'', ''/conversations/{conversation_id}/participants'', Ep_list_participants),
      (''DELETE'', ''/conversations/{conversation_id}/participants/{user_id}'', Ep_remove_participant)]"

text \<open>In the order in which \<open>create_app\<close> includes the routers.\<close>

definition endpoints :: "(string \<times> string \<times> endpoint) list" where
  "endpoints = (''GET'', ''/health'', Ep_health) # identity_endpoints @ conversations_endpoints"

text \<open>They are the routes whose dependencies the startup check inspects.\<close>

lemma endpoints_are_the_routes:
  "map (\<lambda>(verb, path, _). ([verb], path)) endpoints =
     map (\<lambda>route. (route_methods route, route_path route)) (concat (map api_routes
       [health_router, identity_router, conversations_router, ws_router]))"
  by (simp add: endpoints_def identity_endpoints_def conversations_endpoints_def health_router_def
      identity_router_def conversations_router_def ws_router_def Let_def)

text \<open>A template and a path, cut at the slashes.\<close>

fun segments :: "string \<Rightarrow> string list" where
  "segments [] = [[]]"
| "segments (c # s) =
     (if c = CHR ''/'' then [] # segments s
      else case segments s of [] \<Rightarrow> [[c]] | t # ts \<Rightarrow> (c # t) # ts)"

definition parameter :: "string \<Rightarrow> string option" where
  "parameter t =
     (if t \<noteq> [] \<and> hd t = CHR ''{'' \<and> last t = CHR ''}'' then Some (butlast (tl t)) else None)"

fun match_segments :: "string list \<Rightarrow> string list \<Rightarrow> (string \<times> string) list option" where
  "match_segments [] [] = Some []"
| "match_segments (t # ts) (s # ss) =
     (case parameter t of
        Some name \<Rightarrow> if s = [] then None else map_option (\<lambda>ps. (name, s) # ps) (match_segments ts ss)
      | None \<Rightarrow> if t = s then match_segments ts ss else None)"
| "match_segments _ _ = None"

definition route_for :: "string \<Rightarrow> string \<Rightarrow> (string \<times> string \<times> endpoint) option" where
  "route_for verb path =
     find (\<lambda>(m, template, _). m = verb \<and> match_segments (segments template) (segments path) \<noteq> None) endpoints"

subsection \<open>Reading a request\<close>

definition text_member :: "wire_body \<Rightarrow> string \<Rightarrow> string option" where
  "text_member body k = (case body of Json v \<Rightarrow> Option.bind (field k v) read_text | _ \<Rightarrow> None)"

definition path_uuid :: "http_framework \<Rightarrow> (string \<times> string) list \<Rightarrow> string \<Rightarrow> uuid option" where
  "path_uuid hf params k = Option.bind (map_of params k) (hf_uuid hf)"

definition query_int :: "http_framework \<Rightarrow> (string \<times> string) list \<Rightarrow> string \<Rightarrow> 'a \<Rightarrow> (int \<Rightarrow> 'a) \<Rightarrow> 'a option" where
  "query_int hf query k absent f =
     (case map_of query k of None \<Rightarrow> Some absent | Some v \<Rightarrow> map_option f (hf_int hf v))"

text \<open>The parameters of each controller; \<open>None\<close> where one is missing or of another type. Their bounds are
  \<open>request_valid\<close>, which \<open>api\<close> checks.\<close>

fun read_request ::
    "http_framework \<Rightarrow> endpoint \<Rightarrow> (string \<times> string) list \<Rightarrow> (string \<times> string) list \<Rightarrow> wire_body \<Rightarrow> api_request option" where
  "read_request hf Ep_health params query body = Some Health"
| "read_request hf Ep_signup params query body =
     Option.bind (text_member body ''email'') (\<lambda>email.
     Option.bind (text_member body ''password'') (\<lambda>password. Some (Signup email password)))"
| "read_request hf Ep_login params query body =
     Option.bind (text_member body ''email'') (\<lambda>email.
     Option.bind (text_member body ''password'') (\<lambda>password. Some (Login email password)))"
| "read_request hf Ep_refresh params query body = map_option Refresh (text_member body ''refresh_token'')"
| "read_request hf Ep_current_user params query body = Some Me"
| "read_request hf Ep_create_conversation params query body = map_option CreateConversation (text_member body ''title'')"
| "read_request hf Ep_list_conversations params query body = Some ListConversations"
| "read_request hf Ep_rename_conversation params query body =
     Option.bind (path_uuid hf params ''conversation_id'') (\<lambda>conversation_id.
     map_option (RenameConversation conversation_id) (text_member body ''title''))"
| "read_request hf Ep_delete_conversation params query body =
     map_option DeleteConversation (path_uuid hf params ''conversation_id'')"
| "read_request hf Ep_restore_conversation params query body =
     map_option RestoreConversation (path_uuid hf params ''conversation_id'')"
| "read_request hf Ep_get_conversation_history params query body =
     Option.bind (path_uuid hf params ''conversation_id'') (\<lambda>conversation_id.
     Option.bind (query_int hf query ''before'' None Some) (\<lambda>before.
     map_option (GetHistory conversation_id before) (query_int hf query ''limit'' 50 id)))"
| "read_request hf Ep_add_participant params query body =
     Option.bind (path_uuid hf params ''conversation_id'') (\<lambda>conversation_id.
     map_option (AddParticipant conversation_id) (text_member body ''email''))"
| "read_request hf Ep_list_participants params query body =
     map_option ListParticipants (path_uuid hf params ''conversation_id'')"
| "read_request hf Ep_remove_participant params query body =
     Option.bind (path_uuid hf params ''conversation_id'') (\<lambda>conversation_id.
     map_option (RemoveParticipant conversation_id) (path_uuid hf params ''user_id''))"

fun takes_body :: "endpoint \<Rightarrow> bool" where
  "takes_body Ep_signup = True"
| "takes_body Ep_login = True"
| "takes_body Ep_refresh = True"
| "takes_body Ep_create_conversation = True"
| "takes_body Ep_rename_conversation = True"
| "takes_body Ep_add_participant = True"
| "takes_body _ = False"

fun takes_caller :: "endpoint \<Rightarrow> bool" where
  "takes_caller Ep_health = False"
| "takes_caller Ep_signup = False"
| "takes_caller Ep_login = False"
| "takes_caller Ep_refresh = False"
| "takes_caller _ = True"

subsection \<open>Writing a response\<close>

definition conversation_json :: "http_framework \<Rightarrow> conversation_response \<Rightarrow> json" where
  "conversation_json hf c = JObject
     [(''id'', JText (uuid_str (cv_id c))), (''owner_id'', JText (uuid_str (cv_owner_id c))), (''title'', JText (cv_title c)),
      (''created_at'', JText (hf_datetime hf (cv_created_at c))), (''updated_at'', JText (hf_datetime hf (cv_updated_at c)))]"

definition message_json :: "http_framework \<Rightarrow> message_response \<Rightarrow> json" where
  "message_json hf m = JObject
     [(''id'', JInt (mv_id m)), (''conversation_id'', JText (uuid_str (mv_conversation_id m))),
      (''sender_id'', json_of_uuid (mv_sender_id m)), (''role'', JText (mv_role m)), (''content'', JText (mv_content m)),
      (''created_at'', JText (hf_datetime hf (mv_created_at m)))]"

definition participant_json :: "http_framework \<Rightarrow> uuid \<times> datetime \<Rightarrow> json" where
  "participant_json hf = (\<lambda>(user_id, joined_at). JObject
     [(''user_id'', JText (uuid_str user_id)), (''joined_at'', JText (hf_datetime hf joined_at))])"

definition user_json :: "http_framework \<Rightarrow> uuid \<Rightarrow> string \<Rightarrow> datetime \<Rightarrow> json" where
  "user_json hf i email created_at = JObject
     [(''id'', JText (uuid_str i)), (''email'', JText email), (''created_at'', JText (hf_datetime hf created_at))]"

definition token_json :: "string \<Rightarrow> string \<Rightarrow> string \<Rightarrow> json" where
  "token_json access_token refresh_token token_type = JObject
     [(''access_token'', JText access_token), (''refresh_token'', JText refresh_token), (''token_type'', JText token_type)]"

definition current_user_json :: "uuid \<Rightarrow> json" where
  "current_user_json user_id = JObject [(''user_id'', JText (uuid_str user_id))]"

definition message_page_json :: "http_framework \<Rightarrow> message_response list \<Rightarrow> int option \<Rightarrow> bool \<Rightarrow> json" where
  "message_page_json hf items next_cursor has_more = JObject
     [(''items'', JList (map (message_json hf) items)),
      (''next_cursor'', case next_cursor of None \<Rightarrow> JNull | Some n \<Rightarrow> JInt n), (''has_more'', JBool has_more)]"

fun body_json :: "http_framework \<Rightarrow> response_body \<Rightarrow> wire_body" where
  "body_json hf NoContent = No_body"
| "body_json hf (Healthy status) = Json (JObject [(''status'', JText status)])"
| "body_json hf (UserResponse i email created_at) = Json (user_json hf i email created_at)"
| "body_json hf (TokenResponse access_token refresh_token token_type) = Json (token_json access_token refresh_token token_type)"
| "body_json hf (CurrentUserResponse user_id) = Json (current_user_json user_id)"
| "body_json hf (ConversationResponse c) = Json (conversation_json hf c)"
| "body_json hf (ConversationsResponse cs) = Json (JList (map (conversation_json hf) cs))"
| "body_json hf (MessagePageResponse items next_cursor has_more) = Json (message_page_json hf items next_cursor has_more)"
| "body_json hf (ParticipantsResponse ps) = Json (JList (map (participant_json hf) ps))"
| "body_json hf (Detail detail) = Json (JObject [(''detail'', JText detail)])"

text \<open>A server error is answered as plain text.\<close>

definition answer :: "http_framework \<Rightarrow> response \<Rightarrow> nat \<times> wire_body" where
  "answer hf r =
     (rs_status r, if rs_status r = 500 then Plain ''Internal Server Error'' else body_json hf (rs_body r))"

subsection \<open>One request\<close>

definition http ::
    "http_framework \<Rightarrow> api_env \<Rightarrow> string \<Rightarrow> string \<Rightarrow> (string \<times> string) list \<Rightarrow> string option \<Rightarrow> wire_body \<Rightarrow>
     database \<Rightarrow> (nat \<times> wire_body) \<times> database" where
  "http hf env verb path query authorization body db =
     (case route_for verb path of
        None \<Rightarrow> (hf_unrouted hf verb path, db)
      | Some (_, template, ep) \<Rightarrow>
          let params = (case match_segments (segments template) (segments path) of None \<Rightarrow> [] | Some ps \<Rightarrow> ps);
              credentials = Option.bind authorization (hf_bearer hf)
          in if takes_body ep \<and> (\<exists>s. body = Plain s) then (answer hf (error_response ValidationError), db)
             else case read_request hf ep params query body of
                 Some req \<Rightarrow> (case api env credentials req db of (r, db') \<Rightarrow> (answer hf r, db'))
               | None \<Rightarrow>
                   (case (if takes_caller ep then get_current_user env credentials else Inr (UserId 0)) of
                      Inl e \<Rightarrow> (answer hf (error_response e), db)
                    | Inr _ \<Rightarrow> (answer hf (error_response ValidationError), db)))"

subsection \<open>A client's request reaches its controller\<close>

text \<open>The request as the documentation has a client write it: method, path, query and body.\<close>

definition conversation_path :: "uuid \<Rightarrow> string \<Rightarrow> string" where
  "conversation_path cid rest = ''/conversations/'' @ uuid_str cid @ rest"

definition members :: "(string \<times> string) list \<Rightarrow> wire_body" where
  "members kvs = Json (JObject (map (\<lambda>(k, v). (k, JText v)) kvs))"

fun client_request :: "api_request \<Rightarrow> string \<times> string \<times> (string \<times> string) list \<times> wire_body" where
  "client_request Health = (''GET'', ''/health'', [], No_body)"
| "client_request (Signup email password) =
     (''POST'', ''/auth/signup'', [], members [(''email'', email), (''password'', password)])"
| "client_request (Login email password) =
     (''POST'', ''/auth/login'', [], members [(''email'', email), (''password'', password)])"
| "client_request (Refresh token) = (''POST'', ''/auth/refresh'', [], members [(''refresh_token'', token)])"
| "client_request Me = (''GET'', ''/auth/me'', [], No_body)"
| "client_request (CreateConversation title) = (''POST'', ''/conversations'', [], members [(''title'', title)])"
| "client_request ListConversations = (''GET'', ''/conversations'', [], No_body)"
| "client_request (RenameConversation cid title) =
     (''PATCH'', conversation_path cid [], [], members [(''title'', title)])"
| "client_request (DeleteConversation cid) = (''DELETE'', conversation_path cid [], [], No_body)"
| "client_request (RestoreConversation cid) = (''POST'', conversation_path cid ''/restore'', [], No_body)"
| "client_request (GetHistory cid before limit) =
     (''GET'', conversation_path cid ''/messages'',
      (case before of None \<Rightarrow> [] | Some b \<Rightarrow> [(''before'', int_str b)]) @
      (if limit = 50 then [] else [(''limit'', int_str limit)]), No_body)"
| "client_request (AddParticipant cid email) =
     (''POST'', conversation_path cid ''/participants'', [], members [(''email'', email)])"
| "client_request (ListParticipants cid) = (''GET'', conversation_path cid ''/participants'', [], No_body)"
| "client_request (RemoveParticipant cid u) =
     (''DELETE'', conversation_path cid (''/participants/'' @ uuid_str u), [], No_body)"

lemma segments_plain: "CHR ''/'' \<notin> set s \<Longrightarrow> segments s = [s]"
  by (induction s) auto

lemma segments_append: "segments (s @ CHR ''/'' # t) = segments s @ segments t"
proof (induction s)
  case (Cons c s)
  have "segments s \<noteq> []" by (cases s) (auto split: list.splits)
  with Cons show ?case by (auto split: list.splits)
qed simp

lemma uuid_segment: "CHR ''/'' \<notin> set (uuid_str u)" "uuid_str u \<noteq> []"
proof -
  show "CHR ''/'' \<notin> set (uuid_str u)" using uuid_str_chars [of "CHR ''/''" u] by (auto simp: hex_char_def code_def)
  show "uuid_str u \<noteq> []" by (simp add: uuid_str_def Let_def)
qed

lemma conversation_segments:
  "segments (conversation_path cid []) = [[], ''conversations'', uuid_str cid]"
  "segments (conversation_path cid (CHR ''/'' # rest)) = [[], ''conversations'', uuid_str cid] @ segments rest"
  by (simp_all add: conversation_path_def segments_plain segments_append uuid_segment)

text \<open>The table with its templates cut at the slashes.\<close>

definition cut_endpoints :: "(string \<times> string list \<times> endpoint) list" where
  "cut_endpoints = map (\<lambda>(m, template, ep). (m, segments template, ep)) endpoints"

lemma cut_endpoints_eq:
  "cut_endpoints =
     (let one = [[], ''conversations'', ''{conversation_id}''] in
      [(''GET'', [[], ''health''], Ep_health), (''POST'', [[], ''auth'', ''signup''], Ep_signup),
       (''POST'', [[], ''auth'', ''login''], Ep_login), (''POST'', [[], ''auth'', ''refresh''], Ep_refresh),
       (''GET'', [[], ''auth'', ''me''], Ep_current_user), (''POST'', [[], ''conversations''], Ep_create_conversation),
       (''GET'', [[], ''conversations''], Ep_list_conversations), (''PATCH'', one, Ep_rename_conversation),
       (''DELETE'', one, Ep_delete_conversation), (''POST'', one @ [''restore''], Ep_restore_conversation),
       (''GET'', one @ [''messages''], Ep_get_conversation_history), (''POST'', one @ [''participants''], Ep_add_participant),
       (''GET'', one @ [''participants''], Ep_list_participants),
       (''DELETE'', one @ [''participants'', ''{user_id}''], Ep_remove_participant)])"
  by code_simp

definition cut_route :: "string \<Rightarrow> string list \<Rightarrow> (string \<times> string list \<times> endpoint) option" where
  "cut_route verb ss = find (\<lambda>(m, ts, _). m = verb \<and> match_segments ts ss \<noteq> None) cut_endpoints"

lemma route_for_cut: "cut_route verb (segments path) = map_option (\<lambda>(m, t, ep). (m, segments t, ep)) (route_for verb path)"
proof -
  have "find (\<lambda>(m, ts, _). m = verb \<and> match_segments ts ss \<noteq> None) (map (\<lambda>(m, t, ep). (m, segments t, ep)) xs) =
    map_option (\<lambda>(m, t, ep). (m, segments t, ep))
      (find (\<lambda>(m, t, _). m = verb \<and> match_segments (segments t) ss \<noteq> None) xs)"
    for ss and xs :: "(string \<times> string \<times> endpoint) list"
    by (induction xs) auto
  then show ?thesis by (simp add: cut_route_def cut_endpoints_def route_for_def)
qed

lemma parameters: "parameter ''{conversation_id}'' = Some ''conversation_id''" "parameter ''{user_id}'' = Some ''user_id''"
  "parameter [] = None" "parameter ''conversations'' = None" "parameter ''auth'' = None" "parameter ''health'' = None"
  "parameter ''signup'' = None" "parameter ''login'' = None" "parameter ''refresh'' = None" "parameter ''me'' = None"
  "parameter ''restore'' = None" "parameter ''messages'' = None" "parameter ''participants'' = None"
  by code_simp+

lemma cut_routes:
  "cut_route ''GET'' [[], ''health''] = Some (''GET'', [[], ''health''], Ep_health)"
  "cut_route ''POST'' [[], ''auth'', ''signup''] = Some (''POST'', [[], ''auth'', ''signup''], Ep_signup)"
  "cut_route ''POST'' [[], ''auth'', ''login''] = Some (''POST'', [[], ''auth'', ''login''], Ep_login)"
  "cut_route ''POST'' [[], ''auth'', ''refresh''] = Some (''POST'', [[], ''auth'', ''refresh''], Ep_refresh)"
  "cut_route ''GET'' [[], ''auth'', ''me''] = Some (''GET'', [[], ''auth'', ''me''], Ep_current_user)"
  "cut_route ''POST'' [[], ''conversations''] = Some (''POST'', [[], ''conversations''], Ep_create_conversation)"
  "cut_route ''GET'' [[], ''conversations''] = Some (''GET'', [[], ''conversations''], Ep_list_conversations)"
  by (simp_all add: cut_route_def cut_endpoints_eq Let_def parameters)

lemma cut_conversation_routes:
  assumes "u \<noteq> []" and "v \<noteq> []"
  shows
    "cut_route ''PATCH'' [[], ''conversations'', u] =
      Some (''PATCH'', [[], ''conversations'', ''{conversation_id}''], Ep_rename_conversation)"
    "cut_route ''DELETE'' [[], ''conversations'', u] =
      Some (''DELETE'', [[], ''conversations'', ''{conversation_id}''], Ep_delete_conversation)"
    "cut_route ''POST'' [[], ''conversations'', u, ''restore''] =
      Some (''POST'', [[], ''conversations'', ''{conversation_id}'', ''restore''], Ep_restore_conversation)"
    "cut_route ''GET'' [[], ''conversations'', u, ''messages''] =
      Some (''GET'', [[], ''conversations'', ''{conversation_id}'', ''messages''], Ep_get_conversation_history)"
    "cut_route ''POST'' [[], ''conversations'', u, ''participants''] =
      Some (''POST'', [[], ''conversations'', ''{conversation_id}'', ''participants''], Ep_add_participant)"
    "cut_route ''GET'' [[], ''conversations'', u, ''participants''] =
      Some (''GET'', [[], ''conversations'', ''{conversation_id}'', ''participants''], Ep_list_participants)"
    "cut_route ''DELETE'' [[], ''conversations'', u, ''participants'', v] =
      Some (''DELETE'', [[], ''conversations'', ''{conversation_id}'', ''participants'', ''{user_id}''], Ep_remove_participant)"
  using assms by (simp_all add: cut_route_def cut_endpoints_eq Let_def parameters)

lemma request_read:
  assumes "http_documented hf" and "client_request req = (verb, path, query, body)"
  shows "\<exists>m template ep ps. route_for verb path = Some (m, template, ep) \<and>
    match_segments (segments template) (segments path) = Some ps \<and> read_request hf ep ps query body = Some req \<and>
    \<not> (takes_body ep \<and> (\<exists>s. body = Plain s))"
proof -
  have "\<exists>m ts ep ps. cut_route verb (segments path) = Some (m, ts, ep) \<and> match_segments ts (segments path) = Some ps \<and>
    read_request hf ep ps query body = Some req \<and> \<not> (takes_body ep \<and> (\<exists>s. body = Plain s))"
    using assms
    by (cases req)
      (auto simp: cut_routes cut_conversation_routes [OF uuid_segment(2) uuid_segment(2)] conversation_segments uuid_segment segments_plain segments_append
        parameters http_documented_def members_def text_member_def path_uuid_def query_int_def split: option.split)
  then show ?thesis unfolding route_for_cut by auto
qed

text \<open>The \<open>Authorization\<close> header of a client that holds a token\<close>

definition bearer :: "string option \<Rightarrow> string option" where
  "bearer credentials = map_option (\<lambda>token. ''Bearer '' @ token) credentials"

lemma http_api:
  assumes "http_documented hf" and "client_request req = (verb, path, query, body)" and "credentials \<noteq> Some []"
  shows "http hf env verb path query (bearer credentials) body db =
    (case api env credentials req db of (r, db') \<Rightarrow> (answer hf r, db'))"
proof -
  have "Option.bind (bearer credentials) (hf_bearer hf) = credentials"
    using assms(1,3) by (cases credentials) (auto simp: bearer_def http_documented_def)
  with request_read [OF assms(1,2)] show ?thesis by (auto simp: http_def Let_def)
qed

end
