(* ===== verification/Demo.thy ===== *)
theory Demo
  imports Protocol RateLimiter
begin

section \<open>The demonstration client\<close>

text \<open>
  \<open>scripts/demo.py\<close>: the script that walks the whole flow against a running deployment and records each
  of its claims as PASS, FAIL or WARN. It is modelled over an arbitrary \<open>deployment\<close>: the operations by
  which the script touches the world outside, over a state \<open>'w\<close>, answer anything at all. What is printed
  is left out, and so is the text of a failure.

  The reader task of a socket appends the frames that come in while the script waits; \<open>dp_arrivals\<close> says
  what they were during one wait, and whether the connection ended. A value of JSON is compared as the
  value it is; an answer whose identifiers are no strings, which the code would format into a URL, or whose
  sequence numbers are no integers, which the code would sort, is taken to raise.
\<close>

subsection \<open>Values the script reads out of JSON\<close>

datatype demo_exn = DemoFailure | Interrupted | CannotConnect | OtherException

type_synonym frame = "(string \<times> json) list"

text \<open>\<open>value[key]\<close>, \<open>for x in value\<close>, \<open>bool(value)\<close>, \<open>isinstance(value, int)\<close>\<close>

fun subscript :: "json \<Rightarrow> string \<Rightarrow> demo_exn + json" where
  "subscript (JObject members) k = (case map_of members k of None \<Rightarrow> Inl OtherException | Some v \<Rightarrow> Inr v)"
| "subscript _ k = Inl OtherException"

fun iterate :: "json \<Rightarrow> demo_exn + json list" where
  "iterate (JList xs) = Inr xs"
| "iterate (JObject members) = Inr (map (\<lambda>m. JText (fst m)) members)"
| "iterate (JText s) = Inr (map (\<lambda>c. JText [c]) s)"
| "iterate _ = Inl OtherException"

fun truthy :: "json \<Rightarrow> bool" where
  "truthy JNull = False"
| "truthy (JBool b) = b"
| "truthy (JInt i) = (i \<noteq> 0)"
| "truthy (JFloat t) = (t \<noteq> ''0.0'' \<and> t \<noteq> ''-0.0'')"
| "truthy (JText s) = (s \<noteq> [])"
| "truthy (JList xs) = (xs \<noteq> [])"
| "truthy (JObject members) = (members \<noteq> [])"

fun is_int :: "json \<Rightarrow> bool" where
  "is_int (JInt _) = True"
| "is_int (JBool _) = True"
| "is_int _ = False"

fun as_text :: "json \<Rightarrow> demo_exn + string" where
  "as_text (JText s) = Inr s"
| "as_text _ = Inl OtherException"

fun as_int :: "json \<Rightarrow> demo_exn + int" where
  "as_int (JInt i) = Inr i"
| "as_int (JBool b) = Inr (if b then 1 else 0)"
| "as_int _ = Inl OtherException"

text \<open>\<open>value[key1][key2]\<close>\<close>

definition subscript2 :: "frame \<Rightarrow> string \<Rightarrow> string \<Rightarrow> demo_exn + json" where
  "subscript2 frame k k' = bindr (subscript (JObject frame) k) (\<lambda>v. subscript v k')"

definition type_is :: "string \<Rightarrow> frame \<Rightarrow> bool" where
  "type_is ty frame = (map_of frame ''type'' = Some (JText ty))"

definition of_type :: "frame list \<Rightarrow> string \<Rightarrow> frame list" where
  "of_type frames ty = filter (type_is ty) frames"

fun role_among :: "frame list \<Rightarrow> string \<Rightarrow> demo_exn + frame option" where
  "role_among [] role = Inr None"
| "role_among (frame # rest) role =
     (case map_of frame ''payload'' of
        None \<Rightarrow> role_among rest role
      | Some (JObject payload) \<Rightarrow>
          if map_of payload ''role'' = Some (JText role) then Inr (Some frame) else role_among rest role
      | Some _ \<Rightarrow> Inl OtherException)"

definition role_of :: "frame list \<Rightarrow> string \<Rightarrow> demo_exn + frame option" where
  "role_of frames role = role_among (of_type frames ''message.new'') role"

text \<open>\<open>frame is not None and frame["payload"]["content"] == content\<close>, and, where asked,
  \<open>and frame["payload"]["sender_id"] == sender\<close>\<close>

fun says :: "string \<Rightarrow> json option \<Rightarrow> frame option \<Rightarrow> demo_exn + bool" where
  "says content sender None = Inr False"
| "says content sender (Some frame) =
     bindr (subscript2 frame ''payload'' ''content'') (\<lambda>c.
       if c \<noteq> JText content then Inr False
       else case sender of None \<Rightarrow> Inr True
            | Some x \<Rightarrow> bindr (subscript2 frame ''payload'' ''sender_id'') (\<lambda>s. Inr (s = x)))"

text \<open>The text after \<open>://\<close>, \<open>ws_url\<close> and \<open>short\<close> (of an address without brackets)\<close>

fun after_scheme :: "string \<Rightarrow> string option" where
  "after_scheme [] = None"
| "after_scheme (c # s) = (if take 3 (c # s) = ''://'' then Some (drop 3 (c # s)) else after_scheme s)"

definition ws_url :: "string \<Rightarrow> string \<Rightarrow> demo_exn + string" where
  "ws_url base conversation_id =
     (let scheme = (if take 5 base = ''https'' then ''wss'' else ''ws'')
      in case after_scheme base of
           None \<Rightarrow> Inl OtherException
         | Some rest \<Rightarrow> Inr (scheme @ ''://'' @ rev (dropWhile (\<lambda>c. c = CHR ''/'') (rev rest)) @
                             ''/ws/conversations/'' @ conversation_id))"

definition short :: "string \<Rightarrow> string" where
  "short url =
     (case after_scheme url of
        None \<Rightarrow> url
      | Some rest \<Rightarrow>
          let netloc = takeWhile (\<lambda>c. c \<noteq> CHR ''/'') rest; path = drop (length netloc) rest;
              port = rev (takeWhile (\<lambda>c. c \<noteq> CHR '':'') (rev netloc))
          in (if CHR '':'' \<in> set netloc \<and> port \<noteq> [] then '':'' @ port else netloc) @ path)"

subsection \<open>The state of the script and the world outside\<close>

datatype status = PASS | FAIL | WARN

record check_entry =
  ck_step :: string
  ck_claim :: string
  ck_status :: status

record client_socket =
  cs_url :: string
  cs_close_code :: "int option"
  cs_frames :: "frame list"
  cs_cursor :: nat
  cs_conn :: "nat option"
  cs_reader_done :: "bool option"

datatype who = Alice | Bob

record demo_user =
  du_label :: string
  du_email :: string
  du_token :: json
  du_user_id :: json

record 'w demo =
  dm_checks :: "check_entry list"
  dm_current_step :: string
  dm_sockets :: "client_socket list"
  dm_user :: "who \<Rightarrow> demo_user"
  dm_conversation_id :: string
  dm_world :: 'w

datatype content = Empty | NotJson | Content json

text \<open>\<open>client.request\<close> (method, URL, bearer token, body), one poll of a health endpoint (the status, none
  for an \<open>HTTPError\<close>, and whether the deadline has passed), \<open>connect\<close>, sending a frame, what came in
  during a wait (frames, whether the reader has ended, the close code), closing, \<open>docker compose\<close>.\<close>

record 'w deployment =
  dp_request :: "string \<Rightarrow> string \<Rightarrow> json option \<Rightarrow> json option \<Rightarrow> (demo_exn, int \<times> content, 'w) proc"
  dp_health :: "string \<Rightarrow> (demo_exn, int option \<times> bool, 'w) proc"
  dp_connect :: "string \<Rightarrow> (demo_exn, nat, 'w) proc"
  dp_send :: "nat \<Rightarrow> json \<Rightarrow> (demo_exn, unit, 'w) proc"
  dp_arrivals :: "nat \<Rightarrow> (demo_exn, frame list \<times> bool \<times> int option, 'w) proc"
  dp_close :: "nat \<Rightarrow> (demo_exn, unit, 'w) proc"
  dp_docker :: "(demo_exn, bool, 'w) proc"
  dp_compose :: "string list \<Rightarrow> (demo_exn, int, 'w) proc"

type_synonym ('a, 'w) demo_op = "(demo_exn, 'a, 'w demo) proc"

definition world :: "(demo_exn, 'a, 'w) proc \<Rightarrow> ('a, 'w) demo_op" where
  "world m s = (case m (dm_world s) of (r, w) \<Rightarrow> (r, s\<lparr>dm_world := w\<rparr>))"

text \<open>Reading and writing the attributes of the script's objects\<close>

definition get_state :: "('w demo, 'w) demo_op" where
  "get_state s = (Inr s, s)"

definition set_state :: "('w demo \<Rightarrow> 'w demo) \<Rightarrow> (unit, 'w) demo_op" where
  "set_state f s = (Inr (), f s)"

subsection \<open>Checks\<close>

definition demo_step :: "string \<Rightarrow> string \<Rightarrow> (unit, 'w) demo_op" where
  "demo_step number title = set_state (\<lambda>s. s\<lparr>dm_current_step := number @ '' '' @ title\<rparr>)"

definition check :: "string \<Rightarrow> bool \<Rightarrow> bool \<Rightarrow> (unit, 'w) demo_op" where
  "check claim ok hard s =
     (let status = (if ok then PASS else if hard then FAIL else WARN);
          s = s\<lparr>dm_checks := dm_checks s @ [\<lparr>ck_step = dm_current_step s, ck_claim = claim, ck_status = status\<rparr>]\<rparr>
      in if \<not> ok \<and> hard then (Inl DemoFailure, s) else (Inr (), s))"

text \<open>\<open>check(claim, value)\<close> where reading the value may raise\<close>

definition check_that :: "string \<Rightarrow> demo_exn + bool \<Rightarrow> (unit, 'w) demo_op" where
  "check_that claim ok = bindp (lift ok) (\<lambda>b. check claim b True)"

subsection \<open>Api.call\<close>

definition api_call ::
    "'w deployment \<Rightarrow> string \<Rightarrow> string \<Rightarrow> int \<Rightarrow> json option \<Rightarrow> json option \<Rightarrow> (json, 'w) demo_op" where
  "api_call dp verb url expect token body =
     bindp (world (dp_request dp verb url
              (case token of Some t \<Rightarrow> if truthy t then Some t else None | None \<Rightarrow> None) body))
       (\<lambda>(status, content).
          if status \<noteq> expect then throw DemoFailure
          else if status = 204 then ret JNull
          else case content of Empty \<Rightarrow> ret JNull | NotJson \<Rightarrow> throw OtherException | Content v \<Rightarrow> ret v)"

subsection \<open>Socket\<close>

definition socket_of :: "nat \<Rightarrow> 'w demo \<Rightarrow> client_socket" where
  "socket_of i s = dm_sockets s ! i"

definition with_socket :: "nat \<Rightarrow> (client_socket \<Rightarrow> client_socket) \<Rightarrow> 'w demo \<Rightarrow> 'w demo" where
  "with_socket i f s = s\<lparr>dm_sockets := (dm_sockets s)[i := f (dm_sockets s ! i)]\<rparr>"

definition new_socket :: "string \<Rightarrow> (nat, 'w) demo_op" where
  "new_socket url s =
     (Inr (length (dm_sockets s)),
      s\<lparr>dm_sockets := dm_sockets s @ [\<lparr>cs_url = url, cs_close_code = None, cs_frames = [], cs_cursor = 0,
          cs_conn = None, cs_reader_done = None\<rparr>]\<rparr>)"

definition socket_closed :: "client_socket \<Rightarrow> bool" where
  "socket_closed c = (cs_reader_done c = Some True)"

definition socket_open :: "'w deployment \<Rightarrow> nat \<Rightarrow> (unit, 'w) demo_op" where
  "socket_open dp i =
     bindp get_state (\<lambda>s.
     bindp (try_except (world (dp_connect dp (cs_url (socket_of i s))))
              (\<lambda>e. if e = CannotConnect then throw DemoFailure else throw e)) (\<lambda>conn.
     set_state (with_socket i (\<lambda>c. c\<lparr>cs_conn := Some conn, cs_reader_done := Some False\<rparr>))))"

text \<open>The turns of the reader task while the script waits (\<open>_read_loop\<close>).\<close>

definition reader_runs :: "'w deployment \<Rightarrow> nat \<Rightarrow> (unit, 'w) demo_op" where
  "reader_runs dp i =
     bindp get_state (\<lambda>s.
       case cs_conn (socket_of i s) of
         None \<Rightarrow> ret ()
       | Some conn \<Rightarrow>
           if socket_closed (socket_of i s) then ret ()
           else bindp (world (dp_arrivals dp conn)) (\<lambda>(frames, ended, code).
             set_state (with_socket i (\<lambda>c. c\<lparr>cs_frames := cs_frames c @ frames, cs_reader_done := Some ended,
               cs_close_code := (if ended then code else cs_close_code c)\<rparr>))))"

definition wait_until :: "'w deployment \<Rightarrow> nat \<Rightarrow> (client_socket \<Rightarrow> bool) \<Rightarrow> (unit, 'w) demo_op" where
  "wait_until dp i ready =
     bindp get_state (\<lambda>s.
       if ready (socket_of i s) \<or> socket_closed (socket_of i s) then ret () else reader_runs dp i)"

definition pending_frames :: "client_socket \<Rightarrow> frame list" where
  "pending_frames c = drop (cs_cursor c) (cs_frames c)"

definition take_pending :: "nat \<Rightarrow> (frame list, 'w) demo_op" where
  "take_pending i =
     bindp get_state (\<lambda>s.
     thenp (set_state (with_socket i (\<lambda>c. c\<lparr>cs_cursor := length (cs_frames c)\<rparr>)))
       (ret (pending_frames (socket_of i s))))"

definition socket_send :: "'w deployment \<Rightarrow> nat \<Rightarrow> frame \<Rightarrow> (unit, 'w) demo_op" where
  "socket_send dp i frame =
     bindp get_state (\<lambda>s.
       case cs_conn (socket_of i s) of
         None \<Rightarrow> throw DemoFailure
       | Some conn \<Rightarrow>
           if socket_closed (socket_of i s) then throw DemoFailure
           else world (dp_send dp conn (JObject frame)))"

definition collect :: "'w deployment \<Rightarrow> nat \<Rightarrow> nat \<Rightarrow> (frame list, 'w) demo_op" where
  "collect dp i n =
     thenp (wait_until dp i (\<lambda>c. n \<le> length (pending_frames c)))
     (bindp get_state (\<lambda>s.
       if length (pending_frames (socket_of i s)) < n then throw DemoFailure
       else thenp (reader_runs dp i) (take_pending i)))"

definition index_of :: "string \<Rightarrow> client_socket \<Rightarrow> nat option" where
  "index_of ty c = find (\<lambda>index. type_is ty (cs_frames c ! index)) [cs_cursor c..<length (cs_frames c)]"

definition next_of_type :: "'w deployment \<Rightarrow> nat \<Rightarrow> string \<Rightarrow> (frame, 'w) demo_op" where
  "next_of_type dp i ty =
     thenp (wait_until dp i (\<lambda>c. index_of ty c \<noteq> None))
     (bindp get_state (\<lambda>s.
       case index_of ty (socket_of i s) of
         None \<Rightarrow> throw DemoFailure
       | Some index \<Rightarrow>
           thenp (set_state (with_socket i (\<lambda>c. c\<lparr>cs_cursor := index + 1\<rparr>)))
             (ret (cs_frames (socket_of i s) ! index))))"

definition quiet :: "'w deployment \<Rightarrow> nat \<Rightarrow> (frame list, 'w) demo_op" where
  "quiet dp i = thenp (reader_runs dp i) (take_pending i)"

text \<open>\<open>token[:12]\<close>, for the transcript, raises on what cannot be sliced.\<close>

fun sliceable :: "json \<Rightarrow> bool" where
  "sliceable (JText _) = True"
| "sliceable (JList _) = True"
| "sliceable _ = False"

definition socket_authenticate :: "'w deployment \<Rightarrow> nat \<Rightarrow> json \<Rightarrow> int option \<Rightarrow> (unit, 'w) demo_op" where
  "socket_authenticate dp i token last_seen_seq =
     (let payload = [(''token'', token)] @
            (case last_seen_seq of None \<Rightarrow> [] | Some n \<Rightarrow> [(''last_seen_seq'', JInt n)])
      in if \<not> sliceable token then throw OtherException
         else thenp (socket_send dp i [(''type'', JText ''auth''), (''payload'', JObject payload)])
                (thenp (next_of_type dp i ''auth.ok'') (ret ())))"

definition socket_close :: "'w deployment \<Rightarrow> nat \<Rightarrow> (unit, 'w) demo_op" where
  "socket_close dp i =
     bindp get_state (\<lambda>s.
     thenp (case cs_conn (socket_of i s) of None \<Rightarrow> ret () | Some conn \<Rightarrow> world (dp_close dp conn))
     (thenp (reader_runs dp i)
       (set_state (with_socket i (\<lambda>c. if cs_reader_done c = None then c else c\<lparr>cs_reader_done := Some True\<rparr>)))))"

subsection \<open>Bringing the stack up\<close>

definition compose_up :: "'w deployment \<Rightarrow> (unit, 'w) demo_op" where
  "compose_up dp =
     bindp (world (dp_docker dp)) (\<lambda>installed.
       if \<not> installed then throw DemoFailure
       else bindp (world (dp_compose dp [''up'', ''-d'', ''--build''])) (\<lambda>code.
         if code \<noteq> 0 then throw DemoFailure else ret ()))"

text \<open>Each failing poll is followed by a sleep of two seconds, so no more than \<open>budget / 2\<close> of them, rounded up,
  begin before the deadline; \<open>polls\<close> is what is left of them.\<close>

function await_health :: "'w deployment \<Rightarrow> string list \<Rightarrow> nat \<Rightarrow> (unit, 'w) demo_op" where
  "await_health dp [] polls = ret ()"
| "await_health dp (base # bases) polls =
     bindp (world (dp_health dp (base @ ''/health''))) (\<lambda>(status, expired).
       if status = Some 200 then thenp (check (short base @ '' is healthy'') True True) (await_health dp bases polls)
       else if expired \<or> polls = 0 then throw DemoFailure
       else await_health dp (base # bases) (polls - 1))"
  by pat_completeness auto
termination by (relation "measure (\<lambda>(dp, bases, polls). length bases + polls)") auto

declare await_health.simps(2) [simp del]

subsection \<open>The steps\<close>

definition user_of :: "who \<Rightarrow> 'w demo \<Rightarrow> demo_user" where
  "user_of who s = dm_user s who"

definition with_user :: "who \<Rightarrow> (demo_user \<Rightarrow> demo_user) \<Rightarrow> 'w demo \<Rightarrow> 'w demo" where
  "with_user who f s = s\<lparr>dm_user := (dm_user s)(who := f (dm_user s who))\<rparr>"

definition DEMO_CREDENTIAL :: string where
  "DEMO_CREDENTIAL = ''dizzchat-demo-123''"

definition credentials_of :: "demo_user \<Rightarrow> json" where
  "credentials_of u = JObject [(''email'', JText (du_email u)), (''password'', JText DEMO_CREDENTIAL)]"

definition sign_up_user :: "'w deployment \<Rightarrow> string \<Rightarrow> who \<Rightarrow> (unit, 'w) demo_op" where
  "sign_up_user dp base_a who =
     bindp get_state (\<lambda>s. let user = user_of who s in
     bindp (api_call dp ''POST'' (base_a @ ''/auth/signup'') 201 None (Some (credentials_of user))) (\<lambda>created.
     bindp (lift (subscript created ''id'')) (\<lambda>user_id.
     thenp (set_state (with_user who (\<lambda>u. u\<lparr>du_user_id := user_id\<rparr>)))
     (bindp (api_call dp ''POST'' (base_a @ ''/auth/login'') 200 None (Some (credentials_of user))) (\<lambda>tokens.
     bindp (lift (subscript tokens ''access_token'')) (\<lambda>token.
     thenp (set_state (with_user who (\<lambda>u. u\<lparr>du_token := token\<rparr>)))
       (check_that (du_label user @ '' signed up and holds an access token'')
         (if truthy token then bindr (subscript tokens ''token_type'') (\<lambda>t. Inr (t = JText ''bearer''))
          else Inr False))))))))"

definition sign_up :: "'w deployment \<Rightarrow> string \<Rightarrow> (unit, 'w) demo_op" where
  "sign_up dp base_a =
     thenp (demo_step ''1'' ''Sign up and log in two users'')
     (thenp (for_each [Alice, Bob] (sign_up_user dp base_a))
     (bindp get_state (\<lambda>s.
      bindp (api_call dp ''GET'' (base_a @ ''/auth/me'') 200 (Some (du_token (user_of Alice s))) None) (\<lambda>me.
      check_that ''the access token authenticates a protected request''
        (bindr (subscript me ''user_id'') (\<lambda>i. Inr (i = du_user_id (user_of Alice s))))))))"

text \<open>\<open>{participant["user_id"] for participant in participants} == {a, b}\<close>; lists and objects cannot be
  members of a set.\<close>

fun hashable :: "json \<Rightarrow> bool" where
  "hashable (JList _) = False"
| "hashable (JObject _) = False"
| "hashable _ = True"

definition same_set :: "json list \<Rightarrow> json list \<Rightarrow> demo_exn + bool" where
  "same_set xs ys = (if list_all hashable xs \<and> list_all hashable ys then Inr (set xs = set ys) else Inl OtherException)"

definition each_item :: "json \<Rightarrow> string \<Rightarrow> demo_exn + json list" where
  "each_item v k = bindr (iterate v) (map_result (\<lambda>x. subscript x k))"

definition demo_create_conversation :: "'w deployment \<Rightarrow> string \<Rightarrow> (unit, 'w) demo_op" where
  "demo_create_conversation dp base_a =
     thenp (demo_step ''2'' ''Create a conversation and invite the second user'')
     (bindp get_state (\<lambda>s. let alice = user_of Alice s; bob = user_of Bob s; token = Some (du_token alice) in
      bindp (api_call dp ''POST'' (base_a @ ''/conversations'') 201 token (Some (JObject [(''title'', JText ''demo'')])))
        (\<lambda>conversation.
      bindp (lift (bindr (subscript conversation ''id'') as_text)) (\<lambda>conversation_id.
      thenp (set_state (\<lambda>s. s\<lparr>dm_conversation_id := conversation_id\<rparr>))
      (thenp (check_that ''alice owns a new conversation''
         (bindr (subscript conversation ''owner_id'') (\<lambda>i. Inr (i = du_user_id alice))))
      (let url = base_a @ ''/conversations/'' @ conversation_id @ ''/participants'' in
       thenp (api_call dp ''POST'' url 204 token (Some (JObject [(''email'', JText (du_email bob))])))
       (bindp (api_call dp ''GET'' url 200 token None) (\<lambda>participants.
        check_that ''both users are participants''
          (bindr (each_item participants ''user_id'') (\<lambda>ids.
             same_set ids [du_user_id alice, du_user_id bob]))))))))))"

definition open_sockets :: "'w deployment \<Rightarrow> string \<Rightarrow> string \<Rightarrow> (nat \<times> nat, 'w) demo_op" where
  "open_sockets dp base_a base_b =
     thenp (demo_step ''3'' ''Open one socket per user, on different replicas'')
     (bindp get_state (\<lambda>s.
      bindp (lift (ws_url base_a (dm_conversation_id s))) (\<lambda>url_a.
      bindp (new_socket url_a) (\<lambda>alice.
      bindp (lift (ws_url base_b (dm_conversation_id s))) (\<lambda>url_b.
      bindp (new_socket url_b) (\<lambda>bob.
      thenp (socket_open dp alice)
      (thenp (socket_open dp bob)
      (thenp (socket_authenticate dp bob (du_token (user_of Bob s)) None)
      (thenp (socket_authenticate dp alice (du_token (user_of Alice s)) None)
      (thenp (check ''both sockets authenticated (auth.ok on each)'' True True)
        (ret (alice, bob))))))))))))"

definition send_frame_of :: "string \<Rightarrow> uuid option \<Rightarrow> frame" where
  "send_frame_of content client_message_id =
     [(''type'', JText ''message.send''),
      (''payload'', JObject ([(''content'', JText content)] @
        (case client_message_id of None \<Rightarrow> [] | Some k \<Rightarrow> [(''client_message_id'', JText (uuid_str k))])))]"

text \<open>\<open>gather\<close> runs the two waits side by side; the arrivals being arbitrary, here they run one after the other.\<close>

definition demo_send_message ::
    "'w deployment \<Rightarrow> nat \<Rightarrow> nat \<Rightarrow> string \<Rightarrow> uuid \<Rightarrow> (json, 'w) demo_op" where
  "demo_send_message dp alice_socket bob_socket content client_message_id =
     thenp (demo_step ''4'' ''Send a message, see the broadcast and the assistant reply'')
     (thenp (socket_send dp alice_socket (send_frame_of content (Some client_message_id)))
     (bindp (collect dp alice_socket 3) (\<lambda>alice_frames.
      bindp (collect dp bob_socket 2) (\<lambda>bob_frames.
      bindp get_state (\<lambda>s.
      let acks = of_type alice_frames ''message.ack''; alice_id = du_user_id (user_of Alice s);
          reply = ''You said: '' @ content in
      thenp (check ''alice got exactly one message.ack'' (length acks = 1) True)
      (let ack = hd acks in
       bindp (lift (subscript2 ack ''payload'' ''client_message_id'')) (\<lambda>acked.
       bindp (lift (subscript2 ack ''payload'' ''id'')) (\<lambda>seq.
       thenp (check ''the ack echoes the client_message_id and carries the assigned seq''
                (acked = JText (uuid_str client_message_id) \<and> is_int seq) True)
       (thenp (check_that ''alice was broadcast her own message''
                (bindr (role_of alice_frames ''user'') (says content (Some alice_id))))
       (thenp (check_that ''the assistant replied''
                (bindr (role_of alice_frames ''assistant'') (says reply (Some JNull))))
       (thenp (demo_step ''5'' ''Confirm the message crossed replicas via Redis'')
       (bindp (lift (role_of bob_frames ''user'')) (\<lambda>bob_user.
       bindp (lift (role_of bob_frames ''assistant'')) (\<lambda>bob_assistant.
       thenp (check_that ''bob received alice's message on the OTHER replica'' (says content (Some alice_id) bob_user))
       (thenp (check_that ''bob received the assistant reply too'' (says reply None bob_assistant))
       (thenp (check ''bob got no message.ack - an ack goes only to the sender''
                (of_type bob_frames ''message.ack'' = []) True)
         (ret seq)))))))))))))))))"

text \<open>\<open>value == first_seq\<close>, where the first sequence number is an \<open>int\<close>\<close>

definition equals_int :: "json \<Rightarrow> json \<Rightarrow> bool" where
  "equals_int v first_seq = (is_int v \<and> is_int first_seq \<and> as_int v = as_int first_seq)"

definition resend :: "'w deployment \<Rightarrow> nat \<Rightarrow> nat \<Rightarrow> string \<Rightarrow> uuid \<Rightarrow> json \<Rightarrow> (unit, 'w) demo_op" where
  "resend dp alice_socket bob_socket content client_message_id first_seq =
     thenp (demo_step ''6'' ''Re-send the identical frame'')
     (thenp (socket_send dp alice_socket (send_frame_of content (Some client_message_id)))
     (bindp (collect dp alice_socket 1) (\<lambda>alice_frames.
      let acks = of_type alice_frames ''message.ack'' in
      thenp (check_that ''the retry is acked with the ORIGINAL seq''
               (if length acks = 1
                then bindr (subscript2 (hd acks) ''payload'' ''id'') (\<lambda>i. Inr (equals_int i first_seq)) else Inr False))
      (thenp (check ''the retry was not re-broadcast to alice'' (of_type alice_frames ''message.new'' = []) True)
      (bindp (quiet dp bob_socket) (\<lambda>stragglers.
       check ''bob's socket stayed silent through the retry'' (stragglers = []) True))))))"

text \<open>\<open>any(content.startswith(...) for content in contents)\<close> and the \<open>join\<close> of the contents for the transcript:
  both raise on what is no text.\<close>

definition said_among :: "json list \<Rightarrow> demo_exn + bool" where
  "said_among contents =
     bindr (map_result as_text contents) (\<lambda>ts.
       Inr (length ts = 2 \<and> list_ex (\<lambda>t. take 10 t = ''You said: '') ts))"

definition reconnect_and_replay :: "'w deployment \<Rightarrow> string \<Rightarrow> string \<Rightarrow> nat \<Rightarrow> (unit, 'w) demo_op" where
  "reconnect_and_replay dp base_a base_b alice_socket =
     thenp (demo_step ''7'' ''Reconnect on the other replica and read the history back'')
     (thenp (socket_close dp alice_socket)
     (bindp get_state (\<lambda>s. let token = du_token (user_of Alice s) in
      bindp (lift (ws_url base_b (dm_conversation_id s))) (\<lambda>url.
      bindp (new_socket url) (\<lambda>replay_socket.
      thenp (socket_open dp replay_socket)
      (thenp (socket_authenticate dp replay_socket token (Some 0))
      (bindp (collect dp replay_socket 2) (\<lambda>replayed.
       bindp (lift (map_result (\<lambda>f. subscript2 f ''payload'' ''id'') (of_type replayed ''message.new''))) (\<lambda>replay_ids.
       thenp (check ''the socket replayed the conversation after auth.ok'' (length replay_ids = 2) True)
       (thenp (check_that ''the replay is ordered by seq'' (bindr (map_result as_int replay_ids) (\<lambda>ns. Inr (sorted ns))))
       (thenp (socket_close dp replay_socket)
       (bindp (api_call dp ''GET'' (base_a @ ''/conversations/'' @ dm_conversation_id s @ ''/messages'') 200 (Some token) None)
         (\<lambda>page.
        bindp (lift (bindr (subscript page ''items'') (\<lambda>items. each_item items ''id''))) (\<lambda>rest_ids.
        thenp (check_that ''the REST history on the first replica agrees with the replay''
                 (bindr (same_set rest_ids replay_ids) (\<lambda>same.
                    if \<not> same then Inr False
                    else bindr (subscript page ''has_more'') (\<lambda>more. Inr (more = JBool False)))))
        (bindp (lift (bindr (subscript page ''items'') (\<lambda>items. each_item items ''content''))) (\<lambda>contents.
         check_that ''exactly one user message and one assistant reply were stored'' (said_among contents)
        ))))))))))))))))"

definition FLOOD_ATTEMPTS :: nat where
  "FLOOD_ATTEMPTS = 60"

definition refusals :: "nat list \<Rightarrow> (frame list, 'w) demo_op" where
  "refusals sockets =
     bindp get_state (\<lambda>s. ret (concat (map (\<lambda>i.
       filter (\<lambda>f. map_of f ''error'' = Some (JText ''rate limit exceeded''))
         (of_type (pending_frames (socket_of i s)) ''error'')) sockets)))"

fun flood :: "'w deployment \<Rightarrow> nat list \<Rightarrow> nat list \<Rightarrow> (nat option, 'w) demo_op" where
  "flood dp sockets [] = ret None"
| "flood dp sockets (attempt # attempts) =
     thenp (socket_send dp (sockets ! ((attempt - 1) mod 2)) (send_frame_of (''flood '' @ int_str (int attempt)) None))
     (thenp (for_each sockets (reader_runs dp))
     (bindp (refusals sockets) (\<lambda>refused.
       if refused \<noteq> [] then ret (Some attempt) else flood dp sockets attempts)))"

definition probe :: "'w deployment \<Rightarrow> nat list \<Rightarrow> json \<Rightarrow> (unit, 'w) demo_op" where
  "probe dp sockets token =
     thenp (for_each sockets (\<lambda>i. thenp (socket_open dp i) (socket_authenticate dp i token None)))
     (thenp (flood dp sockets [1..<FLOOD_ATTEMPTS + 1])
     (bindp (refusals sockets) (\<lambda>refused.
      thenp (check ''the shared Redis quota refused a frame, with the sends split across both replicas''
               (refused \<noteq> []) False)
      (bindp get_state (\<lambda>s.
       check ''the socket stayed open after being rate limited''
         (refused \<noteq> [] \<and> \<not> list_ex (\<lambda>i. socket_closed (socket_of i s)) sockets) False)))))"

definition demo_rate_limit :: "'w deployment \<Rightarrow> string \<Rightarrow> string \<Rightarrow> (unit, 'w) demo_op" where
  "demo_rate_limit dp base_a base_b =
     thenp (demo_step ''8'' ''Trip the per-user rate limit across both replicas'')
     (bindp get_state (\<lambda>s. let token = du_token (user_of Alice s) in
      bindp (api_call dp ''POST'' (base_a @ ''/conversations'') 201 (Some token)
               (Some (JObject [(''title'', JText ''rate-limit probe'')]))) (\<lambda>conversation.
      bindp (lift (bindr (subscript conversation ''id'') as_text)) (\<lambda>probe_id.
      bindp (lift (ws_url base_a probe_id)) (\<lambda>url_a.
      bindp (new_socket url_a) (\<lambda>a.
      bindp (lift (ws_url base_b probe_id)) (\<lambda>url_b.
      bindp (new_socket url_b) (\<lambda>b.
      try_finally (probe dp [a, b] token) (for_each [a, b] (socket_close dp))))))))))"

subsection \<open>run, summarise, main\<close>

record demo_args =
  da_base_a :: string
  da_base_b :: string
  da_no_up :: bool
  da_down_after :: bool

text \<open>How many polls the health budget admits: 15 seconds for a running stack, 180 for one just started.\<close>

definition health_polls :: "bool \<Rightarrow> nat" where
  "health_polls running = (if running then (15 + 1) div 2 else 180 div 2)"

definition demo_run :: "demo_args \<Rightarrow> 'w deployment \<Rightarrow> uuid \<Rightarrow> (unit, 'w) demo_op" where
  "demo_run args dp client_message_id =
     (let a = da_base_a args; b = da_base_b args; content = ''hello from the demo'' in
      thenp (demo_step ''0'' ''Bring the stack up and wait for both replicas'')
      (thenp (if da_no_up args then ret () else compose_up dp)
      (thenp (await_health dp [a, b] (health_polls (da_no_up args)))
      (thenp (sign_up dp a)
      (thenp (demo_create_conversation dp a)
      (bindp (open_sockets dp a b) (\<lambda>(alice_socket, bob_socket).
      thenp (try_finally
        (bindp (demo_send_message dp alice_socket bob_socket content client_message_id) (\<lambda>seq.
         thenp (resend dp alice_socket bob_socket content client_message_id seq)
           (reconnect_and_replay dp a b alice_socket)))
        (thenp (socket_close dp bob_socket) (socket_close dp alice_socket)))
       (demo_rate_limit dp a b))))))))"

definition summarise :: "check_entry list \<Rightarrow> int" where
  "summarise checks = (if list_ex (\<lambda>c. ck_status c = FAIL) checks then 1 else 0)"

text \<open>\<open>main\<close>: the exit code, or the exception that leaves it. \<open>summarise() or exit_code\<close>\<close>

definition demo_main :: "demo_args \<Rightarrow> 'w deployment \<Rightarrow> uuid \<Rightarrow> (int, 'w) demo_op" where
  "demo_main args dp client_message_id =
     bindp (try_finally
        (try_except (thenp (demo_run args dp client_message_id) (ret 0))
           (\<lambda>e. case e of DemoFailure \<Rightarrow> ret 1 | Interrupted \<Rightarrow> ret 130 | _ \<Rightarrow> throw e))
        (if da_down_after args then thenp (world (dp_compose dp [''down'', ''-v''])) (ret ()) else ret ()))
       (\<lambda>exit_code. bindp get_state (\<lambda>s.
          ret (if summarise (dm_checks s) \<noteq> 0 then summarise (dm_checks s) else exit_code)))"

text \<open>\<open>Demo.__init__\<close>: nothing is checked yet, and the addresses are new in every run.\<close>

definition fresh_demo :: "uuid \<Rightarrow> 'w \<Rightarrow> 'w demo" where
  "fresh_demo u w =
     (let suffix = take 8 (uuid_hex u);
          user = \<lambda>label. \<lparr>du_label = label, du_email = label @ ''-'' @ suffix @ ''@example.com'',
            du_token = JText [], du_user_id = JText []\<rparr>
      in \<lparr>dm_checks = [], dm_current_step = ''preflight'', dm_sockets = [],
          dm_user = (\<lambda>who. case who of Alice \<Rightarrow> user ''alice'' | Bob \<Rightarrow> user ''bob''), dm_conversation_id = [],
          dm_world = w\<rparr>)"

subsection \<open>What the exit code says\<close>

text \<open>An operation only adds checks, and one that returns has added none that failed.\<close>

definition orderly :: "('a, 'w) demo_op \<Rightarrow> bool" where
  "orderly m =
     (\<forall>s r s'. m s = (r, s') \<longrightarrow>
        (\<exists>new. dm_checks s' = dm_checks s @ new \<and> (isl r \<or> (\<forall>c \<in> set new. ck_status c \<noteq> FAIL))))"

named_theorems orderly_rules \<open>operations that only add checks, and no failed one when they return\<close>

lemma orderlyI:
  "(\<And>s r s'. m s = (r, s') \<Longrightarrow>
     \<exists>new. dm_checks s' = dm_checks s @ new \<and> (isl r \<or> (\<forall>c \<in> set new. ck_status c \<noteq> FAIL))) \<Longrightarrow> orderly m"
  by (simp add: orderly_def)

lemma orderlyE:
  assumes "orderly m" and "m s = (r, s')"
  obtains new where "dm_checks s' = dm_checks s @ new" and "isl r \<or> (\<forall>c \<in> set new. ck_status c \<noteq> FAIL)"
  using assms unfolding orderly_def by blast

lemma orderly_pure [orderly_rules]:
  "orderly (ret x)" "orderly (throw e)" "orderly (lift y)" "orderly get_state" "orderly (world m)"
  by (auto simp: orderly_def ret_def throw_def lift_def get_state_def world_def split: prod.splits)

lemma orderly_set_state [orderly_rules]: "(\<And>s. dm_checks (f s) = dm_checks s) \<Longrightarrow> orderly (set_state f)"
  by (simp add: orderly_def set_state_def)

lemma orderly_check [orderly_rules]: "orderly (check claim ok hard)"
  by (auto simp: orderly_def check_def Let_def)

lemma orderly_bindp [orderly_rules]:
  assumes "orderly m" and "\<And>x. orderly (f x)"
  shows "orderly (bindp m f)"
proof (rule orderlyI)
  fix s r s'
  assume run: "bindp m f s = (r, s')"
  obtain q s1 where q: "m s = (q, s1)" by (cases "m s")
  then obtain new where new: "dm_checks s1 = dm_checks s @ new" "isl q \<or> (\<forall>c \<in> set new. ck_status c \<noteq> FAIL)"
    using orderlyE [OF assms(1)] by blast
  show "\<exists>new. dm_checks s' = dm_checks s @ new \<and> (isl r \<or> (\<forall>c \<in> set new. ck_status c \<noteq> FAIL))"
  proof (cases q)
    case (Inl e)
    with run q new show ?thesis by (auto simp: bindp_def)
  next
    case (Inr x)
    with run q have "f x s1 = (r, s')" by (simp add: bindp_def)
    then obtain more where "dm_checks s' = dm_checks s1 @ more" "isl r \<or> (\<forall>c \<in> set more. ck_status c \<noteq> FAIL)"
      using orderlyE [OF assms(2)] by blast
    with new Inr show ?thesis by (intro exI [of _ "new @ more"]) auto
  qed
qed

lemma orderly_thenp [orderly_rules]: "orderly m \<Longrightarrow> orderly k \<Longrightarrow> orderly (thenp m k)"
  by (simp add: thenp_def orderly_bindp)

lemma orderly_finally [orderly_rules]:
  assumes "orderly m" and "orderly f"
  shows "orderly (try_finally m f)"
proof (rule orderlyI)
  fix s r s'
  assume run: "try_finally m f s = (r, s')"
  obtain q s1 where q: "m s = (q, s1)" by (cases "m s")
  obtain y s2 where y: "f s1 = (y, s2)" by (cases "f s1")
  obtain new where new: "dm_checks s1 = dm_checks s @ new" "isl q \<or> (\<forall>c \<in> set new. ck_status c \<noteq> FAIL)"
    using orderlyE [OF assms(1) q] by blast
  obtain more where more: "dm_checks s2 = dm_checks s1 @ more" "isl y \<or> (\<forall>c \<in> set more. ck_status c \<noteq> FAIL)"
    using orderlyE [OF assms(2) y] by blast
  from run q y have "s' = s2 \<and> (if isl y then isl r else r = q)" by (auto simp: try_finally_def split: sum.splits)
  with new more show "\<exists>new. dm_checks s' = dm_checks s @ new \<and> (isl r \<or> (\<forall>c \<in> set new. ck_status c \<noteq> FAIL))"
    by (intro exI [of _ "new @ more"]) (auto split: if_splits)
qed

lemma orderly_for_each [orderly_rules]: "(\<And>x. orderly (f x)) \<Longrightarrow> orderly (for_each xs f)"
  by (induction xs) (auto intro: orderly_rules)

text \<open>An exception turned into another.\<close>

lemma orderly_reraise [orderly_rules]:
  assumes "orderly m" and "\<And>e s. isl (fst (h e s)) \<and> dm_checks (snd (h e s)) = dm_checks s"
  shows "orderly (try_except m h)"
proof (rule orderlyI)
  fix s r s'
  assume run: "try_except m h s = (r, s')"
  obtain q s1 where q: "m s = (q, s1)" by (cases "m s")
  then obtain new where "dm_checks s1 = dm_checks s @ new" "isl q \<or> (\<forall>c \<in> set new. ck_status c \<noteq> FAIL)"
    using orderlyE [OF assms(1)] by blast
  with run q assms(2) show "\<exists>new. dm_checks s' = dm_checks s @ new \<and> (isl r \<or> (\<forall>c \<in> set new. ck_status c \<noteq> FAIL))"
    by (cases q; auto simp: try_except_def) (metis fst_conv snd_conv)+
qed

lemma orderly_cases [orderly_rules]:
  "(b \<Longrightarrow> orderly m) \<Longrightarrow> (\<not> b \<Longrightarrow> orderly k) \<Longrightarrow> orderly (if b then m else k)"
  "(\<And>x y. orderly (f x y)) \<Longrightarrow> orderly (case p of (x, y) \<Rightarrow> f x y)"
  "orderly m \<Longrightarrow> (\<And>x. orderly (g x)) \<Longrightarrow> orderly (case q of None \<Rightarrow> m | Some x \<Rightarrow> g x)"
  "orderly m \<Longrightarrow> orderly k \<Longrightarrow> (\<And>v. orderly (h v)) \<Longrightarrow> orderly (case c of Empty \<Rightarrow> m | NotJson \<Rightarrow> k | Content v \<Rightarrow> h v)"
  by (auto split: prod.split option.split content.split)

lemma kept_checks [simp]:
  "dm_checks (with_socket i g s) = dm_checks s" "dm_checks (with_user who h s) = dm_checks s"
  by (simp_all add: with_socket_def with_user_def)

lemma orderly_new_socket [orderly_rules]: "orderly (new_socket url)"
  by (simp add: orderly_def new_socket_def)

lemma orderly_steps [orderly_rules]: "orderly (demo_step n t)" "orderly (check_that claim ok)"
  unfolding demo_step_def check_that_def by (intro orderly_rules; simp)+

lemma orderly_reader [orderly_rules]: "orderly (reader_runs dp i)" "orderly (take_pending i)" "orderly (wait_until dp i ready)"
  unfolding reader_runs_def take_pending_def wait_until_def by (intro orderly_rules; simp)+

lemma orderly_socket [orderly_rules]:
  "orderly (socket_open dp i)" "orderly (socket_send dp i frame)" "orderly (collect dp i n)" "orderly (quiet dp i)"
  "orderly (next_of_type dp i ty)" "orderly (socket_close dp i)"
  unfolding socket_open_def socket_send_def collect_def quiet_def next_of_type_def socket_close_def
  by (intro orderly_rules; simp add: throw_def)+

lemma orderly_authenticate [orderly_rules]: "orderly (socket_authenticate dp i token n)"
  unfolding socket_authenticate_def Let_def by (intro orderly_rules)

lemma orderly_call [orderly_rules]: "orderly (api_call dp verb url expect token body)"
  unfolding api_call_def by (intro orderly_rules)

lemma orderly_stack [orderly_rules]: "orderly (compose_up dp)" "orderly (await_health dp bases polls)"
proof -
  show "orderly (compose_up dp)" unfolding compose_up_def by (intro orderly_rules)
  show "orderly (await_health dp bases polls)"
  proof (induction dp bases polls rule: await_health.induct)
    case (2 dp base bases polls)
    have healthy: "orderly (thenp (check (short base @ '' is healthy'') True True) (await_health dp bases polls))"
      if "status = Some 200" for status :: "int option"
      using 2(1) [OF that] by (intro orderly_thenp orderly_check)
    have "orderly (if status = Some 200 then thenp (check (short base @ '' is healthy'') True True) (await_health dp bases polls)
        else if expired \<or> polls = 0 then throw DemoFailure else await_health dp (base # bases) (polls - 1))" for status :: "int option" and expired
      by (intro orderly_cases(1) healthy orderly_pure(2) 2(2); assumption)
    then show ?case
      by (subst await_health.simps(2)) (intro orderly_bindp orderly_pure orderly_cases(2))
  qed (simp add: orderly_pure)
qed

lemma orderly_sign_up [orderly_rules]: "orderly (sign_up dp a)"
  unfolding sign_up_def sign_up_user_def Let_def by (intro orderly_rules; simp)

lemma orderly_create [orderly_rules]: "orderly (demo_create_conversation dp a)"
  unfolding demo_create_conversation_def Let_def by (intro orderly_rules; simp)

lemma orderly_open_sockets [orderly_rules]: "orderly (open_sockets dp a b)"
  unfolding open_sockets_def by (intro orderly_rules)

lemma orderly_messages [orderly_rules]:
  "orderly (demo_send_message dp i j text u)" "orderly (resend dp i j text u seq)" "orderly (reconnect_and_replay dp a b i)"
  unfolding demo_send_message_def resend_def reconnect_and_replay_def Let_def by (intro orderly_rules)+

lemma orderly_refusals [orderly_rules]: "orderly (refusals sockets)"
  unfolding refusals_def by (intro orderly_rules)

lemma orderly_flood [orderly_rules]: "orderly (flood dp sockets attempts)"
proof (induction attempts)
  case (Cons a attempts)
  then show ?case unfolding flood.simps by (intro orderly_rules)
qed (simp add: orderly_pure)

lemma orderly_rate_limit [orderly_rules]: "orderly (demo_rate_limit dp a b)"
  unfolding demo_rate_limit_def probe_def Let_def by (intro orderly_rules)

lemma run_orderly: "orderly (demo_run args dp u)"
  unfolding demo_run_def Let_def by (intro orderly_rules)

text \<open>The process exits with 0 exactly when the whole run returned, and then no check has failed; it exits
  with another code when a step could not be completed or the user interrupted it.\<close>

lemma summarise_zero: "summarise checks = 0 \<longleftrightarrow> (\<forall>c \<in> set checks. ck_status c \<noteq> FAIL)"
  by (auto simp: summarise_def list_ex_iff)

lemma down_after_frame:
  assumes "(if b then thenp (world m) (ret ()) else ret ()) s = (Inr y, s')"
  shows "dm_checks s' = dm_checks s"
  using assms by (auto simp: thenp_def bindp_def ret_def world_def split: if_splits sum.splits prod.splits)

lemma fresh_demo_checks [simp]: "dm_checks (fresh_demo v w) = []"
  by (simp add: fresh_demo_def Let_def)

lemma demo_exit_code:
  assumes "demo_main args dp u (fresh_demo v w) = (Inr exit_status, s')"
  shows "exit_status = 0 \<longleftrightarrow> \<not> isl (fst (demo_run args dp u (fresh_demo v w)))"
    and "exit_status = 0 \<Longrightarrow> c \<in> set (dm_checks s') \<Longrightarrow> ck_status c \<noteq> FAIL"
proof -
  let ?s = "fresh_demo v w"
  obtain r s1 where r: "demo_run args dp u ?s = (r, s1)" by (cases "demo_run args dp u ?s")
  obtain new where "dm_checks s1 = dm_checks ?s @ new" "isl r \<or> (\<forall>c \<in> set new. ck_status c \<noteq> FAIL)"
    using orderlyE [OF run_orderly r] by blast
  then have new: "isl r \<or> (\<forall>c \<in> set (dm_checks s1). ck_status c \<noteq> FAIL)" by simp
  have caught: "try_except (thenp (demo_run args dp u) (ret 0))
      (\<lambda>e. case e of DemoFailure \<Rightarrow> ret 1 | Interrupted \<Rightarrow> ret 130 | _ \<Rightarrow> throw e) ?s =
    (case r of Inr _ \<Rightarrow> Inr 0 | Inl DemoFailure \<Rightarrow> Inr 1 | Inl Interrupted \<Rightarrow> Inr 130 | Inl e \<Rightarrow> Inl e, s1)"
    using r by (auto simp: try_except_def thenp_def bindp_def ret_def throw_def split: sum.split demo_exn.split)
  from assms obtain y where
    down: "(if da_down_after args then thenp (world (dp_compose dp [''down'', ''-v''])) (ret ()) else ret ()) s1 = (Inr y, s')"
    and exit: "\<exists>k. (case r of Inr _ \<Rightarrow> Inr 0 | Inl DemoFailure \<Rightarrow> Inr 1 | Inl Interrupted \<Rightarrow> Inr 130 | Inl e \<Rightarrow> Inl e) = Inr k \<and>
      exit_status = (if summarise (dm_checks s') \<noteq> 0 then summarise (dm_checks s') else k)"
    unfolding demo_main_def
    by (auto simp: bindp_def [of "try_finally _ _"] try_finally_def caught bindp_def [of get_state] get_state_def ret_def
        split: sum.splits prod.splits)
  note same = down_after_frame [OF down]
  show "exit_status = 0 \<longleftrightarrow> \<not> isl (fst (demo_run args dp u ?s))"
    using exit new r same by (cases r) (auto simp: summarise_zero split: demo_exn.splits if_splits)
  show "ck_status c \<noteq> FAIL" if "exit_status = 0" "c \<in> set (dm_checks s')"
    using exit that by (auto simp: summarise_zero split: if_splits)
qed

end
