(* ===== verification/EndToEnd.thy ===== *)
theory EndToEnd
  imports HttpWire Demo RequestFrames Samples
begin

section \<open>The demonstration against the modelled API\<close>

text \<open>
  Two parts of the repository that share nothing but the documented protocol, put together: the client of
  \<open>scripts/demo.py\<close> (Demo) and the application (HttpWire over HttpApi). \<open>api_deployment\<close> answers what the
  script asks over HTTP with what the model of the application answers; its state is the database and the
  number of requests served so far. The sockets are not part of it.
\<close>

subsection \<open>The deployment\<close>

record server =
  sv_database :: database
  sv_requests :: nat

text \<open>What request number \<open>n\<close> sees of the process is \<open>envs n\<close>. A request to another address than \<open>base\<close> fails.\<close>

fun token_text :: "json option \<Rightarrow> string option" where
  "token_text (Some (JText token)) = Some token"
| "token_text _ = None"

definition wire_of_json :: "json option \<Rightarrow> wire_body" where
  "wire_of_json body = (case body of None \<Rightarrow> No_body | Some v \<Rightarrow> Json v)"

fun content_of_wire :: "wire_body \<Rightarrow> content" where
  "content_of_wire No_body = Empty"
| "content_of_wire (Plain s) = NotJson"
| "content_of_wire (Json v) = Content v"

definition serve ::
    "http_framework \<Rightarrow> (nat \<Rightarrow> api_env) \<Rightarrow> string \<Rightarrow> string \<Rightarrow> string \<Rightarrow> string option \<Rightarrow> wire_body \<Rightarrow>
     (demo_exn, int \<times> content, server) proc" where
  "serve hf envs base verb url credentials body sv =
     (if \<not> prefix base url then (Inl OtherException, sv)
      else case http hf (envs (sv_requests sv)) verb (drop (length base) url) [] (bearer credentials) body (sv_database sv) of
        ((status, content), db) \<Rightarrow>
          (Inr (int status, content_of_wire content), \<lparr>sv_database = db, sv_requests = sv_requests sv + 1\<rparr>))"

definition api_deployment :: "http_framework \<Rightarrow> (nat \<Rightarrow> api_env) \<Rightarrow> string \<Rightarrow> server deployment" where
  "api_deployment hf envs base =
     \<lparr>dp_request = (\<lambda>verb url token body. serve hf envs base verb url (token_text token) (wire_of_json body)),
      dp_health = (\<lambda>url. bindp (serve hf envs base ''GET'' url None No_body) (\<lambda>(status, _). ret (Some status, False))),
      dp_connect = (\<lambda>_. throw CannotConnect), dp_send = (\<lambda>_ _. throw OtherException),
      dp_arrivals = (\<lambda>_. throw OtherException), dp_close = (\<lambda>_. ret ()), dp_docker = ret True, dp_compose = (\<lambda>_. ret 0)\<rparr>"

text \<open>A call of the script that the API answers with the expected status.\<close>

lemma call_served:
  assumes "http_documented hf" and "client_request req = (verb, path, [], wire_of_json body)"
    and "token = None \<or> (\<exists>t. token = Some (JText t) \<and> t \<noteq> [])"
    and "api (envs (sv_requests (dm_world s))) (token_text token) req (sv_database (dm_world s)) = (r, db)"
    and "int (rs_status r) = expect" and "rs_status r \<noteq> 500"
  shows "api_call (api_deployment hf envs base) verb (base @ path) expect token body s =
    (if expect = 204 then Inr JNull
     else case content_of_wire (body_json hf (rs_body r)) of Empty \<Rightarrow> Inr JNull | NotJson \<Rightarrow> Inl OtherException | Content v \<Rightarrow> Inr v,
     s\<lparr>dm_world := \<lparr>sv_database = db, sv_requests = sv_requests (dm_world s) + 1\<rparr>\<rparr>)"
proof -
  have token: "(case token of Some t \<Rightarrow> if truthy t then Some t else None | None \<Rightarrow> None) = token" "token_text token \<noteq> Some []"
    using assms(3) by auto
  have "serve hf envs base verb (base @ path) (token_text token) (wire_of_json body) (dm_world s) =
      (Inr (expect, content_of_wire (body_json hf (rs_body r))), \<lparr>sv_database = db, sv_requests = sv_requests (dm_world s) + 1\<rparr>)"
    using http_api [OF assms(1,2) token(2)] assms(4-6) by (simp add: serve_def answer_def)
  then show ?thesis
    using assms(5) by (simp add: api_call_def api_deployment_def token(1) world_def proc_simps split: content.split)
qed

subsection \<open>Signing up\<close>

lemmas script_simps = proc_simps get_state_def set_state_def demo_step_def check_def check_that_def Let_def

text \<open>Two requests that see the same application, and a password it can hash.\<close>

definition same_application :: "api_env \<Rightarrow> api_env \<Rightarrow> bool" where
  "same_application env env' = (ae_settings env' = ae_settings env \<and> ae_backend env' = ae_backend env)"

text \<open>When the access token of a user who logs in at request \<open>env\<close> is valid at \<open>env'\<close>: \<open>env'\<close> is not in an earlier
  second, by the clock, and the token has not expired.\<close>

definition token_lives :: "api_env \<Rightarrow> api_env \<Rightarrow> bool" where
  "token_lives env env' =
     (0 \<le> ae_now env' \<and> token_valid_at env (ae_now env'))"

lemma address_length:
  assumes "mk_email v = Inr a"
  shows "3 \<le> length v"
proof -
  have "email_shape (lower (strip v))" using assms by (auto simp: mk_email_eq split: if_splits)
  then have "3 \<le> length (strip v)" unfolding email_shape_def by (auto simp: Suc_le_eq dest!: arg_cong [of _ _ length])
  with length_strip [of v] show ?thesis by simp
qed

lemma token_accepted:
  assumes "jwt_of env" and "same_application env env'" and "token_lives env env'"
  shows "get_current_user env' (Some (access_token_of env u)) = Inr u"
  using current_user_issued [OF assms(1), of env'] assms(2,3) by (simp add: same_application_def token_lives_def)

lemma accepted_all_along:
  assumes "jwt_of (envs 0)" and "\<forall>n. same_application (envs 0) (envs n)"
    and "token_lives (envs m) (envs n)"
  shows "get_current_user (envs n) (Some (access_token_of (envs m) u)) = Inr u"
proof (rule token_accepted [OF _ _ assms(3)])
  show "jwt_of (envs m)" "same_application (envs m) (envs n)"
    using assms(1) spec [OF assms(2), of m] spec [OF assms(2), of n] by (simp_all add: same_application_def jwt_of_def)
qed

lemma sign_up_user_served:
  assumes "http_documented hf" and "dm_world s = \<lparr>sv_database = db, sv_requests = n\<rparr>" and "db_wf db"
    and "argon2_documented (ae_backend (envs n))" and "same_application (envs n) (envs (n + 1))"
    and "argon2_hash (ae_backend (envs n)) DEMO_CREDENTIAL = Inr h"
    and "du_email (dm_user s who) = e" and "mk_email e = Inr a" and "length e \<le> 320"
    and "db_registered db a = None" and "db_free_id db (UserId (ae_uuid (envs n)))"
    and "db_token db (uuid_hex (ae_uuid (envs (n + 1)))) = None"
    and "access_token_of (envs (n + 1)) (UserId (ae_uuid (envs n))) \<noteq> []"
  shows "\<exists>s' db'. sign_up_user (api_deployment hf envs base) base who s = (Inr (), s') \<and>
    dm_world s' = \<lparr>sv_database = db', sv_requests = n + 2\<rparr> \<and>
    map ck_status (dm_checks s') = map ck_status (dm_checks s) @ [PASS] \<and>
    (\<forall>w. dm_user s' w = (if w = who then (dm_user s who)
         \<lparr>du_user_id := JText (uuid_str (ae_uuid (envs n))),
          du_token := JText (access_token_of (envs (n + 1)) (UserId (ae_uuid (envs n))))\<rparr> else dm_user s w)) \<and>
    db_wf db' \<and>
    db_registered db' = (db_registered db)(a \<mapsto> \<lparr>u_id = UserId (ae_uuid (envs n)), u_email = a,
      u_password_hash = PasswordHash h, u_created_at = ae_now (envs n)\<rparr>) \<and>
    (\<forall>i. db_free_id db i \<and> i \<noteq> UserId (ae_uuid (envs n)) \<longrightarrow> db_free_id db' i) \<and>
    (\<forall>j. db_token db j = None \<and> j \<noteq> uuid_hex (ae_uuid (envs (n + 1))) \<longrightarrow> db_token db' j = None) \<and>
    db_conversation db' = db_conversation db"
proof -
  let ?u = "UserId (ae_uuid (envs n))" and ?dp = "api_deployment hf envs base"
  have e: "e \<noteq> []" using address_length [OF assms(8)] by auto
  then have valid: "request_valid (Signup e DEMO_CREDENTIAL)" "request_valid (Login e DEMO_CREDENTIAL)"
    using assms(9) by (simp_all add: text_field_def DEMO_CREDENTIAL_def Suc_le_eq)
  obtain r1 db1 where up: "api (envs n) None (Signup e DEMO_CREDENTIAL) db = (r1, db1)"
    "r1 = \<lparr>rs_status = 201, rs_www_authenticate = False, rs_body = UserResponse (ae_uuid (envs n)) (email_value a) (ae_now (envs n))\<rparr>"
    "db_registered db1 = (db_registered db)(a \<mapsto> \<lparr>u_id = ?u, u_email = a, u_password_hash = PasswordHash h, u_created_at = ae_now (envs n)\<rparr>)"
    using signup_created [OF assms(3) valid(1) assms(8,4,6,10,11)] by blast
  have wf1: "db_wf db1" using api_wf [OF assms(3), of "envs n" None "Signup e DEMO_CREDENTIAL"] up(1) by simp
  note frame1 = signup_frame [OF assms(3) up(1)] signup_ids [OF assms(3) up(1)]
  have "db_token db1 = db_token db" using frame1(1) by (simp add: fun_eq_iff db_token_def)
  then obtain r2 db2 where "in": "api (envs (n + 1)) None (Login e DEMO_CREDENTIAL) db1 = (r2, db2)"
    "r2 = \<lparr>rs_status = 200, rs_www_authenticate = False, rs_body = TokenResponse (access_token_of (envs (n + 1)) ?u)
       (refresh_token_of (envs (n + 1))) ''bearer''\<rparr>"
    "db_token db2 = (db_token db)(uuid_hex (ae_uuid (envs (n + 1))) \<mapsto> stored_token_of (envs (n + 1)) ?u)"
    using login_ok [OF wf1 valid(2) assms(8), of _ h "envs (n + 1)" None] up(3) assms(4-6,12)
    by (auto simp: same_application_def)
  note frame2 = login_frame [OF wf1 "in"(1)]
  have wf2: "db_wf db2" using api_wf [OF wf1, of "envs (n + 1)" None "Login e DEMO_CREDENTIAL"] "in"(1) by simp
  have creds: "wire_of_json (Some (credentials_of (dm_user s who))) = members [(''email'', e), (''password'', DEMO_CREDENTIAL)]"
    using assms(7) by (simp add: wire_of_json_def credentials_of_def members_def)
  have call1: "api_call ?dp ''POST'' (base @ ''/auth/signup'') 201 None (Some (credentials_of (dm_user s who))) s =
      (Inr (JObject [(''id'', JText (uuid_str (ae_uuid (envs n)))), (''email'', JText (email_value a)),
         (''created_at'', JText (hf_datetime hf (ae_now (envs n))))]), s\<lparr>dm_world := \<lparr>sv_database = db1, sv_requests = n + 1\<rparr>\<rparr>)"
    by (subst call_served [OF assms(1), of "Signup e DEMO_CREDENTIAL"]) (use creds up(1,2) assms(2) in \<open>auto simp: user_json_def\<close>)
  define s1 where "s1 = with_user who (\<lambda>u. u\<lparr>du_user_id := JText (uuid_str (ae_uuid (envs n)))\<rparr>)
      (s\<lparr>dm_world := \<lparr>sv_database = db1, sv_requests = n + 1\<rparr>\<rparr>)"
  have call2: "api_call ?dp ''POST'' (base @ ''/auth/login'') 200 None (Some (credentials_of (dm_user s who))) s1 =
      (Inr (JObject [(''access_token'', JText (access_token_of (envs (n + 1)) ?u)),
         (''refresh_token'', JText (refresh_token_of (envs (n + 1)))), (''token_type'', JText ''bearer'')]),
       s1\<lparr>dm_world := \<lparr>sv_database = db2, sv_requests = n + 2\<rparr>\<rparr>)"
    by (subst call_served [OF assms(1), of "Login e DEMO_CREDENTIAL"])
      (use creds "in"(1,2) in \<open>auto simp: s1_def with_user_def token_json_def\<close>)
  have "sign_up_user ?dp base who s =
      (Inr (), s\<lparr>dm_user := (dm_user s)(who := (dm_user s who)
           \<lparr>du_user_id := JText (uuid_str (ae_uuid (envs n))), du_token := JText (access_token_of (envs (n + 1)) ?u)\<rparr>),
         dm_checks := dm_checks s @ [\<lparr>ck_step = dm_current_step s,
           ck_claim = du_label (dm_user s who) @ '' signed up and holds an access token'', ck_status = PASS\<rparr>],
         dm_world := \<lparr>sv_database = db2, sv_requests = n + 2\<rparr>\<rparr>)"
    using call1 call2 [unfolded s1_def] assms(13)
    by (simp add: sign_up_user_def script_simps user_of_def with_user_def)
  moreover have "db_free_id db2 i" if "db_free_id db i" "i \<noteq> ?u" for i
    using that frame1(2) frame2 by (cases i) (auto simp: db_free_id_def)
  ultimately show ?thesis
    using wf2 up(3) "in"(3) frame1(1) frame2 same_users [of db2 db1] same_conversations [of db1 db] same_conversations [of db2 db1]
    by - (rule exI, rule exI [of _ db2], rule conjI, assumption, simp)
qed

lemma signed_up:
  assumes "http_documented hf" and "dm_world s = \<lparr>sv_database = db, sv_requests = n\<rparr>" and "db_wf db"
    and "envs n = up" and "envs (n + 1) = log" and "argon2_documented (ae_backend up)" and "same_application up log"
    and "argon2_hash (ae_backend up) DEMO_CREDENTIAL = Inr h"
    and "mk_email (du_email (dm_user s who)) = Inr a" and "length (du_email (dm_user s who)) \<le> 320"
    and "db_registered db a = None" and "db_free_id db (UserId (ae_uuid up))"
    and "db_token db (uuid_hex (ae_uuid log)) = None" and "access_token_of log (UserId (ae_uuid up)) \<noteq> []"
  obtains s' db' where "sign_up_user (api_deployment hf envs base) base who s = (Inr (), s')"
    "dm_world s' = \<lparr>sv_database = db', sv_requests = n + 2\<rparr>"
    "map ck_status (dm_checks s') = map ck_status (dm_checks s) @ [PASS]"
    "du_user_id (dm_user s' who) = JText (uuid_str (ae_uuid up))"
    "du_token (dm_user s' who) = JText (access_token_of log (UserId (ae_uuid up)))"
    "du_email (dm_user s' who) = du_email (dm_user s who)" "\<And>w. w \<noteq> who \<Longrightarrow> dm_user s' w = dm_user s w"
    "db_wf db'" "map_option u_id (db_registered db' a) = Some (UserId (ae_uuid up))"
    "\<And>b. b \<noteq> a \<Longrightarrow> db_registered db' b = db_registered db b"
    "\<And>i. db_free_id db i \<Longrightarrow> i \<noteq> UserId (ae_uuid up) \<Longrightarrow> db_free_id db' i"
    "\<And>j. db_token db j = None \<Longrightarrow> j \<noteq> uuid_hex (ae_uuid log) \<Longrightarrow> db_token db' j = None"
    "db_conversation db' = db_conversation db"
proof -
  from sign_up_user_served [where base = base, OF assms(1-3) _ _ _ refl assms(9-11)] assms(4-8,12-14)
  obtain s' db' where run: "sign_up_user (api_deployment hf envs base) base who s = (Inr (), s')"
    "dm_world s' = \<lparr>sv_database = db', sv_requests = n + 2\<rparr>"
    "map ck_status (dm_checks s') = map ck_status (dm_checks s) @ [PASS]"
    and users: "\<forall>w. dm_user s' w = (if w = who then (dm_user s who)\<lparr>du_user_id := JText (uuid_str (ae_uuid up)),
        du_token := JText (access_token_of log (UserId (ae_uuid up)))\<rparr> else dm_user s w)"
    and db: "db_wf db'" "db_registered db' = (db_registered db)(a \<mapsto> \<lparr>u_id = UserId (ae_uuid up), u_email = a,
        u_password_hash = PasswordHash h, u_created_at = ae_now up\<rparr>)"
      "\<forall>i. db_free_id db i \<and> i \<noteq> UserId (ae_uuid up) \<longrightarrow> db_free_id db' i"
      "\<forall>j. db_token db j = None \<and> j \<noteq> uuid_hex (ae_uuid log) \<longrightarrow> db_token db' j = None"
      "db_conversation db' = db_conversation db"
    by blast
  show thesis by (rule that [OF run]) (simp_all add: users db)
qed

text \<open>The addresses the script makes up are in normal form.\<close>

lemma made_up_address:
  assumes "label \<noteq> []" and "\<forall>c \<in> set label. email_char c \<and> lower_char c = c"
  shows "mk_email (label @ ''-'' @ take 8 (uuid_hex u) @ ''@example.com'') =
    Inr (Email (label @ ''-'' @ take 8 (uuid_hex u) @ ''@example.com''))"
proof -
  let ?h = "take 8 (uuid_hex u)" and ?e = "label @ ''-'' @ take 8 (uuid_hex u) @ ''@example.com''"
  have hex: "email_char c \<and> lower_char c = c" if "c \<in> set ?h" for c
    using that by (auto dest!: in_set_takeD uuid_hex_chars
      simp: email_char_def hex_char_def is_space_def lower_char_def code_def)
  have ascii: "\<forall>c \<in> set ''@example.com'' \<union> set ''-''. lower_char c = c" "\<forall>c \<in> set ''-examplecom''. email_char c" by code_simp+
  have "lower ?e = ?e" unfolding lower_def using assms(2) hex ascii(1) by (intro map_idI) auto
  moreover have "stripped ?e"
    using assms by (cases label) (auto simp: stripped_def email_char_def is_space_def code_def)
  moreover have "email_shape ?e"
    unfolding email_shape_def using assms hex ascii(2)
    by (intro exI [of _ "label @ ''-'' @ ?h"] exI [of _ "''example''"] exI [of _ "''com''"]) auto
  ultimately show ?thesis by (simp add: mk_email_eq strip_fixed)
qed

text \<open>The whole of the first step: two users, and the first one's token tried.\<close>

lemma sign_up_served:
  assumes "http_documented hf" and "dm_world s = \<lparr>sv_database = db, sv_requests = 0\<rparr>" and "db_wf db"
    and "argon2_documented (ae_backend (envs 0))" and "jwt_of (envs 0)"
    and "\<forall>n. same_application (envs 0) (envs n)"
    and "argon2_hash (ae_backend (envs 0)) DEMO_CREDENTIAL = Inr h"
    and "mk_email (du_email (dm_user s Alice)) = Inr a" and "length (du_email (dm_user s Alice)) \<le> 320"
    and "mk_email (du_email (dm_user s Bob)) = Inr b" and "length (du_email (dm_user s Bob)) \<le> 320"
    and "db_registered db a = None" and "db_registered db b = None" and "a \<noteq> b"
    and "db_free_id db (UserId (ae_uuid (envs 0)))" and "db_free_id db (UserId (ae_uuid (envs 2)))"
    and "ae_uuid (envs 0) \<noteq> ae_uuid (envs 2)"
    and "db_token db (uuid_hex (ae_uuid (envs 1))) = None" and "db_token db (uuid_hex (ae_uuid (envs 3))) = None"
    and "ae_uuid (envs 1) \<noteq> ae_uuid (envs 3)"
    and "access_token_of (envs 1) (UserId (ae_uuid (envs 0))) \<noteq> []"
    and "access_token_of (envs 3) (UserId (ae_uuid (envs 2))) \<noteq> []" and "token_lives (envs 1) (envs 4)"
  shows "\<exists>s' db'. sign_up (api_deployment hf envs base) base s = (Inr (), s') \<and>
    map ck_status (dm_checks s') = map ck_status (dm_checks s) @ [PASS, PASS, PASS] \<and>
    du_token (dm_user s' Alice) = JText (access_token_of (envs 1) (UserId (ae_uuid (envs 0)))) \<and>
    du_user_id (dm_user s' Alice) = JText (uuid_str (ae_uuid (envs 0))) \<and>
    du_user_id (dm_user s' Bob) = JText (uuid_str (ae_uuid (envs 2))) \<and>
    du_email (dm_user s' Bob) = du_email (dm_user s Bob) \<and>
    dm_world s' = \<lparr>sv_database = db', sv_requests = 5\<rparr> \<and> db_wf db' \<and>
    map_option u_id (db_registered db' b) = Some (UserId (ae_uuid (envs 2))) \<and>
    db_conversation db' = db_conversation db"
proof -
  let ?dp = "api_deployment hf envs base" and ?alice = "UserId (ae_uuid (envs 0))" and ?bob = "UserId (ae_uuid (envs 2))"
  let ?s = "s\<lparr>dm_current_step := ''1 Sign up and log in two users''\<rparr>"
  have same: "ae_backend (envs n) = ae_backend (envs 0)" "ae_settings (envs n) = ae_settings (envs 0)" for n
    using assms(6) by (simp_all add: same_application_def)
  have same_app: "same_application (envs 0) (envs 1)" "same_application (envs 2) (envs 3)"
    using same [of 1] same [of 2] same [of 3] by (simp_all add: same_application_def)
  have two: "uuid_hex (ae_uuid (envs 1)) \<noteq> uuid_hex (ae_uuid (envs 3))" using assms(20) uuid_hex_inj by blast
  have argon2: "argon2_documented (ae_backend (envs 2))" "argon2_hash (ae_backend (envs 2)) DEMO_CREDENTIAL = Inr h"
    using assms(4,7) same [of 2] by simp_all
  obtain s1 db1 where one: "sign_up_user ?dp base Alice ?s = (Inr (), s1)" "dm_world s1 = \<lparr>sv_database = db1, sv_requests = 2\<rparr>"
      "map ck_status (dm_checks s1) = map ck_status (dm_checks s) @ [PASS]"
    and users1: "du_user_id (dm_user s1 Alice) = JText (uuid_str (ae_uuid (envs 0)))"
      "du_token (dm_user s1 Alice) = JText (access_token_of (envs 1) ?alice)" "dm_user s1 Bob = dm_user s Bob"
    and db1: "db_wf db1" "db_registered db1 b = None" "db_free_id db1 ?bob"
      "db_token db1 (uuid_hex (ae_uuid (envs 3))) = None" "db_conversation db1 = db_conversation db"
    by (rule signed_up [where s = ?s and n = 0 and who = Alice and base = base and db = db and a = a and up = "envs 0"
        and log = "envs 1", OF assms(1) _ assms(3) _ _ assms(4) same_app(1) assms(7)]) (use assms two in auto)
  obtain s2 db2 where two: "sign_up_user ?dp base Bob s1 = (Inr (), s2)" "dm_world s2 = \<lparr>sv_database = db2, sv_requests = 4\<rparr>"
      "map ck_status (dm_checks s2) = map ck_status (dm_checks s) @ [PASS, PASS]"
    and users2: "dm_user s2 Alice = dm_user s1 Alice" "du_user_id (dm_user s2 Bob) = JText (uuid_str (ae_uuid (envs 2)))"
      "du_email (dm_user s2 Bob) = du_email (dm_user s Bob)"
    and db2: "db_wf db2" "map_option u_id (db_registered db2 b) = Some ?bob" "db_conversation db2 = db_conversation db"
    by (rule signed_up [where s = s1 and n = 2 and who = Bob and base = base and a = b and up = "envs 2"
        and log = "envs 3", OF assms(1) one(2) db1(1) _ _ argon2(1) same_app(2) argon2(2)])
      (use assms(10,11,22) db1 one(3) users1(3) in auto)
  have "get_current_user (envs 4) (Some (access_token_of (envs 1) ?alice)) = Inr ?alice"
    by (rule accepted_all_along [OF assms(5,6,23)])
  note me = me_answered [OF this]
  let ?me = "s2\<lparr>dm_world := \<lparr>sv_database = db2, sv_requests = 5\<rparr>\<rparr>"
  have call: "api_call ?dp ''GET'' (base @ ''/auth/me'') 200 (Some (du_token (dm_user s2 Alice))) None s2 =
      (Inr (JObject [(''user_id'', JText (uuid_str (ae_uuid (envs 0))))]), ?me)"
    by (subst call_served [OF assms(1), of Me]) (use me two(2) users1 users2 assms(21) in \<open>auto simp: wire_of_json_def current_user_json_def\<close>)
  have "sign_up ?dp base s = (Inr (), ?me\<lparr>dm_checks := dm_checks s2 @
      [\<lparr>ck_step = dm_current_step s2, ck_claim = ''the access token authenticates a protected request'', ck_status = PASS\<rparr>]\<rparr>)"
    using call users1 users2
    by (simp add: sign_up_def thenp_def bindp_def demo_step_def set_state_def get_state_def one(1) two(1) user_of_def
        check_that_def check_def bindr_def lift_def ret_def)
  with two(3) users1 users2 db2 show ?thesis by simp
qed

subsection \<open>The conversation of the two\<close>

lemma user_ids_read: "each_item (JList (map (participant_json hf) ps)) ''user_id'' = Inr (map (\<lambda>p. JText (uuid_str (fst p))) ps)"
  by (simp add: each_item_def bindr_def, induction ps) (auto simp: participant_json_def bindr_def)

lemma same_users_read:
  assumes "(\<lambda>p. ParticipantId (fst p)) ` set ps = {ParticipantId a, ParticipantId b}"
  shows "same_set (map (\<lambda>p. JText (uuid_str (fst p))) ps) [JText (uuid_str a), JText (uuid_str b)] = Inr True"
proof -
  have "participant_id_value ` (\<lambda>p. ParticipantId (fst p)) ` set ps = {a, b}" using assms by simp
  then have "fst ` set ps = {a, b}" by (simp add: image_image)
  then have "(\<lambda>u. JText (uuid_str u)) ` fst ` set ps = {JText (uuid_str a), JText (uuid_str b)}" by simp
  then show ?thesis by (simp add: same_set_def image_image list_all_iff)
qed

lemma demo_create_conversation_served:
  assumes "http_documented hf" and "dm_world s = \<lparr>sv_database = db, sv_requests = 5\<rparr>" and "db_wf db"
    and token: "du_token (dm_user s Alice) = JText token" "token \<noteq> []"
    and caller: "get_current_user (envs 5) (Some token) = Inr (UserId alice)"
      "get_current_user (envs 6) (Some token) = Inr (UserId alice)" "get_current_user (envs 7) (Some token) = Inr (UserId alice)"
    and users: "du_user_id (dm_user s Alice) = JText (uuid_str alice)" "du_user_id (dm_user s Bob) = JText (uuid_str bob)"
    and bob: "mk_email (du_email (dm_user s Bob)) = Inr b" "length (du_email (dm_user s Bob)) \<le> 320"
      "map_option u_id (db_registered db b) = Some (UserId bob)"
    and "db_conversation db (ConversationId (ae_uuid (envs 5))) = None"
  shows "\<exists>s' db'. demo_create_conversation (api_deployment hf envs base) base s = (Inr (), s') \<and>
    map ck_status (dm_checks s') = map ck_status (dm_checks s) @ [PASS, PASS] \<and>
    dm_conversation_id s' = uuid_str (ae_uuid (envs 5)) \<and> dm_world s' = \<lparr>sv_database = db', sv_requests = 8\<rparr> \<and>
    map_option (\<lambda>c. (c_owner_id c, c_participant_ids c)) (seen db' (ae_uuid (envs 5))) =
      Some (OwnerId alice, {ParticipantId alice, ParticipantId bob})"
proof -
  let ?dp = "api_deployment hf envs base" and ?cid = "ae_uuid (envs 5)" and ?e = "du_email (dm_user s Bob)"
  have title: "mk_conversation_title ''demo'' = Inr (ConversationTitle ''demo'')" by code_simp
  obtain db1 c where create: "api (envs 5) (Some token) (CreateConversation ''demo'') db =
      (\<lparr>rs_status = 201, rs_www_authenticate = False, rs_body = ConversationResponse (conversation_from_domain c)\<rparr>, db1)"
    and c: "c = conversation_start (ConversationId ?cid) (OwnerId alice) (ConversationTitle ''demo'') (ae_now (envs 5))"
      "db_conversation db1 = (db_conversation db)(ConversationId ?cid \<mapsto> c)"
    using create_created [OF assms(3) caller(1) _ title assms(14)] by auto
  have wf1: "db_wf db1" using api_wf [OF assms(3), of "envs 5" "Some token" "CreateConversation ''demo''"] create by simp
  have found: "registered_id db1 ?e = Some bob"
    using bob(1,3) same_users [OF create_frame [OF create]] by (auto simp: registered_id_def)
  have valid: "request_valid (AddParticipant ?cid ?e)"
    using address_length [OF bob(1)] bob(2) by (simp add: text_field_def)
  obtain r2 db2 where add: "api (envs 6) (Some token) (AddParticipant ?cid ?e) db1 = (r2, db2)" by fastforce
  have r2: "rs_status r2 = 204" and c2: "db_conversation db2 = effect db1 (ae_now (envs 6)) (ae_uuid (envs 6)) alice (AddParticipant ?cid ?e)"
    using api_outcome [OF wf1 caller(2) valid] add c found
    by (simp_all add: unless_missing_def visible_def conversation_start_def owned_by_def)
  have wf2: "db_wf db2" using api_wf [OF wf1, of "envs 6" "Some token" "AddParticipant ?cid ?e"] add by simp
  have seen2: "seen db2 ?cid = Some (c\<lparr>c_participant_ids := {ParticipantId bob, ParticipantId alice}\<rparr>)"
    using c2 c found by (simp add: on_stored_def visible_def conversation_start_def)
  obtain ps where listed: "api (envs 7) (Some token) (ListParticipants ?cid) db2 =
      (\<lparr>rs_status = 200, rs_www_authenticate = False, rs_body = ParticipantsResponse ps\<rparr>, db2)"
    "(\<lambda>p. ParticipantId (fst p)) ` set ps = {ParticipantId alice, ParticipantId bob}"
    using participants_listed [OF wf2 caller(3) seen2] by (auto simp: shared_with_def insert_commute)
  have call1: "api_call ?dp ''POST'' (base @ ''/conversations'') 201 (Some (du_token (dm_user s Alice)))
      (Some (JObject [(''title'', JText ''demo'')])) (s\<lparr>dm_current_step := step\<rparr>) =
      (Inr (conversation_json hf (conversation_from_domain c)),
       s\<lparr>dm_current_step := step, dm_world := \<lparr>sv_database = db1, sv_requests = 6\<rparr>\<rparr>)" for step
    by (subst call_served [OF assms(1), of "CreateConversation ''demo''"])
      (use create token assms(2) in \<open>auto simp: wire_of_json_def members_def\<close>)
  let ?url = "base @ ''/conversations/'' @ uuid_str ?cid @ ''/participants''"
  have call2: "api_call ?dp ''POST'' ?url 204 (Some (JText token)) (Some (JObject [(''email'', JText ?e)])) s1 =
      (Inr JNull, s1\<lparr>dm_world := \<lparr>sv_database = db2, sv_requests = 7\<rparr>\<rparr>)"
    if "dm_world s1 = \<lparr>sv_database = db1, sv_requests = 6\<rparr>" for s1
    by (subst call_served [OF assms(1), of "AddParticipant ?cid ?e"])
      (use that add r2 token(2) in \<open>auto simp: wire_of_json_def members_def conversation_path_def\<close>)
  have call3: "api_call ?dp ''GET'' ?url 200 (Some (JText token)) None s1 =
      (Inr (JList (map (participant_json hf) ps)), s1\<lparr>dm_world := \<lparr>sv_database = db2, sv_requests = 8\<rparr>\<rparr>)"
    if "dm_world s1 = \<lparr>sv_database = db2, sv_requests = 7\<rparr>" for s1
    by (subst call_served [OF assms(1), of "ListParticipants ?cid"])
      (use that listed(1) token(2) in \<open>auto simp: wire_of_json_def conversation_path_def\<close>)
  have made: "subscript (conversation_json hf (conversation_from_domain c)) ''id'' = Inr (JText (uuid_str ?cid))"
    "subscript (conversation_json hf (conversation_from_domain c)) ''owner_id'' = Inr (JText (uuid_str alice))"
    by (simp_all add: c(1) conversation_json_def conversation_from_domain_def conversation_start_def)
  let ?check = "\<lambda>claim. \<lparr>ck_step = ''2 Create a conversation and invite the second user'', ck_claim = claim, ck_status = PASS\<rparr>"
  have "demo_create_conversation ?dp base s =
      (Inr (), s\<lparr>dm_current_step := ''2 Create a conversation and invite the second user'',
        dm_conversation_id := uuid_str ?cid,
        dm_checks := dm_checks s @ [?check ''alice owns a new conversation'', ?check ''both users are participants''],
        dm_world := \<lparr>sv_database = db2, sv_requests = 8\<rparr>\<rparr>)"
    using call1 [unfolded token(1)] token(1)
    by (simp add: demo_create_conversation_def thenp_def bindp_def demo_step_def set_state_def get_state_def user_of_def
        check_that_def check_def bindr_def lift_def ret_def Let_def made users call2 [simplified] call3 [simplified] user_ids_read same_users_read [OF listed(2)])
  with seen2 show ?thesis by (simp add: c(1) conversation_start_def insert_commute)
qed

subsection \<open>The two steps from a fresh run on\<close>

text \<open>What the run makes up is new: the addresses, and the identifiers the application draws for it.\<close>

definition new_here :: "(nat \<Rightarrow> api_env) \<Rightarrow> uuid \<Rightarrow> database \<Rightarrow> bool" where
  "new_here envs u db =
     ((\<forall>who \<in> {Alice, Bob}. db_registered db (Email (du_email (dm_user (fresh_demo u ()) who))) = None) \<and>
      (\<forall>n \<in> {0, 2}. db_free_id db (UserId (ae_uuid (envs n)))) \<and> ae_uuid (envs 0) \<noteq> ae_uuid (envs 2) \<and>
      (\<forall>n \<in> {1, 3}. db_token db (uuid_hex (ae_uuid (envs n))) = None) \<and> ae_uuid (envs 1) \<noteq> ae_uuid (envs 3) \<and>
      db_conversation db (ConversationId (ae_uuid (envs 5))) = None)"

text \<open>One application serves the whole run, its access tokens are no empty strings, and the first user's is
  valid at every later request: the clock does not go back behind the second of the login, and the token
  has not expired before the last request.\<close>

definition serves_the_run :: "(nat \<Rightarrow> api_env) \<Rightarrow> bool" where
  "serves_the_run envs =
     ((\<forall>n. same_application (envs 0) (envs n)) \<and>
      access_token_of (envs 1) (UserId (ae_uuid (envs 0))) \<noteq> [] \<and>
      access_token_of (envs 3) (UserId (ae_uuid (envs 2))) \<noteq> [] \<and>
      (\<forall>n \<in> {4, 5, 6, 7}. token_lives (envs 1) (envs n)))"

lemma fresh_addresses:
  "mk_email (du_email (dm_user (fresh_demo u w) who)) = Inr (Email (du_email (dm_user (fresh_demo u w) who)))"
  "length (du_email (dm_user (fresh_demo u w) who)) \<le> 320"
proof -
  have "\<forall>c \<in> set ''alice''. email_char c \<and> lower_char c = c" "\<forall>c \<in> set ''bob''. email_char c \<and> lower_char c = c"
    by code_simp+
  then show "mk_email (du_email (dm_user (fresh_demo u w) who)) = Inr (Email (du_email (dm_user (fresh_demo u w) who)))"
    using made_up_address [of "''alice''" u] made_up_address [of "''bob''" u]
    by (cases who) (simp_all add: fresh_demo_def Let_def)
  show "length (du_email (dm_user (fresh_demo u w) who)) \<le> 320"
    by (cases who) (simp_all add: fresh_demo_def Let_def)
qed

lemma fresh_addresses_differ: "du_email (dm_user (fresh_demo u w) Alice) \<noteq> du_email (dm_user (fresh_demo u w) Bob)"
  "du_email (dm_user (fresh_demo u w) who) = du_email (dm_user (fresh_demo u v) who)"
  by (simp_all add: fresh_demo_def Let_def split: who.split)

text \<open>C19: The script and the application fit together over HTTP. From any database that satisfies its
  invariant, with a password the hasher takes, new identifiers, a token that lives long enough and a clock that does
  not go back behind the second it was issued in, the first two steps of the demonstration run to their end against the modelled application, all five checks
  pass, and what is stored afterwards is a conversation that the first user owns and both take part in.\<close>

theorem demonstration_passes_over_http:
  assumes "http_documented hf" and "db_wf db" and "argon2_documented (ae_backend (envs 0))"
    and "jwt_of (envs 0)" and "argon2_hash (ae_backend (envs 0)) DEMO_CREDENTIAL = Inr h"
    and "serves_the_run envs" and "new_here envs u db"
  shows "\<exists>s'. thenp (sign_up (api_deployment hf envs base) base) (demo_create_conversation (api_deployment hf envs base) base)
      (fresh_demo u \<lparr>sv_database = db, sv_requests = 0\<rparr>) = (Inr (), s') \<and>
    map ck_status (dm_checks s') = [PASS, PASS, PASS, PASS, PASS] \<and>
    dm_conversation_id s' = uuid_str (ae_uuid (envs 5)) \<and>
    map_option (\<lambda>c. (c_owner_id c, c_participant_ids c)) (seen (sv_database (dm_world s')) (ae_uuid (envs 5))) =
      Some (OwnerId (ae_uuid (envs 0)), {ParticipantId (ae_uuid (envs 0)), ParticipantId (ae_uuid (envs 2))})"
proof -
  let ?s = "fresh_demo u \<lparr>sv_database = db, sv_requests = 0\<rparr>" and ?alice = "UserId (ae_uuid (envs 0))"
  have world: "dm_world ?s = \<lparr>sv_database = db, sv_requests = 0\<rparr>" by (simp add: fresh_demo_def Let_def)
  have runs: "\<forall>n. same_application (envs 0) (envs n)" "access_token_of (envs 1) ?alice \<noteq> []"
      "access_token_of (envs 3) (UserId (ae_uuid (envs 2))) \<noteq> []" "\<And>n. n \<in> {4, 5, 6, 7} \<Longrightarrow> token_lives (envs 1) (envs n)"
    using assms(6) unfolding serves_the_run_def by blast+
  have new: "db_free_id db ?alice" "db_free_id db (UserId (ae_uuid (envs 2)))" "ae_uuid (envs 0) \<noteq> ae_uuid (envs 2)"
      "db_token db (uuid_hex (ae_uuid (envs 1))) = None" "db_token db (uuid_hex (ae_uuid (envs 3))) = None"
      "ae_uuid (envs 1) \<noteq> ae_uuid (envs 3)" "db_conversation db (ConversationId (ae_uuid (envs 5))) = None"
    using assms(7) unfolding new_here_def by blast+
  have unused: "db_registered db (Email (du_email (dm_user ?s who))) = None" for who
    using assms(7) fresh_addresses_differ(2) [of u "\<lparr>sv_database = db, sv_requests = 0\<rparr>" who "()"]
    by (cases who) (simp_all add: new_here_def)
  note accepted = accepted_all_along [OF assms(4) runs(1)] and lives = runs(4)
  have accepted: "get_current_user (envs 5) (Some (access_token_of (envs 1) ?alice)) = Inr ?alice"
      "get_current_user (envs 6) (Some (access_token_of (envs 1) ?alice)) = Inr ?alice"
      "get_current_user (envs 7) (Some (access_token_of (envs 1) ?alice)) = Inr ?alice"
    by (rule accepted; rule lives; simp)+
  let ?b = "Email (du_email (dm_user ?s Bob))"
  have differ: "Email (du_email (dm_user ?s Alice)) \<noteq> ?b" using fresh_addresses_differ(1) by simp
  obtain s1 db1 where one: "sign_up (api_deployment hf envs base) base ?s = (Inr (), s1)"
      "map ck_status (dm_checks s1) = map ck_status (dm_checks ?s) @ [PASS, PASS, PASS]"
      "du_token (dm_user s1 Alice) = JText (access_token_of (envs 1) ?alice)"
      "du_user_id (dm_user s1 Alice) = JText (uuid_str (ae_uuid (envs 0)))"
      "du_user_id (dm_user s1 Bob) = JText (uuid_str (ae_uuid (envs 2)))"
      "du_email (dm_user s1 Bob) = du_email (dm_user ?s Bob)"
    and world1: "dm_world s1 = \<lparr>sv_database = db1, sv_requests = 5\<rparr>"
    and db1: "db_wf db1" "map_option u_id (db_registered db1 ?b) = Some (UserId (ae_uuid (envs 2)))"
      "db_conversation db1 = db_conversation db"
    using sign_up_served [where s = ?s and envs = envs and base = base, OF assms(1) world assms(2-4) runs(1) assms(5)
        fresh_addresses(1,2) fresh_addresses(1,2) unused unused differ new(1-6) runs(2,3)] runs(4) [of 4] by auto
  have "mk_email (du_email (dm_user s1 Bob)) = Inr ?b" "length (du_email (dm_user s1 Bob)) \<le> 320"
    using one(6) fresh_addresses by simp_all
  from demo_create_conversation_served [where s = s1 and envs = envs and base = base, OF assms(1) world1 db1(1) one(3) runs(2)
      accepted one(4,5) this db1(2)] new(7) db1(3)
  show ?thesis using one(1,2) by (auto simp: thenp_def bindp_def)
qed

subsection \<open>A framework and a deployment that meet the hypotheses\<close>

fun read_digits :: "nat \<Rightarrow> string \<Rightarrow> nat option" where
  "read_digits n [] = Some n"
| "read_digits n (c # s) =
     (case hex_value c of None \<Rightarrow> None | Some d \<Rightarrow> if d < 10 then read_digits (10 * n + d) s else None)"

definition read_int :: "string \<Rightarrow> int option" where
  "read_int s = (if s \<noteq> [] \<and> hd s = CHR ''-'' then map_option (\<lambda>n. - int n) (read_digits 0 (tl s))
     else if s = [] then None else map_option int (read_digits 0 s))"

definition sample_framework :: http_framework where
  "sample_framework =
     \<lparr>hf_uuid = uuid_parse, hf_int = read_int, hf_datetime = isoformat,
      hf_bearer = (\<lambda>h. if take 7 h = ''Bearer '' \<and> drop 7 h \<noteq> [] then Some (drop 7 h) else None),
      hf_unrouted = (\<lambda>verb path. (404, Json (JObject [(''detail'', JText ''Not Found'')])))\<rparr>"

lemma read_digits_append:
  "read_digits n (s @ t) = Option.bind (read_digits n s) (\<lambda>m. read_digits m t)"
  by (induction s arbitrary: n) (auto split: option.split)

lemma read_digits_str: "read_digits 0 (nat_str n) = Some n"
proof (induction n rule: nat_str.induct)
  case (1 n)
  show ?case
  proof (cases "n < 10")
    case True
    then show ?thesis by (simp add: nat_str.simps [of n] hex_digit_value)
  next
    case False
    with 1 show ?thesis by (simp add: nat_str.simps [of n] read_digits_append hex_digit_value)
  qed
qed

lemma read_int_str: "read_int (int_str i) = Some i"
proof (cases "i < 0")
  case True
  then show ?thesis by (simp add: read_int_def int_str_def read_digits_str)
next
  case False
  have "hd (nat_str (nat i)) \<noteq> CHR ''-''"
    using nat_str_no_sign [of "nat i"] hd_in_set [OF nat_str_not_Nil [of "nat i"]] by metis
  with False show ?thesis by (simp add: read_int_def int_str_def read_digits_str)
qed

lemma sample_framework_documented [simp]: "http_documented sample_framework"
  by (simp add: http_documented_def sample_framework_def read_int_str)

text \<open>As the sample backend, with one letter in front of every token; each request draws its own identifier.\<close>

definition demo_backend :: security_backend where
  "demo_backend = sample_backend
     \<lparr>jwt_encode := (\<lambda>payload key alg. CHR ''t'' # jwt_encode sample_backend payload key alg),
      jwt_decode := (\<lambda>now token key alg. jwt_decode sample_backend now (tl token) key alg)\<rparr>"

definition demo_envs :: "nat \<Rightarrow> api_env" where
  "demo_envs n =
     \<lparr>ae_settings = sample_settings, ae_backend = demo_backend, ae_now = int n, ae_uuid = 100 + word_of_nat n, ae_secret = ''s''\<rparr>"

lemma demo_backend_documented: "jwt_documented demo_backend key alg" "argon2_documented demo_backend"
  using sample_jwt [of key alg] sample_argon2 by (simp_all add: demo_backend_def jwt_documented_def argon2_documented_def)

lemma demo_envs_serve: "serves_the_run demo_envs"
  by (simp add: serves_the_run_def same_application_def token_lives_def token_valid_at_def demo_envs_def access_token_of_def issue_access_def
      demo_backend_def Let_def sample_settings_def int_timestamp_def timedelta_seconds_def)

lemma demo_envs_new: "new_here demo_envs 0 sample_db"
proof -
  have "uuid_hex (100 + word_of_nat 1) \<noteq> ''j''" "uuid_hex (100 + word_of_nat 3) \<noteq> ''j''"
    using length_uuid_hex by (metis length_Cons list.size(3) num.distinct(1) numeral_eq_one_iff One_nat_def)+
  then show ?thesis
    by (simp add: new_here_def demo_envs_def sample_db_def db_registered_def db_free_id_def db_token_def db_conversation_def
        fresh_demo_def Let_def)
qed

lemma demo_hash: "argon2_hash (ae_backend (demo_envs 0)) DEMO_CREDENTIAL = Inr (CHR ''h'' # DEMO_CREDENTIAL)"
  by (simp add: demo_envs_def demo_backend_def sample_backend_def)

theorem demonstration_passes_over_http_witness:
  "\<exists>s'. thenp (sign_up (api_deployment sample_framework demo_envs ''http://a'') ''http://a'')
       (demo_create_conversation (api_deployment sample_framework demo_envs ''http://a'') ''http://a'')
       (fresh_demo 0 \<lparr>sv_database = sample_db, sv_requests = 0\<rparr>) = (Inr (), s') \<and>
     map ck_status (dm_checks s') = [PASS, PASS, PASS, PASS, PASS] \<and> dm_conversation_id s' = uuid_str 105"
  using demonstration_passes_over_http [OF sample_framework_documented sample_db_wf _ _ demo_hash demo_envs_serve demo_envs_new,
      of "''http://a''"] demo_backend_documented
  by (auto simp: demo_envs_def jwt_of_def)

subsection \<open>Any request at all\<close>

text \<open>Well-formed or not, what comes in over HTTP keeps the invariant of the database, and what is answered
  with an error status leaves its tables alone.\<close>

lemma http_wf:
  assumes "db_wf db"
  shows "db_wf (snd (http hf env verb path query authorization body db))"
proof -
  have "db_wf db'" if "api env credentials req db = (r, db')" for credentials req r db'
    using api_wf [OF assms, of env credentials req] that by simp
  with assms show ?thesis by (auto simp: http_def Let_def split: option.split sum.split prod.split)
qed

lemma http_error_tables:
  assumes "400 \<le> fst (fst (http hf env verb path query authorization body db))"
  shows "\<exists>n. snd (http hf env verb path query authorization body db) = db\<lparr>db_message_seq := n\<rparr>"
proof -
  have same: "\<exists>n. db = db\<lparr>db_message_seq := n\<rparr>" by (intro exI [of _ "db_message_seq db"]) simp
  have answered: "\<exists>n. db' = db\<lparr>db_message_seq := n\<rparr>"
    if "api env credentials req db = (r, db')" "400 \<le> rs_status r" for credentials req r db'
    using api_error_tables [of env credentials req db] that by simp
  show ?thesis
    using assms same answered
    by (auto simp: http_def Let_def answer_def split: option.splits sum.splits prod.splits if_splits)
qed

subsection \<open>Every documented request\<close>

text \<open>C20: What a client writes by the documentation is what the controller gets: for each of the fourteen
  requests, its method, path, query and body, sent with a bearer token or without, are routed to the
  controller of the request with the parameters the client meant, past the paths that share a prefix, and
  the answer is the controller's on the wire.\<close>

theorem request_reaches_its_controller:
  assumes "http_documented hf" and "client_request req = (verb, path, query, body)" and "credentials \<noteq> Some []"
  shows "http hf env verb path query (bearer credentials) body db =
    (case api env credentials req db of (r, db') \<Rightarrow> (answer hf r, db'))"
  by (rule http_api [OF assms])

theorem request_reaches_its_controller_witness:
  "http sample_framework (sample_env 5 77 ''s'') ''POST'' ''/auth/signup'' [] None
      (members [(''email'', '' A@x.io''), (''password'', ''password'')]) sample_db =
    ((409, Json (JObject [(''detail'', JText ''email already registered: a@x.io'')])), sample_db)"
proof -
  have "mk_email '' A@x.io'' = Inr (Email ''a@x.io'')" by code_simp
  then have "api (sample_env 5 77 ''s'') None (Signup '' A@x.io'' ''password'') sample_db =
      (error_response (EmailAlreadyRegistered ''a@x.io''), sample_db)"
    using signup_taken [OF sample_db_wf, of "'' A@x.io''" "''password''"]
    by (simp add: text_field_def db_registered_def sample_db_def)
  then show ?thesis
    using request_reaches_its_controller [OF sample_framework_documented, of "Signup '' A@x.io'' ''password''" _ _ _ _ None]
    by (simp add: bearer_def answer_def error_response_def)
qed

end
