(* ===== verification/Spec2Isabelle.thy ===== *)
theory Spec2Isabelle
  imports ClusterProperties IdentityProperties ConversationProperties LifespanProperties Races MigrationProperties Schema Boot EndToEnd
begin

text \<open>
  A model of dizzchat, a chat backend of several replicas behind one Postgres and one Redis, and the
  theorems that make it correct. Everything is translated from the Python under \<open>src/src/dizzchat\<close>,
  \<open>src/migrations\<close> and \<open>src/scripts\<close>; in the file names below \<open>identity/\<close> and \<open>messaging/\<close> are the two directories of
  \<open>contexts/\<close>.

  \<^bold>\<open>The program and its parts.\<close> A client signs up and logs in over HTTP (the identity context) and
  gets an access token and a refresh token. With the access token it creates, renames, deletes, restores
  and shares conversations (the messaging context, over HTTP) and opens one WebSocket per conversation.
  A message that comes in over a socket is stored in one transaction and published on the
  conversation's Redis channel; every replica with a socket of that conversation is subscribed to the
  channel and writes the message to those sockets. A mock assistant answers each message the same way.
  A client that reconnects names the last message it saw and is sent the later ones. A limiter, whose
  counters all replicas share through Redis, bounds how many messages a user sends. Each process
  migrates the schema when it starts and drains its sockets when it stops.

  \<^bold>\<open>How a coroutine is modelled.\<close> A coroutine that can raise and changes a state \<open>'s\<close> is a function
  \<open>'s \<Rightarrow> (exn + 'a) \<times> 's\<close> (\<open>op\<close>), and the operators that join such functions are Python's statements
  (Prelude). A port of the program (a \<open>Protocol\<close>) is a record of its methods, a use case a function of
  the ports it is constructed with, and the contract of a port a locale, in which the facts about its
  clients are proved once; the locales are interpreted on the program's own adapters. What the program
  reads from outside (the clock, random values, frames, faults of Redis and of sockets, how a library
  call ends) is an argument or part of the state, and the theorems hold for all of it.

  \<^bold>\<open>Which theory models what.\<close>

  \<^item> Shared: Prelude (coroutines, generic lemmas on lists, triples over coroutines), PyText (text as
    Python has it, the pattern of an e-mail address), Uuid (128-bit identities and their text forms),
    IsoTime (dates and their text form), Identifiers (the identity value objects), Errors (every
    exception, and the tests of the class hierarchy).

  \<^item> Domain: IdentityDomain (\<open>identity/domain\<close>: e-mail, password, user, refresh token),
    ConversationDomain and MessageDomain (\<open>messaging/domain\<close>: title, the aggregate with its life cycle
    and its members, message content).

  \<^item> Use cases: IdentityServices (\<open>identity/application\<close>: register, authenticate, refresh), MessagingPorts,
    ConversationServices, MessageServices (\<open>messaging/application\<close>: every use case, with history,
    replay, posting and the exchange with the assistant).

  \<^item> Store: Database (the row models as tables with keys, unique constraints, foreign keys and bounds;
    the session, which inserts at the next flush), SqlRepositories (the four repositories and the user
    directory), SessionScoped (\<open>session_scoped_*\<close>: the adapters of the socket, one session per call).
    StoreInvariant, SqlStores, SqlMessageStore, StoreKept and UseCasesKeep hold the invariant \<open>db_wf\<close> of
    the database, the abstraction of a session (\<open>db_conversation\<close>, \<open>db_history\<close>, \<open>db_token\<close>,
    \<open>db_registered\<close>) and the proofs that the repositories implement the contracts and that every use
    case keeps the invariant. Security holds the argon2 and JWT adapters.

  \<^item> HTTP: Routing (\<open>shared/.../transactional_route.py\<close>: the transaction around a handler, the audit of
    the routers, the routers themselves), HttpApi (schemas, controllers, current user, error handlers;
    \<open>api\<close> is one whole request), ApiFacts (the facts of the stores carried to requests),
    ConversationPolicy (the specification of the conversation requests, and that the layers below it
    implement it), RequestFrames (what a request leaves alone), StoreRun (\<open>store_run\<close>: requests and messages, one transaction after
    the other), AccessFacts (who was let in by which request of a run), HttpWire (\<open>router.py\<close>, \<open>controllers/\<close> and
    \<open>schemas/\<close> as a client meets them: \<open>http\<close> finds the controller of a method and a path, reads the
    parameters of \<open>api\<close> out of path, query and JSON body, and writes the response as JSON).

  \<^item> Sockets: Protocol (\<open>realtime/protocol.py\<close> and \<open>redis/message_codec.py\<close>), WebSocketHandler
    (\<open>realtime/websocket.py\<close> over a record of its dependencies), SocketProtocol (the automaton of a
    socket's life, and that every run of the endpoint is a run of it), Replica (connection manager and
    Redis subscriber), Registry (joining and leaving), Delivery (broadcast, and \<open>replica_step\<close>: what a replica does,
    cut at the awaits that let others run, with the failures of Redis and of sockets and the loss of the
    pub/sub connection),
    RateLimiter (\<open>redis_rate_limiter.py\<close>), Cluster and ClusterFacts (the replicas, the broadcaster, and
    the wiring of \<open>realtime/dependencies.py\<close>).

  \<^item> Process and schema: Settings (\<open>config.py\<close> with its cache, \<open>main.py\<close>),
    Logging (\<open>logging.py\<close>: the JSON object of a log record, the root logger), Lifespan
    (\<open>app.py\<close>, \<open>database.py\<close>, \<open>redis_client.py\<close>: building the
    application, starting and stopping it), Migrations (\<open>migrations/env.py\<close>, the five
    revisions, the schema the row models declare), Schema (the records of the store as rows of that
    schema), Boot (\<open>migrations.py\<close> and \<open>env.py\<close> as the process runs them, from
    the import of \<open>app.py\<close> to the first request, and the migrations of several replicas at
    once), Races (two transactions at once).

  \<^item> Client: Demo (\<open>scripts/demo.py\<close>, the script that walks the flow against a running deployment), over an
    arbitrary deployment; EndToEnd, the deployment that answers the script's HTTP requests with \<open>http\<close>, one
    after the other on one database.

  The claims stand in the theories named \<open>...Properties\<close>, in Races, in Schema, in Boot and in EndToEnd;
  Samples holds the database and the library instance their witnesses use.

  \<^bold>\<open>What the theorems show.\<close>

  \<^item> Data: every run of requests and messages keeps the invariant of the database, a request answered with
    an error changes nothing; a conversation request is refused exactly when the policy says so, and else
    has exactly the effect specified; who may read and post after a run; deleting and restoring; the list
    of conversations.

  \<^item> Identity: sign-up and login, how long the access token is taken, one answer for every failing login, one exchange per refresh token,
    and the exception to it when two exchanges race; normal form of addresses; refresh tokens round-trip.

  \<^item> Messages: a send is idempotent in its client message id, also against a second one that runs at the
    same time; replay ends and returns every later message that is committed, and the case in which a
    message that is committed late is never replayed, whatever is written later; the pages of a history cover it.

  \<^item> Sockets: the endpoint follows its automaton whatever its dependencies do, serves nobody who was not
    admitted, exchanges only what was sent with a valid token, leaves what it joined, and ends.

  \<^item> Fan-out: a stored message reaches every live socket of its conversation on every replica whose reader
    lives and whose pub/sub connection is up, once and in order; a replica that has lost its connection
    delivers nothing of what is published until it is rebuilt, and a replay recovers it; what is published
    is what is stored; an acknowledged message is stored; the subscriptions of a replica follow its
    sockets in every state between the awaits of its coroutines, and the two failures after which they do
    not.

  \<^item> Limiter: exact count per window, bound across windows, and that it never refuses on a failure.

  \<^item> Process: the application boots, with routes that commit, exactly when the name of its log level is
    known; the lifespan runs with the settings it was built with, whose key has 32 characters or more; a
    line of the log holds its message, its extra fields and its connection; the process's end releases what
    it holds, unless its reader had died; the migrations build the schema of the row models, once however
    many replicas boot together, unless the database URL has a percent sign; the two that move data lose
    none; the store holds only what that schema admits, and refuses exactly what it refuses.

  \<^item> HTTP: each request, written as the documentation has it, reaches its controller with the parameters
    the client meant and is answered with the controller's response; whatever else comes in keeps the
    invariant of the database (\<open>http_wf\<close>), and changes nothing where it is answered with an error
    (\<open>http_error_tables\<close>).

  \<^item> Client: the demonstration exits with 0 only after a whole run in which no check failed
    (\<open>demo_exit_code\<close>), and its HTTP half, the sign-up of two users and their conversation, passes
    all its checks against the modelled application.

  \<^bold>\<open>Loops and fuel.\<close> Replay and the receive loop are \<open>partial_function
  (option)\<close>, and that they return is a theorem: replay because each page raises the cursor
  (\<open>replay_returns_every_missed_message\<close>), the receive loop because the frames of a client are
  a finite list that ends in a disconnect (\<open>endpoint_ends_with_its_client\<close>).
  \<open>pending_revisions\<close> takes the number of revisions as fuel: the chain has no more. The
  demonstration polls the health endpoints with a pause of two seconds until its deadline, so 8 failing
  polls (15 seconds) or 90 (180 seconds) are the most that begin before it. The reader of a replica is a
  relation on its states, one turn a step.

  \<^bold>\<open>Not modelled.\<close>

  \<^item> Libraries are parameters with their documented behaviour as hypotheses (argon2, SHA-256; PyJWT for the
    payloads the program makes, under its key and algorithm: valid from the second of \<open>iat\<close> to that of \<open>exp\<close>;
    the conversions of pydantic, the texts of UUIDs and numbers in a URL). Of SQLAlchemy, Postgres, Redis and FastAPI the model has what the code
    uses: relational statements and their constraints, flush and rollback, channels, counters that expire,
    the order of dependencies, validation and handler. Finding and reading a variable of the environment
    is a single library call, and so are opening the engine and the Redis client, which the model gives
    what the code gives them.

  \<^item> A NUL character in text, which Postgres refuses to store, and a message number beyond 2^63.

  \<^item> Characters above U+00FF, layouts of \<open>fromisoformat\<close> other than the one \<open>isoformat\<close> writes, and turning
    JSON trees into text.

  \<^item> Cancellation of a task while it waits, and the calls of the loggers in the handlers, which nothing
    reads back. Interleaving is modelled where the code meets it: between two awaits of the endpoint,
    between the replicas, between the coroutines of a replica where one awaits Redis or a pause, between
    the two halves of a refresh or of a send, and at the commit of a message. The sends of one broadcast are
    one step, and so is what a coroutine does under the subscriber's lock. The other transactions run one
    at a time.

  \<^item> Of HTTP: percent-encoding of paths and queries, the redirect of a path that ends in a slash, the
    answers of the CORS middleware, and the text that explains a request that is not valid. How a date
    is written in a response is the framework's and a parameter. The part of the demonstration that uses
    sockets is not run against the modelled endpoint, whose run the model takes as a whole and not in
    turns with the client's.

  \<^item> Alembic's offline mode, and of the demonstration what it prints and the texts of its failures.
\<close>

end
